(* ===== verification/Prelude.thy ===== *)
theory Prelude
  imports Main "HOL-Library.Monad_Syntax"
begin

text \<open>
  Shared vocabulary of the development: the simple types every component uses, tables as
  lists of rows with the three SQL statement shapes (\<open>WHERE\<close> is a filter, \<open>UPDATE\<close> maps the
  matching rows, \<open>ORDER BY\<close> sorts), and generic lemmas on them.  Nothing here is about
  one component.
\<close>

text \<open>A UUID is its sixteen bytes read as one number, so that the order of PostgreSQL's
  \<^verbatim>\<open>uuid\<close> type (bytewise) is the order of numbers.  A timestamp counts microseconds, the
  resolution of \<^verbatim>\<open>timestamptz\<close>.\<close>

type_synonym uuid = nat
type_synonym ts = int

definition second :: ts where
  "second = 1000000"

definition minute :: ts where
  "minute = 60 * second"

named_theorems run_simps \<open>inversion of successful runs of effectful code\<close>
named_theorems op_defs \<open>definitions of statements, unfolded when a run is analysed\<close>

subsection \<open>Tables\<close>

definition update_where :: "('r \<Rightarrow> bool) \<Rightarrow> ('r \<Rightarrow> 'r) \<Rightarrow> 'r list \<Rightarrow> 'r list" where
  "update_where p f rows = map (\<lambda>r. if p r then f r else r) rows"

definition count_where :: "('r \<Rightarrow> bool) \<Rightarrow> 'r list \<Rightarrow> nat" where
  "count_where p rows = length (filter p rows)"

definition find_row :: "('r \<Rightarrow> bool) \<Rightarrow> 'r list \<Rightarrow> 'r option" where
  "find_row p rows = List.find p rows"

text \<open>\<^verbatim>\<open>QueryRow\<close> scans the first row.\<close>

definition first_row :: "'a list \<Rightarrow> 'a option" where
  "first_row rows = (case rows of [] \<Rightarrow> None | r # _ \<Rightarrow> Some r)"

text \<open>Lexicographic comparison of byte strings, as Go's \<^verbatim>\<open><\<close> on \<^verbatim>\<open>string\<close>.\<close>

fun str_less :: "string \<Rightarrow> string \<Rightarrow> bool" where
  "str_less _ [] = False"
| "str_less [] (_ # _) = True"
| "str_less (a # as) (b # bs) =
     ((of_char a :: nat) < of_char b \<or> (a = b \<and> str_less as bs))"

fun insert_by :: "('a \<Rightarrow> 'a \<Rightarrow> bool) \<Rightarrow> 'a \<Rightarrow> 'a list \<Rightarrow> 'a list" where
  "insert_by lt x [] = [x]"
| "insert_by lt x (y # ys) = (if lt y x then y # insert_by lt x ys else x # y # ys)"

fun sort_by :: "('a \<Rightarrow> 'a \<Rightarrow> bool) \<Rightarrow> 'a list \<Rightarrow> 'a list" where
  "sort_by lt [] = []"
| "sort_by lt (x # xs) = insert_by lt x (sort_by lt xs)"

subsection \<open>Facts about tables\<close>

lemma length_update_where [simp]: "length (update_where p f rows) = length rows"
  by (simp add: update_where_def)

lemma set_update_where: "set (update_where p f rows) = (\<lambda>r. if p r then f r else r) ` set rows"
  by (simp add: update_where_def)

lemma in_update_where: "r \<in> set rows \<Longrightarrow> p r \<Longrightarrow> f r \<in> set (update_where p f rows)"
  by (force simp: set_update_where)

lemma in_update_where_same: "r \<in> set rows \<Longrightarrow> \<not> p r \<Longrightarrow> r \<in> set (update_where p f rows)"
  by (force simp: set_update_where)

lemma update_where_Nil [simp]: "update_where p f [] = []"
  by (simp add: update_where_def)

lemma update_where_Cons [simp]:
  "update_where p f (r # rows) = (if p r then f r else r) # update_where p f rows"
  by (simp add: update_where_def)

lemma update_where_append [simp]:
  "update_where p f (xs @ ys) = update_where p f xs @ update_where p f ys"
  by (simp add: update_where_def)

lemma map_update_where_keep:
  assumes "\<And>r. p r \<Longrightarrow> k (f r) = k r"
  shows "map k (update_where p f rows) = map k rows"
  using assms by (induction rows) auto

lemma update_where_id: "\<forall>r \<in> set rows. \<not> p r \<Longrightarrow> update_where p f rows = rows"
  by (induction rows) auto

lemma count_where_le: "count_where p rows \<le> length rows"
  by (simp add: count_where_def)

lemma count_where_0_iff: "count_where p rows = 0 \<longleftrightarrow> (\<forall>r \<in> set rows. \<not> p r)"
  by (simp add: count_where_def filter_empty_conv)

lemma find_row_SomeD: "find_row p rows = Some r \<Longrightarrow> r \<in> set rows \<and> p r"
  by (auto simp: find_row_def find_Some_iff)

lemma find_row_NoneD: "find_row p rows = None \<Longrightarrow> r \<in> set rows \<Longrightarrow> \<not> p r"
  by (auto simp: find_row_def find_None_iff)

lemma find_row_None_iff: "find_row p rows = None \<longleftrightarrow> (\<forall>r \<in> set rows. \<not> p r)"
  by (auto simp: find_row_def find_None_iff)

lemma first_row_Some: "first_row rows = Some r \<Longrightarrow> r \<in> set rows"
  by (cases rows) (auto simp: first_row_def)

lemma find_row_Nil [simp]: "find_row p [] = None"
  by (simp add: find_row_def)

lemma find_row_Cons [simp]: "find_row p (r # rows) = (if p r then Some r else find_row p rows)"
  by (simp add: find_row_def)

text \<open>Updating in two rounds with the same change, when the first round leaves nothing for the
  second.\<close>

lemma update_where_twice:
  assumes "\<And>r. p r \<Longrightarrow> \<not> q (f r)"
  shows "update_where q f (update_where p f rows) = update_where (\<lambda>r. p r \<or> q r) f rows"
  using assms by (induction rows) auto

lemma update_where_cong:
  assumes "\<And>r. r \<in> set rows \<Longrightarrow> p r = q r"
  shows "update_where p f rows = update_where q f rows"
  using assms by (simp add: update_where_def)

lemma update_where_False [simp]: "update_where (\<lambda>r. False) f rows = rows"
  by (simp add: update_where_id)

lemma distinct_map_update_keep:
  assumes "\<And>r. p r \<Longrightarrow> k (f r) = k r" and "distinct (map k rows)"
  shows "distinct (map k (update_where p f rows))"
  using assms by (simp add: map_update_where_keep)

text \<open>A partial unique index survives an update that keeps the key and activates no row.\<close>

lemma set_map_filter_update:
  assumes "\<And>r. p r \<Longrightarrow> k (f r) = k r" and "\<And>r. p r \<Longrightarrow> act (f r) \<Longrightarrow> act r"
  shows "k ` {r \<in> set (update_where p f rows). act r} \<subseteq> k ` {r \<in> set rows. act r}"
  using assms by (force simp: set_update_where)

lemma partial_unique_update:
  assumes "\<And>r. p r \<Longrightarrow> k (f r) = k r" and "\<And>r. p r \<Longrightarrow> act (f r) \<Longrightarrow> act r"
    and "distinct (map k (filter act rows))"
  shows "distinct (map k (filter act (update_where p f rows)))"
  using assms(3)
proof (induction rows)
  case Nil
  then show ?case by simp
next
  case (Cons r rows)
  have sub: "k ` {r \<in> set (update_where p f rows). act r} \<subseteq> k ` {r \<in> set rows. act r}"
    by (rule set_map_filter_update) (use assms(1,2) in auto)
  show ?case
    using Cons sub assms(1,2) [of r] by (auto split: if_splits)
qed

lemma partial_unique_same:
  assumes "distinct (map k (filter act rows))" and "a \<in> set rows" and "b \<in> set rows"
    and "act a" and "act b" and "k a = k b"
  shows "a = b"
  using assms by (auto simp: distinct_map inj_on_def)

lemma distinct_map_same:
  assumes "distinct (map k rows)" and "a \<in> set rows" and "b \<in> set rows" and "k a = k b"
  shows "a = b"
  using assms by (auto simp: distinct_map inj_on_def)

subsection \<open>Facts about sorting\<close>

lemma set_insert_by [simp]: "set (insert_by lt x xs) = insert x (set xs)"
  by (induction xs) auto

lemma set_sort_by [simp]: "set (sort_by lt xs) = set xs"
  by (induction xs) auto

lemma length_insert_by [simp]: "length (insert_by lt x xs) = Suc (length xs)"
  by (induction xs) auto

lemma length_sort_by [simp]: "length (sort_by lt xs) = length xs"
  by (induction xs) auto

lemma distinct_map_insert_by:
  "distinct (map k (insert_by lt x xs)) \<longleftrightarrow> distinct (map k (x # xs))"
  by (induction xs) auto

lemma distinct_map_sort_by [simp]: "distinct (map k (sort_by lt xs)) \<longleftrightarrow> distinct (map k xs)"
proof (induction xs)
  case Nil
  then show ?case by simp
next
  case (Cons x xs)
  have "k ` set (sort_by lt xs) = k ` set xs" by simp
  with Cons show ?case by (simp add: distinct_map_insert_by)
qed

lemma sorted_wrt_insert_by:
  assumes asym: "\<And>a b. lt a b \<Longrightarrow> \<not> lt b a"
    and trans: "\<And>a b c. \<not> lt b a \<Longrightarrow> \<not> lt c b \<Longrightarrow> \<not> lt c a"
    and "sorted_wrt (\<lambda>a b. \<not> lt b a) xs"
  shows "sorted_wrt (\<lambda>a b. \<not> lt b a) (insert_by lt x xs)"
  using assms(3)
proof (induction xs)
  case Nil
  then show ?case by simp
next
  case (Cons y ys)
  then show ?case
    using asym [of y x] trans [where a = x and b = y] by auto
qed

lemma sorted_wrt_sort_by:
  assumes "\<And>a b. lt a b \<Longrightarrow> \<not> lt b a"
    and "\<And>a b c. \<not> lt b a \<Longrightarrow> \<not> lt c b \<Longrightarrow> \<not> lt c a"
  shows "sorted_wrt (\<lambda>a b. \<not> lt b a) (sort_by lt xs)"
proof (induction xs)
  case Nil
  then show ?case by simp
next
  case (Cons x xs)
  then show ?case by (simp add: sorted_wrt_insert_by [OF assms])
qed

lemma str_less_irrefl [simp]: "\<not> str_less s s"
  by (induction s) auto

lemma str_less_asym: "str_less a b \<Longrightarrow> \<not> str_less b a"
  by (induction a b rule: str_less.induct) auto

lemma str_less_total: "\<not> str_less a b \<Longrightarrow> \<not> str_less b a \<Longrightarrow> a = b"
proof (induction a b rule: str_less.induct)
  case (1 s)
  then show ?case by (cases s) auto
next
  case (2 b bs)
  then show ?case by simp
next
  case (3 a as b bs)
  then show ?case by (auto simp: not_less dest: order_antisym)
qed

lemma str_less_trans: "str_less a b \<Longrightarrow> str_less b c \<Longrightarrow> str_less a c"
proof (induction a b arbitrary: c rule: str_less.induct)
  case (1 s)
  then show ?case by simp
next
  case (2 b bs)
  then show ?case by (cases c) auto
next
  case (3 a as b bs)
  then show ?case by (cases c) auto
qed

lemma str_not_less_trans: "\<not> str_less b a \<Longrightarrow> \<not> str_less c b \<Longrightarrow> \<not> str_less c a"
  using str_less_total str_less_trans by blast

lemma sorted_wrt_strict:
  assumes "sorted_wrt (\<lambda>a b. \<not> str_less (k b) (k a)) xs" and "distinct (map k xs)"
  shows "sorted_wrt (\<lambda>a b. str_less (k a) (k b)) xs"
  using assms
proof (induction xs)
  case Nil
  then show ?case by simp
next
  case (Cons x xs)
  then have "str_less (k x) (k y)" if "y \<in> set xs" for y
    using that str_less_total [of "k x" "k y"] by (auto simp: image_iff)
  with Cons show ?case by simp
qed

lemma insert_by_least: "(\<forall>y \<in> set ys. \<not> lt y x) \<Longrightarrow> insert_by lt x ys = x # ys"
  by (cases ys) auto

lemma sort_by_sorted:
  "sorted_wrt (\<lambda>a b. \<not> lt b a) xs \<Longrightarrow> sort_by lt xs = xs"
  by (induction xs) (auto simp: insert_by_least)

subsection \<open>Joins on keys\<close>

lemma join_one:
  assumes "distinct (map k xs)" and "\<And>x. x \<in> set xs \<Longrightarrow> k x \<noteq> v \<Longrightarrow> g x = []" and "\<And>x. length (g x) \<le> 1"
  shows "length (concat (map g xs)) \<le> 1"
  using assms(1,2)
proof (induction xs)
  case Nil
  then show ?case by simp
next
  case (Cons x xs)
  show ?case
  proof (cases "k x = v")
    case True
    with Cons.prems have "\<forall>y \<in> set xs. g y = []" by (auto simp: image_iff)
    then have "concat (map g (x # xs)) = g x" by simp
    with assms(3) [of x] show ?thesis by (simp only:)
  next
    case False
    with Cons show ?thesis by simp
  qed
qed

lemma concat_option_rows:
  assumes "\<And>x. length (g x) \<le> 1" and "\<And>x y. y \<in> set (g x) \<Longrightarrow> y = x"
  shows "concat (map g xs) = filter (\<lambda>x. g x \<noteq> []) xs"
proof (induction xs)
  case Nil
  then show ?case by simp
next
  case (Cons x xs)
  have "g x = [] \<or> g x = [x]"
    using assms(1) [of x] assms(2) [of _ x] by (cases "g x") auto
  with Cons show ?case by auto
qed

end
