(* ===== verification/Runtime.thy ===== *)
theory Runtime
  imports Prelude
begin

text \<open>
  How the Go code meets its database.  An effectful Go function is an \<open>act\<close>: it reads the
  environment (clock, faults, generated ids, third-party functions), threads the world (the
  committed or working database, the number of statements issued, the number of random
  draws), and returns \<open>Inl\<close> of a Go error or \<open>Inr\<close> of its result.  \<open>andthen\<close> is the
  \<^verbatim>\<open>if err != nil { return err }\<close> of the source.  A statement may fail at any point
  (\<open>fault\<close>), and \<open>in_tx\<close> is \<^verbatim>\<open>Begin\<close>, the body, and either \<^verbatim>\<open>Commit\<close> or the deferred
  \<^verbatim>\<open>Rollback\<close>, which restores the database of the beginning.
\<close>

subsection \<open>Errors\<close>

text \<open>The sentinel errors of the packages, the driver's errors, and \<^verbatim>\<open>fmt.Errorf("...: %w")\<close>
  as \<open>Wrap\<close>.\<close>

datatype gerr =
    ErrInvalidHoldRequest | ErrBookingNotFound | ErrBookingNotHoldable
  | ErrPassengerNotFound | ErrSeatUnavailable | ErrInventoryConflict
  | IdemErrKey | IdemErrConflict
  | QuoteErrInvalid | QuoteErrUnavailable
  | PaymentErrInvalid | PaymentErrUnavailable
  | AuthErrInvalidInput | AuthErrUnauthorized | AuthErrBusy
  | FlightErrInvalid | FlightErrNotFound
  | ErrNoRows
  | PgError string
  | DeadlineExceeded
  | OtherError string
  | Wrap string gerr

text \<open>\<^verbatim>\<open>errors.Is\<close> looks through the wrapping.\<close>

fun errors_is :: "gerr \<Rightarrow> gerr \<Rightarrow> bool" where
  "errors_is (Wrap m e) t = (Wrap m e = t \<or> errors_is e t)"
| "errors_is e t = (e = t)"

text \<open>\<^verbatim>\<open>errors.As(err, &pg)\<close>: the SQLSTATE code of the PostgreSQL error inside, if any.\<close>

fun errors_as_pg :: "gerr \<Rightarrow> string option" where
  "errors_as_pg (Wrap m e) = errors_as_pg e"
| "errors_as_pg (PgError c) = Some c"
| "errors_as_pg _ = None"

text \<open>Why a statement can fail for reasons outside the model: the server raises an error of
  its own (a lock timeout, a deadlock), the deadline passes, or the connection is lost.\<close>

datatype db_fault = ServerError string | Deadline | ConnectionLost

primrec fault_error :: "db_fault \<Rightarrow> gerr" where
  "fault_error (ServerError c) = PgError c"
| "fault_error Deadline = DeadlineExceeded"
| "fault_error ConnectionLost = OtherError ''connection lost''"

subsection \<open>JSON values\<close>

text \<open>What \<^verbatim>\<open>encoding/json\<close> sees of a payload or a response; \<open>JTime\<close> stands for the
  RFC 3339 text of a timestamp.\<close>

datatype jval =
    JNull | JBool bool | JNum int | JStr string | JTime ts
  | JArr "jval list" | JObj "(string \<times> jval) list"

subsection \<open>Environment and world\<close>

text \<open>The world holds the database, the number of statements issued so far, the number of
  random reads, and the start time of the running transaction, which is the value of
  \<^verbatim>\<open>CURRENT_TIMESTAMP\<close> in it.  Statement number \<open>n\<close> runs at time \<open>clock E n\<close>, fails if \<open>fault E n\<close> says so, draws
  \<open>gen_uuid E n k\<close> as the id of the \<open>k\<close>-th row it inserts, and finds the row \<open>u\<close> locked by
  another transaction (which \<^verbatim>\<open>SKIP LOCKED\<close> skips) when \<open>row_locked E n u\<close>.  The parsing of
  UUIDs (pgtype), JSON text, SHA-256 and the random source are parameters.\<close>

record env =
  clock :: "nat \<Rightarrow> ts"
  fault :: "nat \<Rightarrow> db_fault option"
  gen_uuid :: "nat \<Rightarrow> nat \<Rightarrow> uuid"
  row_locked :: "nat \<Rightarrow> uuid \<Rightarrow> bool"
  scan_uuid :: "string \<Rightarrow> uuid option"
  uuid_text :: "uuid \<Rightarrow> string"
  marshal :: "jval \<Rightarrow> string"
  sha256 :: "string \<Rightarrow> string"
  rand_read :: "nat \<Rightarrow> nat \<Rightarrow> gerr + nat list"
  wall_time :: "nat \<Rightarrow> ts"
  lab_faults :: string

record 'd world =
  db :: 'd
  pc :: nat
  draws :: nat
  txn :: ts

type_synonym ('d, 'a) act = "env \<Rightarrow> 'd world \<Rightarrow> (gerr + 'a) \<times> 'd world"

subsection \<open>Combinators\<close>

definition ret :: "'a \<Rightarrow> ('d, 'a) act" where
  "ret a E w = (Inr a, w)"

definition fail :: "gerr \<Rightarrow> ('d, 'a) act" where
  "fail e E w = (Inl e, w)"

definition andthen :: "('d, 'a) act \<Rightarrow> ('a \<Rightarrow> ('d, 'b) act) \<Rightarrow> ('d, 'b) act" where
  "andthen m f E w = (case m E w of (Inl e, w') \<Rightarrow> (Inl e, w') | (Inr a, w') \<Rightarrow> f a E w')"

definition map_err :: "(gerr \<Rightarrow> gerr) \<Rightarrow> ('d, 'a) act \<Rightarrow> ('d, 'a) act" where
  "map_err g m E w = (case m E w of (Inl e, w') \<Rightarrow> (Inl (g e), w') | r \<Rightarrow> r)"

definition wrap_err :: "string \<Rightarrow> ('d, 'a) act \<Rightarrow> ('d, 'a) act" where
  "wrap_err msg = map_err (Wrap msg)"

definition ensure :: "bool \<Rightarrow> gerr \<Rightarrow> ('d, unit) act" where
  "ensure b e = (if b then ret () else fail e)"

definition reading :: "(env \<Rightarrow> 'a) \<Rightarrow> ('d, 'a) act" where
  "reading f E w = (Inr (f E), w)"

definition now_wall :: "('d, ts) act" where
  "now_wall E w = (Inr (wall_time E (pc w)), w)"

definition draw_bytes :: "nat \<Rightarrow> ('d, nat list) act" where
  "draw_bytes len E w = (rand_read E (draws w) len, w\<lparr>draws := Suc (draws w)\<rparr>)"

text \<open>One SQL statement: it fails by a fault, or by a constraint it violates (\<open>Inl\<close> of the
  statement itself), or it returns a result and the new database.  A failing statement
  changes nothing.\<close>

definition stmt :: "(env \<Rightarrow> 'd world \<Rightarrow> gerr + ('a \<times> 'd)) \<Rightarrow> ('d, 'a) act" where
  "stmt q E w =
     (let w' = w\<lparr>pc := Suc (pc w)\<rparr> in
      case fault E (pc w) of
        Some x \<Rightarrow> (Inl (fault_error x), w')
      | None \<Rightarrow> (case q E w of
                   Inl e \<Rightarrow> (Inl e, w')
                 | Inr (a, d) \<Rightarrow> (Inr a, w'\<lparr>db := d\<rparr>)))"

text \<open>A statement that only reads, at its clock reading.\<close>

definition select :: "(ts \<Rightarrow> 'd \<Rightarrow> 'a) \<Rightarrow> ('d, 'a) act" where
  "select f = stmt (\<lambda>E w. Inr (f (clock E (pc w)) (db w), db w))"

text \<open>How a transaction's body ends: \<^verbatim>\<open>Commit\<close> followed by the given return, or a return
  that leaves the work to the deferred rollback.\<close>

datatype 'a tx_end = Commit "gerr + 'a" | Rollback "gerr + 'a"

definition nop_stmt :: "('d, unit) act" where
  "nop_stmt = stmt (\<lambda>E w. Inr ((), db w))"

definition in_tx_with ::
  "(gerr \<Rightarrow> gerr) \<Rightarrow> (gerr \<Rightarrow> gerr) \<Rightarrow> ('d, 'a tx_end) act \<Rightarrow> ('d, 'a) act" where
  "in_tx_with begin_err commit_err body E w =
     (case nop_stmt E w of
        (Inl e, w1) \<Rightarrow> (Inl (begin_err e), w1)
      | (Inr _, w1) \<Rightarrow>
          (case body E (w1\<lparr>txn := clock E (pc w)\<rparr>) of
             (Inl e, w2) \<Rightarrow> (Inl e, w2\<lparr>db := db w\<rparr>)
           | (Inr (Rollback r), w2) \<Rightarrow> (r, w2\<lparr>db := db w\<rparr>)
           | (Inr (Commit r), w2) \<Rightarrow>
               (case nop_stmt E w2 of
                  (Inl e, w3) \<Rightarrow> (Inl (commit_err e), w3\<lparr>db := db w\<rparr>)
                | (Inr _, w3) \<Rightarrow> (r, w3))))"

definition in_tx :: "('d, 'a tx_end) act \<Rightarrow> ('d, 'a) act" where
  "in_tx body = in_tx_with (\<lambda>e. e) (\<lambda>e. e) body"

text \<open>A \<^verbatim>\<open>for\<close> loop over a list whose body may return an error.\<close>

fun for_each :: "'x list \<Rightarrow> ('x \<Rightarrow> ('d, unit) act) \<Rightarrow> ('d, unit) act" where
  "for_each [] f = ret ()"
| "for_each (x # xs) f = andthen (f x) (\<lambda>_. for_each xs f)"

subsection \<open>Running\<close>

lemma errors_is_Wrap_sentinel [simp]:
  "(\<And>m' e'. t \<noteq> Wrap m' e') \<Longrightarrow> errors_is (Wrap m e) t = errors_is e t"
  by auto

lemma ret_run [simp]: "ret a E w = (Inr a, w)"
  by (simp add: ret_def)

lemma fail_run [simp]: "fail e E w = (Inl e, w)"
  by (simp add: fail_def)

lemma reading_run [simp]: "reading f E w = (Inr (f E), w)"
  by (simp add: reading_def)

lemma now_wall_run [simp]: "now_wall E w = (Inr (wall_time E (pc w)), w)"
  by (simp add: now_wall_def)

lemma ensure_run: "ensure b e E w = (if b then (Inr (), w) else (Inl e, w))"
  by (simp add: ensure_def)

lemma andthen_Inr [run_simps]:
  "andthen m f E w = (Inr b, w2) \<longleftrightarrow> (\<exists>a w1. m E w = (Inr a, w1) \<and> f a E w1 = (Inr b, w2))"
  by (auto simp: andthen_def split: prod.splits sum.splits)

lemma andthen_run:
  "m E w = (Inr a, w1) \<Longrightarrow> andthen m f E w = f a E w1"
  by (simp add: andthen_def)

lemma andthen_fails:
  "m E w = (Inl e, w1) \<Longrightarrow> andthen m f E w = (Inl e, w1)"
  by (simp add: andthen_def)

lemma map_err_Inr [run_simps]: "map_err g m E w = (Inr a, w') \<longleftrightarrow> m E w = (Inr a, w')"
  by (auto simp: map_err_def split: prod.splits sum.splits)

lemma wrap_err_Inr [run_simps]: "wrap_err msg m E w = (Inr a, w') \<longleftrightarrow> m E w = (Inr a, w')"
  by (simp add: wrap_err_def map_err_Inr)

lemma ensure_Inr [run_simps]: "ensure b e E w = (Inr u, w') \<longleftrightarrow> b \<and> w' = w"
  by (auto simp: ensure_def)

lemma draw_bytes_Inr [run_simps]:
  "draw_bytes len E w = (Inr bs, w') \<longleftrightarrow>
     rand_read E (draws w) len = Inr bs \<and> w' = w\<lparr>draws := Suc (draws w)\<rparr>"
  by (auto simp: draw_bytes_def)

lemma stmt_Inr [run_simps]:
  "stmt q E w = (Inr a, w') \<longleftrightarrow>
     fault E (pc w) = None \<and>
     (\<exists>d. q E w = Inr (a, d) \<and> w' = w\<lparr>pc := Suc (pc w), db := d\<rparr>)"
  by (auto simp: stmt_def Let_def split: option.splits sum.splits prod.splits)

lemma select_Inr [run_simps]:
  "select f E w = (Inr a, w') \<longleftrightarrow>
     fault E (pc w) = None \<and> a = f (clock E (pc w)) (db w) \<and> w' = w\<lparr>pc := Suc (pc w)\<rparr>"
  by (auto simp: select_def stmt_Inr)

lemma nop_stmt_Inr [run_simps]:
  "nop_stmt E w = (Inr u, w') \<longleftrightarrow> fault E (pc w) = None \<and> w' = w\<lparr>pc := Suc (pc w)\<rparr>"
  by (auto simp: nop_stmt_def stmt_Inr)

lemma nop_stmt_db: "nop_stmt E w = (r, w') \<Longrightarrow> db w' = db w"
  by (auto simp: nop_stmt_def stmt_def Let_def split: option.splits sum.splits prod.splits)

lemma ret_Inr [run_simps]: "ret a E w = (Inr b, w') \<longleftrightarrow> b = a \<and> w' = w"
  by auto

lemma fail_Inr [run_simps]: "fail e E w = (Inr b, w') \<longleftrightarrow> False"
  by simp

lemma reading_Inr [run_simps]: "reading f E w = (Inr a, w') \<longleftrightarrow> a = f E \<and> w' = w"
  by auto

lemma now_wall_Inr [run_simps]:
  "now_wall E w = (Inr t, w') \<longleftrightarrow> t = wall_time E (pc w) \<and> w' = w"
  by auto

subsection \<open>Transactions are atomic\<close>

text \<open>Either the transaction committed, and the database is the one its body left, or the
  database is the one it began with.\<close>

lemma in_tx_with_cases:
  assumes "in_tx_with be ce body E w = (r, w')"
  obtains (unchanged) "db w' = db w"
  | (committed) w1 w2 where "fault E (pc w) = None" and "w1 = w\<lparr>pc := Suc (pc w), txn := clock E (pc w)\<rparr>"
      and "body E w1 = (Inr (Commit r), w2)" and "fault E (pc w2) = None"
      and "w' = w2\<lparr>pc := Suc (pc w2)\<rparr>"
proof (cases "nop_stmt E w")
  case (Pair x w1)
  show thesis
  proof (cases x)
    case (Inl e)
    with assms Pair have "w' = w1" by (simp add: in_tx_with_def)
    with Pair show thesis by (intro unchanged) (simp add: nop_stmt_db)
  next
    case (Inr u)
    let ?w1 = "w\<lparr>pc := Suc (pc w), txn := clock E (pc w)\<rparr>"
    from Inr Pair have w1: "fault E (pc w) = None" "w1 = w\<lparr>pc := Suc (pc w)\<rparr>"
      by (simp_all add: nop_stmt_Inr)
    obtain y w2 where y: "body E ?w1 = (y, w2)" by (cases "body E ?w1")
    show thesis
    proof (cases "\<exists>q. y = Inr (Commit q)")
      case False
      with assms Pair Inr y w1(2) have "db w' = db w"
        by (auto simp: in_tx_with_def split: sum.splits tx_end.splits)
      then show thesis by (rule unchanged)
    next
      case True
      then obtain q where q: "y = Inr (Commit q)" by blast
      obtain z w3 where z: "nop_stmt E w2 = (z, w3)" by (cases "nop_stmt E w2")
      show thesis
      proof (cases z)
        case (Inl e)
        with assms Pair Inr y q z w1(2) have "db w' = db w"
          by (auto simp: in_tx_with_def)
        then show thesis by (rule unchanged)
      next
        case z': (Inr v)
        with assms Pair Inr y q z w1(2) have "r = q" "w' = w3"
          by (auto simp: in_tx_with_def)
        with z z' y q w1 show thesis
          by (intro committed [of ?w1 w2]) (auto simp: nop_stmt_Inr)
      qed
    qed
  qed
qed

text \<open>How a successful transaction ran.\<close>

lemma in_tx_with_Inr:
  assumes "in_tx_with be ce body E w = (Inr a, w')"
  obtains (rolled_back) w2 where "fault E (pc w) = None"
      and "body E (w\<lparr>pc := Suc (pc w), txn := clock E (pc w)\<rparr>) = (Inr (Rollback (Inr a)), w2)"
      and "w' = w2\<lparr>db := db w\<rparr>"
  | (committed) w2 where "fault E (pc w) = None"
      and "body E (w\<lparr>pc := Suc (pc w), txn := clock E (pc w)\<rparr>) = (Inr (Commit (Inr a)), w2)"
      and "fault E (pc w2) = None" and "w' = w2\<lparr>pc := Suc (pc w2)\<rparr>"
proof -
  let ?w1 = "w\<lparr>pc := Suc (pc w), txn := clock E (pc w)\<rparr>"
  obtain y w2 where y: "body E ?w1 = (y, w2)" by (cases "body E ?w1")
  from assms have f: "fault E (pc w) = None"
    by (cases "fault E (pc w)") (auto simp: in_tx_with_def nop_stmt_def stmt_def Let_def)
  then have run: "nop_stmt E w = (Inr (), w\<lparr>pc := Suc (pc w)\<rparr>)" by (simp add: nop_stmt_Inr)
  show thesis
  proof (cases y)
    case (Inl e)
    with assms run y show thesis by (simp add: in_tx_with_def)
  next
    case (Inr t)
    show thesis
    proof (cases t)
      case (Rollback r)
      with assms run y Inr f show thesis by (intro rolled_back [of w2]) (auto simp: in_tx_with_def)
    next
      case (Commit r)
      with assms run y Inr have fin: "(case nop_stmt E w2 of (Inl e, w3) \<Rightarrow> (Inl (ce e), w3\<lparr>db := db w\<rparr>)
          | (Inr _, w3) \<Rightarrow> (r, w3)) = (Inr a, w')"
        by (simp add: in_tx_with_def)
      obtain z w3 where z: "nop_stmt E w2 = (z, w3)" by (cases "nop_stmt E w2")
      with fin obtain u where "z = Inr u" by (cases z) auto
      with fin z Inr Commit y f show thesis
        by (intro committed [of w2]) (auto simp: nop_stmt_Inr)
    qed
  qed
qed

text \<open>A body that can only commit a success leaves no trace when the call fails.\<close>

lemma in_tx_with_Inl_unchanged:
  assumes "in_tx_with be ce body E w = (Inl e, w')"
    and "\<And>E w q w'. body E w = (Inr (Commit q), w') \<Longrightarrow> \<exists>a. q = Inr a"
  shows "db w' = db w"
  using assms(1)
proof (cases rule: in_tx_with_cases)
  case unchanged
  then show ?thesis .
next
  case (committed w1 w2)
  with assms(2) show ?thesis by blast
qed


lemmas in_tx_cases = in_tx_with_cases [where be = "\<lambda>e. e" and ce = "\<lambda>e. e", folded in_tx_def]

subsection \<open>Predicates kept by a run\<close>

definition keeps :: "('d \<Rightarrow> bool) \<Rightarrow> ('d, 'a) act \<Rightarrow> bool" where
  "keeps I m \<longleftrightarrow> (\<forall>E w. I (db w) \<longrightarrow> I (db (snd (m E w))))"

named_theorems keeps_rules \<open>introduction rules for predicates kept by a run\<close>

lemma keepsI: "(\<And>E w r w'. I (db w) \<Longrightarrow> m E w = (r, w') \<Longrightarrow> I (db w')) \<Longrightarrow> keeps I m"
  by (simp add: keeps_def) (metis prod.collapse)

lemma keepsD: "keeps I m \<Longrightarrow> m E w = (r, w') \<Longrightarrow> I (db w) \<Longrightarrow> I (db w')"
  unfolding keeps_def by (metis snd_conv)

lemma keeps_ret [keeps_rules]: "keeps I (ret a)"
  by (simp add: keeps_def)

lemma keeps_fail [keeps_rules]: "keeps I (fail e)"
  by (simp add: keeps_def)

lemma keeps_ensure [keeps_rules]: "keeps I (ensure b e)"
  by (simp add: keeps_def ensure_def)

lemma keeps_reading [keeps_rules]: "keeps I (reading f)"
  by (simp add: keeps_def)

lemma keeps_now_wall [keeps_rules]: "keeps I now_wall"
  by (simp add: keeps_def)

lemma keeps_draw_bytes [keeps_rules]: "keeps I (draw_bytes n)"
  by (simp add: keeps_def draw_bytes_def)

lemma keeps_andthen [keeps_rules]:
  assumes "keeps I m" and "\<And>a. keeps I (f a)"
  shows "keeps I (andthen m f)"
proof (rule keepsI)
  fix E w r w'
  assume I: "I (db w)" and run: "andthen m f E w = (r, w')"
  obtain x w1 where x: "m E w = (x, w1)" by (cases "m E w")
  with assms(1) I have I1: "I (db w1)" by (blast dest: keepsD)
  show "I (db w')"
  proof (cases x)
    case (Inl e)
    with run x I1 show ?thesis by (simp add: andthen_def)
  next
    case (Inr a)
    with run x have "f a E w1 = (r, w')" by (simp add: andthen_def)
    with assms(2) I1 show ?thesis by (blast dest: keepsD)
  qed
qed

lemma keeps_map_err [keeps_rules]: "keeps I m \<Longrightarrow> keeps I (map_err g m)"
  by (rule keepsI) (auto simp: map_err_def split: prod.splits sum.splits dest: keepsD)

lemma keeps_wrap_err [keeps_rules]: "keeps I m \<Longrightarrow> keeps I (wrap_err msg m)"
  by (simp add: wrap_err_def keeps_map_err)

lemma keeps_stmt:
  "(\<And>E w a d'. I (db w) \<Longrightarrow> q E w = Inr (a, d') \<Longrightarrow> I d') \<Longrightarrow> keeps I (stmt q)"
  by (rule keepsI)
    (auto simp: stmt_def Let_def split: option.splits sum.splits prod.splits if_splits)

lemma keeps_select [keeps_rules]: "keeps I (select f)"
  unfolding select_def by (rule keeps_stmt) simp

lemma keeps_nop_stmt [keeps_rules]: "keeps I nop_stmt"
  unfolding nop_stmt_def by (rule keeps_stmt) simp

lemma keeps_if [keeps_rules]: "keeps I a \<Longrightarrow> keeps I b \<Longrightarrow> keeps I (if c then a else b)"
  by simp

lemma keeps_option [keeps_rules]:
  "keeps I a \<Longrightarrow> (\<And>x. keeps I (b x)) \<Longrightarrow> keeps I (case opt of None \<Rightarrow> a | Some x \<Rightarrow> b x)"
  by (cases opt) auto

lemma keeps_prod [keeps_rules]:
  "(\<And>x y. keeps I (f x y)) \<Longrightarrow> keeps I (case p of (x, y) \<Rightarrow> f x y)"
  by (cases p) auto

lemma keeps_let [keeps_rules]: "(\<And>x. keeps I (f x)) \<Longrightarrow> keeps I (let x = a in f x)"
  by (simp add: Let_def)

lemma keeps_for_each [keeps_rules]: "(\<And>x. keeps I (f x)) \<Longrightarrow> keeps I (for_each xs f)"
  by (induction xs) (auto intro: keeps_rules)

text \<open>For a transaction it is enough that a body which reaches its commit keeps the
  predicate; what it does on the way to an error is rolled back.\<close>

lemma keeps_in_tx_with:
  assumes "\<And>E w r w'. I (db w) \<Longrightarrow> body E w = (Inr (Commit r), w') \<Longrightarrow> I (db w')"
  shows "keeps I (in_tx_with be ce body)"
proof (rule keepsI)
  fix E w r w'
  assume I: "I (db w)" and run: "in_tx_with be ce body E w = (r, w')"
  from run show "I (db w')"
  proof (cases rule: in_tx_with_cases)
    case unchanged
    with I show ?thesis by simp
  next
    case (committed w1 w2)
    with I assms [of w1 E r w2] show ?thesis by simp
  qed
qed

text \<open>A predicate that every successful iteration keeps holds after a loop.\<close>

lemma for_each_invariant:
  assumes "for_each xs f E w = (Inr u, w')" and "I (db w)"
    and "\<And>x w u w'. x \<in> set xs \<Longrightarrow> I (db w) \<Longrightarrow> f x E w = (Inr u, w') \<Longrightarrow> I (db w')"
  shows "I (db w')"
  using assms
proof (induction xs arbitrary: w)
  case Nil
  then show ?case by simp
next
  case (Cons x xs)
  from Cons.prems(1) obtain v w1 where s: "f x E w = (Inr v, w1)" "for_each xs f E w1 = (Inr u, w')"
    by (auto simp: andthen_Inr)
  from Cons.IH [OF s(2)] Cons.prems(2,3) s(1) show ?case by (meson list.set_intros)
qed

lemma keeps_in_tx:
  assumes "\<And>E w r w'. I (db w) \<Longrightarrow> body E w = (Inr (Commit r), w') \<Longrightarrow> I (db w')"
  shows "keeps I (in_tx body)"
  unfolding in_tx_def by (rule keeps_in_tx_with) (rule assms)

lemma keeps_in_tx_body:
  "keeps I body \<Longrightarrow> keeps I (in_tx_with be ce body)"
  by (rule keeps_in_tx_with) (blast dest: keepsD)

end
