(* ===== verification/Validate.thy ===== *)
theory Validate
  imports Runtime
begin

text \<open>
  Input validation: \<^verbatim>\<open>internal/validate/validate.go\<close>, \<^verbatim>\<open>normalizeUUID\<close> of
  \<^verbatim>\<open>internal/booking/hold_seats.go\<close> and \<^verbatim>\<open>idempotency.Valid\<close>.  Go strings are byte strings;
  \<open>TrimSpace\<close> and \<open>ToLower\<close> model what these checks use of \<^verbatim>\<open>strings\<close>.  pgtype's UUID parser
  is the parameter \<open>scan_uuid\<close>, and the bytes of a UUID are one number, so the all-zero
  UUID is 0.
\<close>

subsection \<open>Bytes\<close>

definition byte :: "char \<Rightarrow> nat" where
  "byte c = of_char c"

definition lower_char :: "char \<Rightarrow> char" where
  "lower_char c = (if 65 \<le> byte c \<and> byte c \<le> 90 then char_of (byte c + 32) else c)"

text \<open>\<^verbatim>\<open>strings.ToLower\<close> on ASCII; bytes from 128 up are left alone.\<close>

definition ToLower :: "string \<Rightarrow> string" where
  "ToLower s = map lower_char s"

text \<open>The white space of \<^verbatim>\<open>unicode.IsSpace\<close>, as the UTF-8 bytes of its runes.\<close>

definition space1 :: "nat \<Rightarrow> bool" where
  "space1 a \<longleftrightarrow> (9 \<le> a \<and> a \<le> 13) \<or> a = 32"

definition space2 :: "nat \<Rightarrow> nat \<Rightarrow> bool" where
  "space2 a b \<longleftrightarrow> a = 194 \<and> (b = 133 \<or> b = 160)"

definition space3 :: "nat \<Rightarrow> nat \<Rightarrow> nat \<Rightarrow> bool" where
  "space3 a b c \<longleftrightarrow>
     (a = 225 \<and> b = 154 \<and> c = 128) \<or>
     (a = 226 \<and> b = 128 \<and> ((128 \<le> c \<and> c \<le> 138) \<or> c = 168 \<or> c = 169 \<or> c = 175)) \<or>
     (a = 226 \<and> b = 129 \<and> c = 159) \<or>
     (a = 227 \<and> b = 128 \<and> c = 128)"

definition space_at :: "(nat \<Rightarrow> nat \<Rightarrow> bool) \<Rightarrow> (nat \<Rightarrow> nat \<Rightarrow> nat \<Rightarrow> bool) \<Rightarrow> string \<Rightarrow> nat" where
  "space_at two three s =
     (case s of [] \<Rightarrow> 0 | a # s1 \<Rightarrow>
        if space1 (byte a) then 1
        else case s1 of [] \<Rightarrow> 0 | b # s2 \<Rightarrow>
          if two (byte a) (byte b) then 2
          else case s2 of [] \<Rightarrow> 0 | c # _ \<Rightarrow>
            if three (byte a) (byte b) (byte c) then 3 else 0)"

definition lead_space :: "string \<Rightarrow> nat" where
  "lead_space = space_at space2 space3"

definition tail_space :: "string \<Rightarrow> nat" where
  "tail_space = space_at (\<lambda>b a. space2 a b) (\<lambda>c b a. space3 a b c)"

function strip :: "(string \<Rightarrow> nat) \<Rightarrow> string \<Rightarrow> string" where
  "strip len s = (if s = [] \<or> len s = 0 then s else strip len (drop (len s) s))"
  by pat_completeness auto
termination
  by (relation "measure (\<lambda>(len, s). length s)") auto

declare strip.simps [simp del]

definition TrimSpace :: "string \<Rightarrow> string" where
  "TrimSpace s = rev (strip tail_space (rev (strip lead_space s)))"

subsection \<open>UUIDs, airports, names, keys\<close>

definition dashed :: "string \<Rightarrow> bool" where
  "dashed v \<longleftrightarrow> length v = 36 \<and> v ! 8 = CHR ''-'' \<and> v ! 13 = CHR ''-'' \<and> v ! 18 = CHR ''-'' \<and> v ! 23 = CHR ''-''"

definition validate_UUID :: "env \<Rightarrow> string \<Rightarrow> bool" where
  "validate_UUID E value \<longleftrightarrow>
     dashed value \<and> (case scan_uuid E value of None \<Rightarrow> False | Some u \<Rightarrow> u \<noteq> 0)"

definition validate_Airport :: "string \<Rightarrow> bool" where
  "validate_Airport value \<longleftrightarrow>
     length value = 3 \<and> list_all (\<lambda>c. \<not> (byte c < 65 \<or> byte c > 90)) value"

definition validate_Name :: "string \<Rightarrow> bool" where
  "validate_Name value \<longleftrightarrow>
     TrimSpace value \<noteq> [] \<and> length value \<le> 100 \<and>
     \<not> list_ex (\<lambda>c. byte c = 0 \<or> byte c = 13 \<or> byte c = 10) value"

definition idempotency_Valid :: "string \<Rightarrow> bool" where
  "idempotency_Valid key \<longleftrightarrow>
     \<not> (length key < 16 \<or> length key > 128) \<and>
     list_all (\<lambda>c. \<not> (byte c < 33 \<or> byte c > 126)) key"

definition normalizeUUID :: "env \<Rightarrow> string \<Rightarrow> string option" where
  "normalizeUUID E value =
     (let normalized = ToLower (TrimSpace value) in
      if \<not> dashed normalized then None
      else case scan_uuid E normalized of
             None \<Rightarrow> None
           | Some u \<Rightarrow> if u \<noteq> 0 then Some normalized else None)"

text \<open>The value a query argument denotes: PostgreSQL reads the text with the same grammar.\<close>

definition uuid_of :: "env \<Rightarrow> string \<Rightarrow> uuid" where
  "uuid_of E value = (case scan_uuid E value of None \<Rightarrow> 0 | Some u \<Rightarrow> u)"

text \<open>The documented behaviour of PostgreSQL's and pgtype's UUID text that the code relies on
  when it compares ids as strings: different ids print differently, and an id written in the
  canonical lower-case form prints as it was written.\<close>

definition uuid_codec :: "env \<Rightarrow> bool" where
  "uuid_codec E \<longleftrightarrow>
     inj (uuid_text E) \<and>
     (\<forall>s u. dashed s \<and> ToLower s = s \<and> scan_uuid E s = Some u \<longrightarrow> uuid_text E u = s)"

definition canonical :: "env \<Rightarrow> string \<Rightarrow> bool" where
  "canonical E s \<longleftrightarrow> validate_UUID E s \<and> ToLower s = s"

subsection \<open>Trimming and lowering\<close>

lemma byte_less_256 [simp]: "byte c < 256"
proof -
  have "byte c = of_char c mod 256" by (simp add: byte_def)
  then show ?thesis by simp
qed

lemma byte_eq_iff: "byte a = byte b \<longleftrightarrow> a = b"
  by (simp add: byte_def)

lemma byte_lower_char: "byte (lower_char c) = (if 65 \<le> byte c \<and> byte c \<le> 90 then byte c + 32 else byte c)"
  by (simp add: lower_char_def) (simp add: byte_def)

lemma lower_char_idem [simp]: "lower_char (lower_char c) = lower_char c"
  by (cases "65 \<le> byte c \<and> byte c \<le> 90")
    (simp_all add: lower_char_def [of "lower_char c"] byte_lower_char, simp add: lower_char_def)

lemma ToLower_idem [simp]: "ToLower (ToLower s) = ToLower s"
  by (simp add: ToLower_def)

lemma length_ToLower [simp]: "length (ToLower s) = length s"
  by (simp add: ToLower_def)

lemma space1_lower [simp]: "space1 (byte (lower_char a)) = space1 (byte a)"
  by (auto simp: space1_def byte_lower_char)

lemma space2_lower [simp]:
  "space2 (byte (lower_char a)) (byte (lower_char b)) = space2 (byte a) (byte b)"
  by (auto simp: space2_def byte_lower_char split: if_splits)

lemma space3_lower [simp]:
  "space3 (byte (lower_char a)) (byte (lower_char b)) (byte (lower_char c))
   = space3 (byte a) (byte b) (byte c)"
  by (auto simp: space3_def byte_lower_char split: if_splits)

lemma lead_space_ToLower [simp]: "lead_space (ToLower s) = lead_space s"
  by (auto simp: lead_space_def space_at_def ToLower_def split: list.splits)

lemma tail_space_ToLower [simp]: "tail_space (map lower_char s) = tail_space s"
  by (auto simp: tail_space_def space_at_def split: list.splits)

lemma strip_map:
  assumes "\<And>s. len (map f s) = len s"
  shows "strip len (map f s) = map f (strip len s)"
  using assms
proof (induction len s rule: strip.induct)
  case (1 len s)
  then show ?case
    by (cases "s = [] \<or> len s = 0") (simp_all add: strip.simps [of len s] strip.simps [of len "map f s"] drop_map)
qed

lemma strip_done: "strip len s = [] \<or> len (strip len s) = 0"
proof (induction len s rule: strip.induct)
  case (1 len s)
  then show ?case
    by (cases "s = [] \<or> len s = 0") (auto simp: strip.simps [of len s])
qed

lemma strip_fix: "len s = 0 \<Longrightarrow> strip len s = s"
  by (simp add: strip.simps)

lemma strip_suffix: "\<exists>k. strip len s = drop k s"
proof (induction len s rule: strip.induct)
  case (1 len s)
  show ?case
  proof (cases "s = [] \<or> len s = 0")
    case True
    then have "strip len s = drop 0 s" by (simp add: strip.simps)
    then show ?thesis by blast
  next
    case False
    with "1.IH" obtain k where "strip len (drop (len s) s) = drop k (drop (len s) s)" by auto
    with False have "strip len s = drop (k + len s) s" by (simp add: strip.simps [of len s])
    then show ?thesis by blast
  qed
qed

text \<open>A shorter string starts with no white space the longer one did not start with.\<close>

lemma lead_space_take: "lead_space s = 0 \<Longrightarrow> lead_space (take k s) = 0"
  by (auto simp: lead_space_def space_at_def take_Cons' split: list.splits if_splits)

lemma space_at_Nil [simp]: "lead_space [] = 0" "tail_space [] = 0"
  by (simp_all add: lead_space_def tail_space_def space_at_def)

lemma TrimSpace_lead: "lead_space (TrimSpace s) = 0"
proof -
  let ?t = "strip lead_space s"
  have "lead_space ?t = 0" using strip_done [of lead_space s] by auto
  moreover obtain k where "strip tail_space (rev ?t) = drop k (rev ?t)"
    using strip_suffix by blast
  ultimately show ?thesis
    by (simp add: TrimSpace_def rev_drop lead_space_take)
qed

lemma TrimSpace_tail: "tail_space (rev (TrimSpace s)) = 0"
  using strip_done [of tail_space "rev (strip lead_space s)"] by (auto simp: TrimSpace_def)

lemma TrimSpace_fix: "lead_space s = 0 \<Longrightarrow> tail_space (rev s) = 0 \<Longrightarrow> TrimSpace s = s"
  by (simp add: TrimSpace_def strip_fix)

lemma TrimSpace_idem [simp]: "TrimSpace (TrimSpace s) = TrimSpace s"
  by (rule TrimSpace_fix) (rule TrimSpace_lead, rule TrimSpace_tail)

lemma TrimSpace_ToLower_TrimSpace [simp]:
  "TrimSpace (ToLower (TrimSpace s)) = ToLower (TrimSpace s)"
proof (rule TrimSpace_fix)
  show "lead_space (ToLower (TrimSpace s)) = 0" by (simp add: TrimSpace_lead)
  have "rev (ToLower (TrimSpace s)) = map lower_char (rev (TrimSpace s))"
    by (simp add: ToLower_def rev_map)
  then show "tail_space (rev (ToLower (TrimSpace s))) = 0" by (simp add: TrimSpace_tail)
qed

subsection \<open>Normalisation\<close>

lemma normalizeUUID_Some_iff:
  "normalizeUUID E v = Some n \<longleftrightarrow> n = ToLower (TrimSpace v) \<and> validate_UUID E n"
  by (auto simp: normalizeUUID_def validate_UUID_def Let_def split: option.splits)

lemma normalizeUUID_valid: "normalizeUUID E v = Some n \<Longrightarrow> validate_UUID E n"
  by (auto simp: normalizeUUID_Some_iff)

lemma normalizeUUID_length: "normalizeUUID E v = Some n \<Longrightarrow> length n = 36"
  by (auto simp: normalizeUUID_Some_iff validate_UUID_def dashed_def)

lemma normalizeUUID_fix: "normalizeUUID E v = Some n \<Longrightarrow> normalizeUUID E n = Some n"
  unfolding normalizeUUID_Some_iff by (elim conjE) simp

lemma validate_UUID_uuid_of: "validate_UUID E v \<Longrightarrow> scan_uuid E v = Some (uuid_of E v) \<and> uuid_of E v \<noteq> 0"
  by (auto simp: validate_UUID_def uuid_of_def split: option.splits)

lemma normalizeUUID_canonical: "normalizeUUID E v = Some n \<Longrightarrow> canonical E n"
  by (auto simp: normalizeUUID_Some_iff canonical_def)

lemma canonical_text: "uuid_codec E \<Longrightarrow> canonical E s \<Longrightarrow> uuid_text E (uuid_of E s) = s"
  by (auto simp: uuid_codec_def canonical_def validate_UUID_def uuid_of_def split: option.splits)

lemma codec_text_eq: "uuid_codec E \<Longrightarrow> uuid_text E a = uuid_text E b \<longleftrightarrow> a = b"
  by (auto simp: uuid_codec_def inj_eq)

lemma canonical_text_eq:
  "uuid_codec E \<Longrightarrow> canonical E s \<Longrightarrow> uuid_text E u = s \<longleftrightarrow> u = uuid_of E s"
  using canonical_text codec_text_eq by metis

lemma canonical_uuid_of_inj:
  "uuid_codec E \<Longrightarrow> canonical E s \<Longrightarrow> canonical E t \<Longrightarrow> uuid_of E s = uuid_of E t \<longleftrightarrow> s = t"
  using canonical_text by metis

lemma idempotency_Valid_length: "idempotency_Valid key \<Longrightarrow> 16 \<le> length key \<and> length key \<le> 128"
  by (simp add: idempotency_Valid_def)

end
