(* ===== verification/Schema.thy ===== *)
theory Schema
  imports Validate
begin

text \<open>
  The database of \<^verbatim>\<open>migrations/*.sql\<close>: one record per table with the columns the Go code
  reads or writes, one \<^verbatim>\<open>datatype\<close> per column whose values a CHECK enumerates, and the
  statements that write a constrained table together with the constraints they run into
  (CHECKs, unique and partial unique indexes, foreign keys, the transition trigger).  Not
  modelled: \<^verbatim>\<open>updated_at\<close>, \<^verbatim>\<open>nationality\<close>, \<^verbatim>\<open>travel_document_*\<close>, \<^verbatim>\<open>manage_token_hash\<close>,
  \<^verbatim>\<open>payload\<close> and the other columns no Go statement reads, and the 64-bit limit of the
  \<^verbatim>\<open>version\<close> counters.
\<close>

subsection \<open>Column values\<close>

datatype booking_status =
    B_DRAFT | B_HELD | B_PAYMENT_PENDING | B_CONFIRMED | B_TICKETED | B_EXPIRED | B_CANCELLED | B_REFUNDED
datatype segment_status = S_DRAFT | S_HELD | S_CONFIRMED | S_FLOWN | S_CANCELLED
datatype seat_state = AVAILABLE | SEAT_HELD | BOOKED | BLOCKED
datatype assignment_status = A_HELD | A_CONFIRMED | A_CHECKED_IN | A_CANCELLED | A_EXPIRED
datatype flight_status = SCHEDULED | BOARDING | DEPARTED | ARRIVED | DELAYED | FLIGHT_CANCELLED
datatype cabin = ECONOMY | PREMIUM_ECONOMY | BUSINESS | FIRST
datatype quote_status = Q_ACTIVE | Q_USED | Q_EXPIRED
datatype payment_status =
    P_PENDING | P_PROCESSING | P_SUCCEEDED | P_FAILED | P_RECONCILIATION_REQUIRED | P_REFUND_PENDING | P_REFUNDED
datatype attempt_status = PA_PENDING | PA_SUCCEEDED | PA_FAILED | PA_UNKNOWN
datatype refund_status = R_PENDING | R_PROCESSING | R_SUCCEEDED | R_FAILED | R_UNKNOWN

subsection \<open>Rows\<close>

record flight_instance =
  fi_id :: uuid
  fi_aircraft :: uuid
  fi_departure :: ts
  fi_status :: flight_status

record aircraft_row =
  ac_id :: uuid
  ac_type :: uuid

record aircraft_seat =
  ast_id :: uuid
  ast_type :: uuid
  ast_number :: string
  ast_cabin :: cabin

record fare_offer =
  fo_id :: uuid
  fo_flight :: uuid
  fo_cabin :: cabin
  fo_price :: int
  fo_taxes :: int
  fo_currency :: string
  fo_refundable :: bool
  fo_active :: bool
  fo_from :: ts
  fo_until :: "ts option"

record price_quote =
  pq_id :: uuid
  pq_user :: "uuid option"
  pq_hash :: string
  pq_status :: quote_status
  pq_total :: int
  pq_currency :: string
  pq_expires :: ts

record quote_item =
  qi_quote :: uuid
  qi_flight :: uuid
  qi_fare :: uuid
  qi_count :: nat
  qi_unit_price :: int
  qi_taxes :: int
  qi_total :: int
  qi_currency :: string
  qi_refundable :: bool

record booking_row =
  b_id :: uuid
  b_user :: "uuid option"
  b_quote :: uuid
  b_pnr :: string
  b_status :: booking_status
  b_total :: int
  b_currency :: string
  b_hold :: "ts option"
  b_version :: int
  b_created :: ts

record passenger_row =
  bp_id :: uuid
  bp_booking :: uuid
  bp_type :: string
  bp_first :: string
  bp_last :: string
  bp_dob :: "ts option"

record segment_row =
  bs_id :: uuid
  bs_booking :: uuid
  bs_flight :: uuid
  bs_fare :: uuid
  bs_status :: segment_status
  bs_price :: int
  bs_taxes :: int
  bs_currency :: string
  bs_refundable :: bool

record seat_row =
  fs_id :: uuid
  fs_flight :: uuid
  fs_aircraft_seat :: uuid
  fs_booking :: "uuid option"
  fs_state :: seat_state
  fs_hold :: "ts option"
  fs_version :: int

record assignment_row =
  sa_id :: uuid
  sa_booking :: uuid
  sa_segment :: uuid
  sa_flight :: uuid
  sa_passenger :: uuid
  sa_seat :: uuid
  sa_status :: assignment_status
  sa_hold :: "ts option"
  sa_created :: ts

record idempotency_row =
  ir_user :: uuid
  ir_route :: string
  ir_key :: string
  ir_hash :: string
  ir_resource :: uuid
  ir_response :: jval

record outbox_row =
  ob_id :: uuid
  ob_aggregate :: uuid
  ob_type :: string
  ob_attempts :: nat
  ob_next :: ts
  ob_locked :: "ts option"
  ob_token :: "uuid option"
  ob_delivered :: "ts option"
  ob_dead :: "ts option"

record receipt_row =
  rc_consumer :: string
  rc_event :: uuid

record payment_row =
  p_id :: uuid
  p_booking :: uuid
  p_amount :: int
  p_currency :: string
  p_status :: payment_status
  p_reference :: "string option"
  p_version :: int

record attempt_row =
  pa_id :: uuid
  pa_payment :: uuid
  pa_key :: uuid
  pa_status :: attempt_status
  pa_created :: ts

record webhook_row =
  wh_provider :: string
  wh_event :: string
  wh_payment :: uuid
  wh_type :: string

record refund_row =
  rf_id :: uuid
  rf_payment :: uuid
  rf_amount :: int
  rf_status :: refund_status

record database =
  users :: "uuid list"
  flights :: "flight_instance list"
  aircraft :: "aircraft_row list"
  aircraft_seats :: "aircraft_seat list"
  fares :: "fare_offer list"
  quotes :: "price_quote list"
  quote_items :: "quote_item list"
  bookings :: "booking_row list"
  passengers :: "passenger_row list"
  segments :: "segment_row list"
  seats :: "seat_row list"
  assignments :: "assignment_row list"
  idem_records :: "idempotency_row list"
  outbox :: "outbox_row list"
  receipts :: "receipt_row list"
  payments :: "payment_row list"
  attempts :: "attempt_row list"
  webhooks :: "webhook_row list"
  refunds :: "refund_row list"

type_synonym 'a dbact = "(database, 'a) act"

definition empty_db :: database where
  "empty_db =
     \<lparr>users = [], flights = [], aircraft = [], aircraft_seats = [], fares = [], quotes = [],
      quote_items = [], bookings = [], passengers = [], segments = [], seats = [], assignments = [],
      idem_records = [], outbox = [], receipts = [], payments = [], attempts = [], webhooks = [],
      refunds = []\<rparr>"

subsection \<open>Constraints\<close>

text \<open>A write checks its constraints in order and raises the SQLSTATE of the first one it
  violates.\<close>

fun violated :: "(string \<times> bool) list \<Rightarrow> gerr option" where
  "violated [] = None"
| "violated ((code, ok) # cs) = (if ok then violated cs else Some (PgError code))"

definition guarded :: "(string \<times> bool) list \<Rightarrow> 'x \<Rightarrow> gerr + 'x" where
  "guarded cs x = (case violated cs of Some e \<Rightarrow> Inl e | None \<Rightarrow> Inr x)"

definition unique_violation :: string where "unique_violation = ''23505''"
definition foreign_key_violation :: string where "foreign_key_violation = ''23503''"
definition check_violation :: string where "check_violation = ''23514''"
definition out_of_range :: string where "out_of_range = ''22003''"

definition currency_ok :: "string \<Rightarrow> bool" where
  "currency_ok c \<longleftrightarrow> length c = 3 \<and> list_all (\<lambda>x. 65 \<le> byte x \<and> byte x \<le> 90) c"

definition pnr_char :: "char \<Rightarrow> bool" where
  "pnr_char x \<longleftrightarrow> (65 \<le> byte x \<and> byte x \<le> 90) \<or> (48 \<le> byte x \<and> byte x \<le> 57)"

definition pnr_ok :: "string \<Rightarrow> bool" where
  "pnr_ok s \<longleftrightarrow> 6 \<le> length s \<and> length s \<le> 8 \<and> list_all pnr_char s"

text \<open>The trigger \<^verbatim>\<open>enforce_booking_transition\<close>.\<close>

definition transition_ok :: "booking_status \<Rightarrow> booking_status \<Rightarrow> bool" where
  "transition_ok old new \<longleftrightarrow>
     new = old \<or>
     (old = B_DRAFT \<and> new \<in> {B_HELD, B_CANCELLED, B_EXPIRED}) \<or>
     (old = B_HELD \<and> new \<in> {B_DRAFT, B_PAYMENT_PENDING, B_CANCELLED, B_EXPIRED}) \<or>
     (old = B_PAYMENT_PENDING \<and> new \<in> {B_CONFIRMED, B_CANCELLED, B_EXPIRED}) \<or>
     (old = B_CONFIRMED \<and> new \<in> {B_TICKETED, B_CANCELLED}) \<or>
     (old = B_TICKETED \<and> new = B_CANCELLED) \<or>
     (old = B_CANCELLED \<and> new = B_REFUNDED)"

text \<open>\<^verbatim>\<open>bookings_active_expiration_check\<close> and the column CHECKs of bookings.\<close>

definition booking_check :: "booking_row \<Rightarrow> bool" where
  "booking_check b \<longleftrightarrow>
     pnr_ok (b_pnr b) \<and> b_total b \<ge> 0 \<and> currency_ok (b_currency b) \<and> b_version b > 0 \<and>
     b_user b \<noteq> None \<and>
     (b_status b \<in> {B_HELD, B_PAYMENT_PENDING} \<longrightarrow> b_hold b \<noteq> None)"

text \<open>The CHECK that ties a seat's state to its booking and hold.\<close>

definition seat_check :: "seat_row \<Rightarrow> bool" where
  "seat_check s \<longleftrightarrow>
     (case fs_state s of
        AVAILABLE \<Rightarrow> fs_booking s = None \<and> fs_hold s = None
      | SEAT_HELD \<Rightarrow> fs_booking s \<noteq> None \<and> fs_hold s \<noteq> None
      | BOOKED \<Rightarrow> fs_booking s \<noteq> None \<and> fs_hold s = None
      | BLOCKED \<Rightarrow> fs_booking s = None \<and> fs_hold s = None)
     \<and> fs_version s > 0"

definition assignment_check :: "assignment_row \<Rightarrow> bool" where
  "assignment_check a \<longleftrightarrow>
     (case sa_status a of
        A_HELD \<Rightarrow> sa_hold a \<noteq> None
      | A_CONFIRMED \<Rightarrow> sa_hold a = None
      | A_CHECKED_IN \<Rightarrow> sa_hold a = None
      | _ \<Rightarrow> True)
     \<and> (case sa_hold a of None \<Rightarrow> True | Some h \<Rightarrow> h > sa_created a)"

text \<open>The status set of the two partial unique indexes.\<close>

definition active :: "assignment_row \<Rightarrow> bool" where
  "active a \<longleftrightarrow> sa_status a \<in> {A_HELD, A_CONFIRMED, A_CHECKED_IN}"

definition active_unique :: "assignment_row list \<Rightarrow> bool" where
  "active_unique t \<longleftrightarrow>
     distinct (map sa_seat (filter active t)) \<and>
     distinct (map (\<lambda>a. (sa_segment a, sa_passenger a)) (filter active t))"

subsection \<open>Writes to constrained tables\<close>

definition update_bookings ::
  "(booking_row \<Rightarrow> bool) \<Rightarrow> (booking_row \<Rightarrow> booking_row) \<Rightarrow> database \<Rightarrow> gerr + nat \<times> database" where
  "update_bookings p f d =
     (let hit = filter p (bookings d) in
      guarded [(check_violation, list_all (\<lambda>b. transition_ok (b_status b) (b_status (f b))) hit),
               (check_violation, list_all (\<lambda>b. booking_check (f b)) hit)]
        (length hit, d\<lparr>bookings := update_where p f (bookings d)\<rparr>))"

definition update_seats ::
  "(seat_row \<Rightarrow> bool) \<Rightarrow> (seat_row \<Rightarrow> seat_row) \<Rightarrow> database \<Rightarrow> gerr + nat \<times> database" where
  "update_seats p f d =
     (let hit = filter p (seats d) in
      guarded [(check_violation, list_all (\<lambda>s. seat_check (f s)) hit)]
        (length hit, d\<lparr>seats := update_where p f (seats d)\<rparr>))"

definition update_assignments ::
  "(assignment_row \<Rightarrow> bool) \<Rightarrow> (assignment_row \<Rightarrow> assignment_row) \<Rightarrow> database \<Rightarrow> gerr + nat \<times> database" where
  "update_assignments p f d =
     (let hit = filter p (assignments d); t = update_where p f (assignments d) in
      guarded [(check_violation, list_all (\<lambda>a. assignment_check (f a)) hit),
               (unique_violation, active_unique t)]
        (length hit, d\<lparr>assignments := t\<rparr>))"

definition update_segments ::
  "(segment_row \<Rightarrow> bool) \<Rightarrow> (segment_row \<Rightarrow> segment_row) \<Rightarrow> database \<Rightarrow> gerr + nat \<times> database" where
  "update_segments p f d =
     Inr (count_where p (segments d), d\<lparr>segments := update_where p f (segments d)\<rparr>)"

definition insert_assignment :: "assignment_row \<Rightarrow> database \<Rightarrow> gerr + unit \<times> database" where
  "insert_assignment a d =
     guarded
       [(check_violation, assignment_check a),
        (unique_violation, sa_id a \<notin> set (map sa_id (assignments d))),
        (unique_violation, active_unique (assignments d @ [a])),
        (foreign_key_violation,
           list_ex (\<lambda>s. bs_booking s = sa_booking a \<and> bs_id s = sa_segment a) (segments d)),
        (foreign_key_violation,
           list_ex (\<lambda>s. bs_flight s = sa_flight a \<and> bs_id s = sa_segment a) (segments d)),
        (foreign_key_violation,
           list_ex (\<lambda>p. bp_booking p = sa_booking a \<and> bp_id p = sa_passenger a) (passengers d)),
        (foreign_key_violation,
           list_ex (\<lambda>s. fs_flight s = sa_flight a \<and> fs_id s = sa_seat a) (seats d))]
       ((), d\<lparr>assignments := assignments d @ [a]\<rparr>)"

text \<open>\<^verbatim>\<open>INSERT INTO outbox_events(aggregate_id,event_type)\<close>, the other columns by default.\<close>

definition insert_outbox :: "uuid \<Rightarrow> uuid \<Rightarrow> string \<Rightarrow> ts \<Rightarrow> database \<Rightarrow> gerr + unit \<times> database" where
  "insert_outbox new aggregate event current d =
     guarded [(unique_violation, new \<notin> set (map ob_id (outbox d)))]
       ((), d\<lparr>outbox := outbox d @
          [\<lparr>ob_id = new, ob_aggregate = aggregate, ob_type = event, ob_attempts = 0, ob_next = current,
            ob_locked = None, ob_token = None, ob_delivered = None, ob_dead = None\<rparr>]\<rparr>)"

definition emit :: "uuid \<Rightarrow> string \<Rightarrow> unit dbact" where
  "emit aggregate event =
     stmt (\<lambda>E w. insert_outbox (gen_uuid E (pc w) 0) aggregate event (txn w) (db w))"

definition exec_update_bookings ::
  "(booking_row \<Rightarrow> bool) \<Rightarrow> (booking_row \<Rightarrow> booking_row) \<Rightarrow> nat dbact" where
  "exec_update_bookings p f = stmt (\<lambda>E w. update_bookings p f (db w))"

definition exec_update_seats ::
  "(seat_row \<Rightarrow> bool) \<Rightarrow> (seat_row \<Rightarrow> seat_row) \<Rightarrow> nat dbact" where
  "exec_update_seats p f = stmt (\<lambda>E w. update_seats p f (db w))"

definition exec_update_assignments ::
  "(assignment_row \<Rightarrow> bool) \<Rightarrow> (assignment_row \<Rightarrow> assignment_row) \<Rightarrow> nat dbact" where
  "exec_update_assignments p f = stmt (\<lambda>E w. update_assignments p f (db w))"

definition exec_update_segments ::
  "(segment_row \<Rightarrow> bool) \<Rightarrow> (segment_row \<Rightarrow> segment_row) \<Rightarrow> nat dbact" where
  "exec_update_segments p f = stmt (\<lambda>E w. update_segments p f (db w))"

subsection \<open>Inversion of successful writes\<close>

lemma violated_None_iff: "violated cs = None \<longleftrightarrow> list_all snd cs"
  by (induction cs rule: violated.induct) auto

lemma guarded_Inr [run_simps]: "guarded cs x = Inr y \<longleftrightarrow> y = x \<and> list_all snd cs"
  by (auto simp: guarded_def violated_None_iff [symmetric] split: option.splits)

lemma update_bookings_Inr [run_simps]:
  "update_bookings p f d = Inr (n, d') \<longleftrightarrow>
     n = count_where p (bookings d) \<and> d' = d\<lparr>bookings := update_where p f (bookings d)\<rparr> \<and>
     (\<forall>b \<in> set (bookings d). p b \<longrightarrow> transition_ok (b_status b) (b_status (f b)) \<and> booking_check (f b))"
  by (auto simp: update_bookings_def Let_def guarded_Inr count_where_def list_all_iff)

lemma update_seats_Inr [run_simps]:
  "update_seats p f d = Inr (n, d') \<longleftrightarrow>
     n = count_where p (seats d) \<and> d' = d\<lparr>seats := update_where p f (seats d)\<rparr> \<and>
     (\<forall>s \<in> set (seats d). p s \<longrightarrow> seat_check (f s))"
  by (auto simp: update_seats_def Let_def guarded_Inr count_where_def list_all_iff)

lemma update_assignments_Inr [run_simps]:
  "update_assignments p f d = Inr (n, d') \<longleftrightarrow>
     n = count_where p (assignments d) \<and> d' = d\<lparr>assignments := update_where p f (assignments d)\<rparr> \<and>
     (\<forall>a \<in> set (assignments d). p a \<longrightarrow> assignment_check (f a)) \<and>
     active_unique (update_where p f (assignments d))"
  by (auto simp: update_assignments_def Let_def guarded_Inr count_where_def list_all_iff)

lemma update_segments_Inr [run_simps]:
  "update_segments p f d = Inr (n, d') \<longleftrightarrow>
     n = count_where p (segments d) \<and> d' = d\<lparr>segments := update_where p f (segments d)\<rparr>"
  by (auto simp: update_segments_def)

lemma insert_assignment_Inr [run_simps]:
  "insert_assignment a d = Inr (u, d') \<longleftrightarrow>
     d' = d\<lparr>assignments := assignments d @ [a]\<rparr> \<and> assignment_check a \<and>
     sa_id a \<notin> sa_id ` set (assignments d) \<and> active_unique (assignments d @ [a]) \<and>
     (\<exists>s \<in> set (segments d). bs_booking s = sa_booking a \<and> bs_id s = sa_segment a) \<and>
     (\<exists>s \<in> set (segments d). bs_flight s = sa_flight a \<and> bs_id s = sa_segment a) \<and>
     (\<exists>p \<in> set (passengers d). bp_booking p = sa_booking a \<and> bp_id p = sa_passenger a) \<and>
     (\<exists>s \<in> set (seats d). fs_flight s = sa_flight a \<and> fs_id s = sa_seat a)"
  by (auto simp: insert_assignment_def guarded_Inr list_ex_iff)

lemma insert_outbox_Inr [run_simps]:
  "insert_outbox new agg ev now d = Inr (u, d') \<longleftrightarrow>
     new \<notin> ob_id ` set (outbox d) \<and>
     d' = d\<lparr>outbox := outbox d @
          [\<lparr>ob_id = new, ob_aggregate = agg, ob_type = ev, ob_attempts = 0, ob_next = now,
            ob_locked = None, ob_token = None, ob_delivered = None, ob_dead = None\<rparr>]\<rparr>"
  by (auto simp: insert_outbox_def guarded_Inr)

lemmas exec_defs [op_defs] =
  exec_update_bookings_def exec_update_seats_def exec_update_assignments_def exec_update_segments_def
  emit_def

text \<open>Which tables a write leaves alone.\<close>

lemma keeps_exec_update_bookings:
  "(\<And>d t. I d \<Longrightarrow> I (d\<lparr>bookings := t\<rparr>)) \<Longrightarrow> keeps I (exec_update_bookings p f)"
  unfolding exec_update_bookings_def by (rule keeps_stmt) (auto simp: run_simps)

lemma keeps_exec_update_segments:
  "(\<And>d t. I d \<Longrightarrow> I (d\<lparr>segments := t\<rparr>)) \<Longrightarrow> keeps I (exec_update_segments p f)"
  unfolding exec_update_segments_def by (rule keeps_stmt) (auto simp: run_simps)

lemma keeps_emit:
  "(\<And>d t. I d \<Longrightarrow> I (d\<lparr>outbox := t\<rparr>)) \<Longrightarrow> keeps I (emit agg ev)"
  unfolding emit_def by (rule keeps_stmt) (auto simp: run_simps)

end
