(* ===== verification/Idempotency.thy ===== *)
theory Idempotency
  imports Schema
begin

text \<open>
  \<^verbatim>\<open>internal/idempotency/idempotency.go\<close>: \<open>idem_begin\<close> is \<^verbatim>\<open>Begin\<close>, \<open>idem_save\<close> is
  \<^verbatim>\<open>Record.Save\<close>.  A mutation that calls \<^verbatim>\<open>Begin\<close>, works, calls \<^verbatim>\<open>Save\<close> and commits is
  replayed when it is retried; the locale \<open>idempotent_mutation\<close> states the contract between
  the stored records and such a mutation, and the components interpret it.
\<close>

record idem_record =
  rec_user :: string
  rec_route :: string
  rec_key :: string
  rec_hash :: string

datatype 'a begun = Fresh idem_record | Replay 'a

definition request_hash :: "env \<Rightarrow> jval \<Rightarrow> string" where
  "request_hash E payload = sha256 E (marshal E payload)"

definition idem_lookup :: "uuid \<Rightarrow> string \<Rightarrow> string \<Rightarrow> database \<Rightarrow> idempotency_row option" where
  "idem_lookup u route key d =
     find_row (\<lambda>r. ir_user r = u \<and> ir_route r = route \<and> ir_key r = key) (idem_records d)"

text \<open>\<open>decode\<close> is \<^verbatim>\<open>json.Unmarshal\<close> into the caller's destination.  The advisory lock
  serialises equal keys; the transaction is one step of the model, so it only costs a
  statement.\<close>

definition idem_begin ::
  "string \<Rightarrow> string \<Rightarrow> string \<Rightarrow> jval \<Rightarrow> (jval \<Rightarrow> 'a option) \<Rightarrow> 'a begun dbact" where
  "idem_begin user route key payload decode =
     andthen (ensure (idempotency_Valid key) IdemErrKey) (\<lambda>_.
     andthen (reading (\<lambda>E. request_hash E payload)) (\<lambda>hash.
     andthen nop_stmt (\<lambda>_.
     andthen (reading (\<lambda>E. uuid_of E user)) (\<lambda>u.
     andthen (select (\<lambda>t d. idem_lookup u route key d)) (\<lambda>row.
     case row of
       None \<Rightarrow> ret (Fresh \<lparr>rec_user = user, rec_route = route, rec_key = key, rec_hash = hash\<rparr>)
     | Some r \<Rightarrow>
         if ir_hash r \<noteq> hash then fail IdemErrConflict
         else case decode (ir_response r) of
                None \<Rightarrow> fail (OtherError ''json'')
              | Some a \<Rightarrow> ret (Replay a))))))"

definition insert_idem :: "env \<Rightarrow> idem_record \<Rightarrow> uuid \<Rightarrow> jval \<Rightarrow> database \<Rightarrow> gerr + unit \<times> database" where
  "insert_idem E rec resource response d =
     (let row = \<lparr>ir_user = uuid_of E (rec_user rec), ir_route = rec_route rec, ir_key = rec_key rec,
                 ir_hash = rec_hash rec, ir_resource = resource, ir_response = response\<rparr> in
      guarded
        [(check_violation, length (ir_route row) \<le> 200),
         (check_violation, 16 \<le> length (ir_key row) \<and> length (ir_key row) \<le> 128),
         (unique_violation, idem_lookup (ir_user row) (ir_route row) (ir_key row) d = None),
         (foreign_key_violation, ir_user row \<in> set (users d))]
        ((), d\<lparr>idem_records := idem_records d @ [row]\<rparr>))"

definition idem_save :: "idem_record \<Rightarrow> uuid \<Rightarrow> jval \<Rightarrow> unit dbact" where
  "idem_save rec resource response = stmt (\<lambda>E w. insert_idem E rec resource response (db w))"

text \<open>The primary key of \<^verbatim>\<open>idempotency_records\<close>.\<close>

definition idem_key_of :: "idempotency_row \<Rightarrow> uuid \<times> string \<times> string" where
  "idem_key_of r = (ir_user r, ir_route r, ir_key r)"

definition idem_ok :: "database \<Rightarrow> bool" where
  "idem_ok d \<longleftrightarrow> distinct (map idem_key_of (idem_records d))"

text \<open>\<open>d'\<close> holds every record of \<open>d\<close>, at the same place.\<close>

definition idem_extends :: "database \<Rightarrow> database \<Rightarrow> bool" where
  "idem_extends d d' \<longleftrightarrow> (\<exists>xs. idem_records d' = idem_records d @ xs)"

subsection \<open>Lookups\<close>

lemma find_row_append:
  "find_row p (xs @ ys) = (case find_row p xs of Some r \<Rightarrow> Some r | None \<Rightarrow> find_row p ys)"
  by (induction xs) auto

lemma idem_lookup_extends:
  "idem_extends d d' \<Longrightarrow> idem_lookup u route key d = Some r \<Longrightarrow> idem_lookup u route key d' = Some r"
  by (auto simp: idem_extends_def idem_lookup_def find_row_append)

lemma idem_extends_refl [simp]: "idem_extends d d"
  by (auto simp: idem_extends_def)

lemma idem_extends_trans: "idem_extends a b \<Longrightarrow> idem_extends b c \<Longrightarrow> idem_extends a c"
  by (auto simp: idem_extends_def)

lemma idem_begin_Replay [run_simps]:
  "idem_begin user route key payload decode E w = (Inr (Replay a), w') \<longleftrightarrow>
     idempotency_Valid key \<and> fault E (pc w) = None \<and> fault E (Suc (pc w)) = None \<and>
     w' = w\<lparr>pc := Suc (Suc (pc w))\<rparr> \<and>
     (\<exists>r. idem_lookup (uuid_of E user) route key (db w) = Some r \<and>
          ir_hash r = request_hash E payload \<and> decode (ir_response r) = Some a)"
  by (auto simp: idem_begin_def run_simps split: option.splits if_splits)

lemma idem_begin_Fresh [run_simps]:
  "idem_begin user route key payload decode E w = (Inr (Fresh rec), w') \<longleftrightarrow>
     idempotency_Valid key \<and> fault E (pc w) = None \<and> fault E (Suc (pc w)) = None \<and>
     w' = w\<lparr>pc := Suc (Suc (pc w))\<rparr> \<and>
     idem_lookup (uuid_of E user) route key (db w) = None \<and>
     rec = \<lparr>rec_user = user, rec_route = route, rec_key = key, rec_hash = request_hash E payload\<rparr>"
  by (auto simp: idem_begin_def run_simps split: option.splits if_splits)

lemma idem_save_Inr [run_simps]:
  "idem_save rec resource response E w = (Inr u, w') \<longleftrightarrow>
     fault E (pc w) = None \<and>
     length (rec_route rec) \<le> 200 \<and> 16 \<le> length (rec_key rec) \<and> length (rec_key rec) \<le> 128 \<and>
     idem_lookup (uuid_of E (rec_user rec)) (rec_route rec) (rec_key rec) (db w) = None \<and>
     uuid_of E (rec_user rec) \<in> set (users (db w)) \<and>
     w' = w\<lparr>pc := Suc (pc w), db := (db w)\<lparr>idem_records := idem_records (db w) @
        [\<lparr>ir_user = uuid_of E (rec_user rec), ir_route = rec_route rec, ir_key = rec_key rec,
          ir_hash = rec_hash rec, ir_resource = resource, ir_response = response\<rparr>]\<rparr>\<rparr>"
  by (auto simp: idem_save_def insert_idem_def Let_def run_simps)

lemma keeps_idem_begin [keeps_rules]: "keeps I (idem_begin user route key payload decode)"
  unfolding idem_begin_def by (intro keeps_rules)

lemma keeps_idem_save:
  "(\<And>d t. I d \<Longrightarrow> I (d\<lparr>idem_records := t\<rparr>)) \<Longrightarrow> keeps I (idem_save rec resource response)"
  unfolding idem_save_def by (rule keeps_stmt) (auto simp: insert_idem_def Let_def run_simps)

text \<open>The primary key holds after every successful save.\<close>

lemma idem_save_idem_ok:
  assumes "idem_ok (db w)" and "idem_save rec resource response E w = (Inr u, w')"
  shows "idem_ok (db w')"
  using assms
  by (auto simp: idem_ok_def run_simps idem_key_of_def idem_lookup_def find_row_None_iff)

lemma idem_save_stores:
  assumes "idem_save rec resource response E w = (Inr u, w')"
  shows "idem_lookup (uuid_of E (rec_user rec)) (rec_route rec) (rec_key rec) (db w') =
           Some \<lparr>ir_user = uuid_of E (rec_user rec), ir_route = rec_route rec, ir_key = rec_key rec,
                 ir_hash = rec_hash rec, ir_resource = resource, ir_response = response\<rparr>"
  using assms by (auto simp: run_simps idem_lookup_def find_row_append)

subsection \<open>The contract of an idempotent mutation\<close>

text \<open>\<open>op\<close> is the mutation for one request, \<open>decode\<close> how \<^verbatim>\<open>Begin\<close> reads a saved response
  back.  The provider shows that a success leaves its record and that a present record is
  replayed without a write; the client concludes that retries are safe.\<close>

locale idempotent_mutation =
  fixes op :: "'a dbact"
    and user :: string and route :: string and key :: string and payload :: jval
    and decode :: "jval \<Rightarrow> 'a option"
  assumes saves:
    "op E w = (Inr a, w') \<Longrightarrow>
       \<exists>r. idem_lookup (uuid_of E user) route key (db w') = Some r \<and>
           ir_hash r = request_hash E payload \<and> decode (ir_response r) = Some a"
    and replays:
    "idem_lookup (uuid_of E user) route key (db w) = Some r \<Longrightarrow>
       ir_hash r = request_hash E payload \<Longrightarrow> decode (ir_response r) = Some a \<Longrightarrow>
       (\<And>n. fault E n = None) \<Longrightarrow>
       op E w0 = (Inr b, w0') \<Longrightarrow>
       \<exists>w'. op E w = (Inr a, w') \<and> db w' = db w"
    and conflicts:
    "idem_lookup (uuid_of E user) route key (db w) = Some r \<Longrightarrow>
       ir_hash r \<noteq> request_hash E payload \<Longrightarrow> (\<And>n. fault E n = None) \<Longrightarrow>
       op E w0 = (Inr b, w0') \<Longrightarrow>
       \<exists>w'. op E w = (Inl IdemErrConflict, w') \<and> db w' = db w"
begin

text \<open>A retry, at any later time and whatever else was recorded meanwhile, returns the first
  answer and writes nothing.\<close>

lemma retry:
  assumes "op E w = (Inr a, w')" and "idem_extends (db w') (db v)" and "\<And>n. fault E n = None"
  shows "\<exists>v'. op E v = (Inr a, v') \<and> db v' = db v"
proof -
  from saves [OF assms(1)] obtain r where r:
    "idem_lookup (uuid_of E user) route key (db w') = Some r"
    "ir_hash r = request_hash E payload" "decode (ir_response r) = Some a" by blast
  from idem_lookup_extends [OF assms(2) r(1)]
  have "idem_lookup (uuid_of E user) route key (db v) = Some r" .
  from replays [OF this r(2,3) assms(3) assms(1)] show ?thesis .
qed

text \<open>The same key with another payload is refused, for good.\<close>

lemma reuse:
  assumes "idem_lookup (uuid_of E user) route key (db w) = Some r" and "idem_extends (db w) (db v)"
    and "ir_hash r \<noteq> request_hash E payload" and "\<And>n. fault E n = None" and "op E w0 = (Inr b, w0')"
  shows "\<exists>v'. op E v = (Inl IdemErrConflict, v') \<and> db v' = db v"
  using conflicts [OF idem_lookup_extends [OF assms(2,1)] assms(3,4,5)] .

end

subsection \<open>Mutations in one transaction\<close>

text \<open>The shape most handlers share: refuse bad ids, open a transaction, replay or run the work
  of a fresh request.\<close>

definition guarded_tx :: "(env \<Rightarrow> bool) \<Rightarrow> gerr \<Rightarrow> 'a tx_end dbact \<Rightarrow> 'a dbact" where
  "guarded_tx bad e body =
     andthen (reading bad) (\<lambda>invalid. if invalid then fail e else in_tx body)"

definition idem_tx ::
  "string \<Rightarrow> string \<Rightarrow> string \<Rightarrow> jval \<Rightarrow> (jval \<Rightarrow> 'a option) \<Rightarrow> (idem_record \<Rightarrow> 'a tx_end dbact) \<Rightarrow> 'a tx_end dbact" where
  "idem_tx user route key payload decode work =
     andthen (idem_begin user route key payload decode) (\<lambda>begun.
     case begun of Replay a \<Rightarrow> ret (Rollback (Inr a)) | Fresh rec \<Rightarrow> work rec)"

lemma guarded_tx_run:
  "guarded_tx bad e body E w = (if bad E then (Inl e, w) else in_tx body E w)"
  by (simp add: guarded_tx_def andthen_def)

lemma keeps_guarded_idem:
  assumes "\<And>rec E w r w'. I (db w) \<Longrightarrow> work rec E w = (Inr (Commit r), w') \<Longrightarrow> I (db w')"
  shows "keeps I (guarded_tx bad e (idem_tx user route key payload decode work))"
proof -
  have "keeps I (in_tx (idem_tx user route key payload decode work))"
  proof (rule keeps_in_tx)
    fix E w r w'
    assume I: "I (db w)" and run: "idem_tx user route key payload decode work E w = (Inr (Commit r), w')"
    then obtain b w1 where b: "idem_begin user route key payload decode E w = (Inr b, w1)"
      "(case b of Replay a \<Rightarrow> ret (Rollback (Inr a)) | Fresh rec \<Rightarrow> work rec) E w1 = (Inr (Commit r), w')"
      by (auto simp: idem_tx_def andthen_Inr)
    then obtain rec where "b = Fresh rec" by (cases b) auto
    with b I assms [of w1 rec E r w'] show "I (db w')" by (auto simp: idem_begin_Fresh)
  qed
  then show ?thesis unfolding guarded_tx_def by (intro keeps_rules)
qed

lemma guarded_idem_failed:
  assumes "guarded_tx bad e (idem_tx user route key payload decode work) E w = (Inl err, w')"
    and "\<And>rec E w q w'. work rec E w = (Inr (Commit q), w') \<Longrightarrow> \<exists>a. q = Inr a"
  shows "db w' = db w"
proof (cases "bad E")
  case True
  with assms(1) show ?thesis by (simp add: guarded_tx_run)
next
  case False
  with assms(1) have "in_tx (idem_tx user route key payload decode work) E w = (Inl err, w')"
    by (simp add: guarded_tx_run)
  then show ?thesis
    unfolding in_tx_def
  proof (rule in_tx_with_Inl_unchanged)
    fix E w q w'
    assume "idem_tx user route key payload decode work E w = (Inr (Commit q), w')"
    then obtain b v where "(case b of Replay a \<Rightarrow> ret (Rollback (Inr a)) | Fresh rec \<Rightarrow> work rec) E v = (Inr (Commit q), w')"
      by (auto simp: idem_tx_def andthen_Inr)
    then show "\<exists>a. q = Inr a" using assms(2) by (cases b) auto
  qed
qed

text \<open>What the work of such a mutation owes: a commit records its response, and only a replay
  rolls back with success.\<close>

locale idem_work =
  fixes bad :: "env \<Rightarrow> bool" and e :: gerr
    and user :: string and route :: string and key :: string and payload :: jval
    and decode :: "jval \<Rightarrow> 'a option" and work :: "idem_record \<Rightarrow> 'a tx_end dbact"
  assumes work_saves:
    "work rec E w = (Inr (Commit (Inr a)), w') \<Longrightarrow>
       \<exists>resource response. decode response = Some a \<and> idem_records (db w') = idem_records (db w) @
         [\<lparr>ir_user = uuid_of E (rec_user rec), ir_route = rec_route rec, ir_key = rec_key rec,
           ir_hash = rec_hash rec, ir_resource = resource, ir_response = response\<rparr>]"
    and no_rollback: "work rec E w \<noteq> (Inr (Rollback (Inr a)), w')"
begin

text \<open>How a success came about.\<close>

lemma success:
  assumes "guarded_tx bad e (idem_tx user route key payload decode work) E w = (Inr a, w')"
  obtains (replayed) r where "\<not> bad E" and "idempotency_Valid key" and "db w' = db w"
      and "idem_lookup (uuid_of E user) route key (db w) = Some r"
      and "ir_hash r = request_hash E payload" and "decode (ir_response r) = Some a"
  | (fresh) rec w1 w2 where "\<not> bad E" and "idempotency_Valid key"
      and "rec = \<lparr>rec_user = user, rec_route = route, rec_key = key, rec_hash = request_hash E payload\<rparr>"
      and "idem_lookup (uuid_of E user) route key (db w) = None"
      and "work rec E w1 = (Inr (Commit (Inr a)), w2)" and "db w1 = db w" and "txn w1 = clock E (pc w)"
      and "db w2 = db w'"
proof -
  from assms have ok: "\<not> bad E" and run: "in_tx (idem_tx user route key payload decode work) E w = (Inr a, w')"
    by (auto simp: guarded_tx_run split: if_splits)
  from run [unfolded in_tx_def] show thesis
  proof (cases rule: in_tx_with_Inr)
    case (rolled_back w2)
    then obtain b v where b: "idem_begin user route key payload decode E
        (w\<lparr>pc := Suc (pc w), txn := clock E (pc w)\<rparr>) = (Inr b, v)"
      "(case b of Replay a \<Rightarrow> ret (Rollback (Inr a)) | Fresh rec \<Rightarrow> work rec) E v = (Inr (Rollback (Inr a)), w2)"
      by (auto simp: idem_tx_def andthen_Inr)
    then have "b = Replay a" using no_rollback by (cases b) auto
    with b rolled_back(3) ok show thesis by (auto simp: idem_begin_Replay intro: replayed)
  next
    case (committed w2)
    then obtain b v where b: "idem_begin user route key payload decode E
        (w\<lparr>pc := Suc (pc w), txn := clock E (pc w)\<rparr>) = (Inr b, v)"
      "(case b of Replay a \<Rightarrow> ret (Rollback (Inr a)) | Fresh rec \<Rightarrow> work rec) E v = (Inr (Commit (Inr a)), w2)"
      by (auto simp: idem_tx_def andthen_Inr)
    then obtain rec where rec: "b = Fresh rec" by (cases b) auto
    with b committed(4) ok show thesis by (auto simp: idem_begin_Fresh intro!: fresh [of rec v w2])
  qed
qed

lemma lookup_runs:
  assumes "\<not> bad E" and "idempotency_Valid key" and quiet: "\<And>n. fault E n = None"
    and "idem_lookup (uuid_of E user) route key (db w) = Some r"
  shows "\<exists>w'. guarded_tx bad e (idem_tx user route key payload decode work) E w =
      (if ir_hash r \<noteq> request_hash E payload then Inl IdemErrConflict
       else case decode (ir_response r) of None \<Rightarrow> Inl (OtherError ''json'') | Some a \<Rightarrow> Inr a, w') \<and> db w' = db w"
proof -
  have "nop_stmt E w = (Inr (), w\<lparr>pc := Suc (pc w)\<rparr>)" using quiet by (simp add: nop_stmt_Inr)
  then show ?thesis
    using assms
    by (auto simp: guarded_tx_run in_tx_def in_tx_with_def idem_tx_def andthen_def idem_begin_def ensure_def
        nop_stmt_def stmt_def select_def Let_def split: option.splits)
qed

sublocale idempotent_mutation "guarded_tx bad e (idem_tx user route key payload decode work)" user route key payload decode
proof
  show "\<exists>r. idem_lookup (uuid_of E user) route key (db w') = Some r \<and>
           ir_hash r = request_hash E payload \<and> decode (ir_response r) = Some a"
    if run: "guarded_tx bad e (idem_tx user route key payload decode work) E w = (Inr a, w')" for E w a w'
    using run
  proof (cases rule: success)
    case (replayed r)
    then show ?thesis by simp
  next
    case (fresh rec w1 w2)
    from work_saves [OF fresh(5)] obtain resource response where
      "decode response = Some a" "idem_records (db w2) = idem_records (db w1) @
         [\<lparr>ir_user = uuid_of E (rec_user rec), ir_route = rec_route rec, ir_key = rec_key rec,
           ir_hash = rec_hash rec, ir_resource = resource, ir_response = response\<rparr>]" by blast
    with fresh(3,4,6,8) show ?thesis by (auto simp: idem_lookup_def find_row_append)
  qed
next
  have ready: "\<not> bad E \<and> idempotency_Valid key"
    if "guarded_tx bad e (idem_tx user route key payload decode work) E w0 = (Inr b, w0')" for E w0 b w0'
    using that by (cases rule: success) auto
  show "\<exists>w'. guarded_tx bad e (idem_tx user route key payload decode work) E w = (Inr a, w') \<and> db w' = db w"
    if "idem_lookup (uuid_of E user) route key (db w) = Some r" "ir_hash r = request_hash E payload"
      "decode (ir_response r) = Some a" "\<And>n. fault E n = None"
      "guarded_tx bad e (idem_tx user route key payload decode work) E w0 = (Inr b, w0')" for E w r a w0 b w0'
    using lookup_runs [of E w r] ready [OF that(5)] that(1-4) by auto
  show "\<exists>w'. guarded_tx bad e (idem_tx user route key payload decode work) E w = (Inl IdemErrConflict, w') \<and> db w' = db w"
    if "idem_lookup (uuid_of E user) route key (db w) = Some r" "ir_hash r \<noteq> request_hash E payload"
      "\<And>n. fault E n = None"
      "guarded_tx bad e (idem_tx user route key payload decode work) E w0 = (Inr b, w0')" for E w r w0 b w0'
    using lookup_runs [of E w r] ready [OF that(4)] that(1-3) by auto
qed

end

end
