(* ===== verification/Lab.thy ===== *)
theory Lab
  imports Schema
begin

text \<open>
  \<^verbatim>\<open>internal/lab/lab.go\<close>: the switchable faults named in \<^verbatim>\<open>LAB_FAULTS\<close>, and
  \<^verbatim>\<open>reconcileHeldInventory\<close> of \<^verbatim>\<open>internal/booking/inventory_reconcile.go\<close>, which one of them
  switches on.
\<close>

text \<open>\<^verbatim>\<open>strings.Split(raw, ",")\<close>: always at least one piece.\<close>

fun split_comma :: "string \<Rightarrow> string list" where
  "split_comma [] = [[]]"
| "split_comma (c # cs) =
     (if c = CHR '','' then [] # split_comma cs
      else case split_comma cs of [] \<Rightarrow> [[c]] | p # ps \<Rightarrow> (c # p) # ps)"

definition lab_parse :: "string \<Rightarrow> string list" where
  "lab_parse raw = filter (\<lambda>v. v \<noteq> []) (map (\<lambda>v. TrimSpace (ToLower v)) (split_comma raw))"

definition lab_Enabled :: "env \<Rightarrow> string \<Rightarrow> bool" where
  "lab_Enabled E name \<longleftrightarrow> name \<in> set (lab_parse (lab_faults E))"

text \<open>The injected query only sleeps and counts; its result is not used.\<close>

definition reconcileHeldInventory :: "string \<Rightarrow> unit dbact" where
  "reconcileHeldInventory flightInstanceID =
     andthen (reading (\<lambda>E. (lab_Enabled E ''booking-latency'', uuid_of E flightInstanceID))) (\<lambda>(on, f).
     if \<not> on then ret ()
     else andthen (wrap_err ''reconcile held inventory''
                    (select (\<lambda>t d. length [s. s \<leftarrow> seats d, fs_flight s = f, fs_state s = SEAT_HELD])))
            (\<lambda>held. ret ()))"

lemma split_comma_nonempty [simp]: "split_comma s \<noteq> []"
  by (induction s) (auto split: list.splits)

lemma keeps_reconcile [keeps_rules]: "keeps I (reconcileHeldInventory f)"
  unfolding reconcileHeldInventory_def by (intro keeps_rules)

lemma reconcile_Inr:
  "reconcileHeldInventory f E w = (Inr u, w') \<Longrightarrow> db w' = db w \<and> txn w' = txn w \<and> pc w \<le> pc w'"
  by (auto simp: reconcileHeldInventory_def run_simps split: if_splits)

lemma reconcile_runs:
  "(\<And>n. fault E n = None) \<Longrightarrow> \<exists>n. reconcileHeldInventory f E w = (Inr (), w\<lparr>pc := n\<rparr>)"
  by (cases "lab_Enabled E ''booking-latency''")
    (auto simp: reconcileHeldInventory_def andthen_def wrap_err_def map_err_def select_def stmt_def
      Let_def intro: exI [of _ "pc w"])

end
