(* ===== verification/HoldSeats.thy ===== *)
theory HoldSeats
  imports Idempotency Lab "HOL-Library.AList"
begin

text \<open>
  \<^verbatim>\<open>internal/booking/hold_seats.go\<close> and \<^verbatim>\<open>store.go\<close>: \<open>HoldSeats\<close> validates and sorts the
  selections, then, in one transaction, replays or starts the idempotent request, locks the
  booking, the flight, the passengers, the seats and their active assignments, writes the
  assignments and marks the seats.
\<close>

subsection \<open>Data\<close>

record booking_store =
  seatHoldDuration :: ts

definition NewStore :: booking_store where
  "NewStore = \<lparr>seatHoldDuration = 15 * minute\<rparr>"

record seat_selection =
  PassengerID :: string
  FlightSeatID :: string

record hold_params =
  UserID :: string
  IdempotencyKey :: string
  BookingID :: string
  BookingSegmentID :: string
  FlightInstanceID :: string
  Seats :: "seat_selection list"

record seat_hold =
  hold_booking :: string
  hold_seats :: "string list"
  hold_expires :: ts

text \<open>The rows \<^verbatim>\<open>lockFlightSeats\<close> and \<^verbatim>\<open>lockSeatAssignments\<close> read, with ids as the text
  the driver scans; an absent booking is the empty string.\<close>

record lockedSeat =
  ls_id :: string
  ls_state :: seat_state
  ls_booking :: string
  ls_hold :: "ts option"

record lockedAssignment =
  la_id :: uuid
  la_seat :: string
  la_booking :: string
  la_segment :: string
  la_passenger :: string
  la_status :: assignment_status
  la_hold :: "ts option"

subsection \<open>normalizeHoldParams\<close>

fun normalize_selections ::
  "env \<Rightarrow> string list \<Rightarrow> string list \<Rightarrow> seat_selection list \<Rightarrow> gerr + seat_selection list" where
  "normalize_selections E passengerIDs seatIDs [] = Inr []"
| "normalize_selections E passengerIDs seatIDs (selection # rest) =
     (case (normalizeUUID E (PassengerID selection), normalizeUUID E (FlightSeatID selection)) of
        (Some passengerID, Some flightSeatID) \<Rightarrow>
          if passengerID \<in> set passengerIDs then Inl ErrInvalidHoldRequest
          else if flightSeatID \<in> set seatIDs then Inl ErrInvalidHoldRequest
          else (case normalize_selections E (passengerID # passengerIDs) (flightSeatID # seatIDs) rest of
                  Inl e \<Rightarrow> Inl e
                | Inr xs \<Rightarrow> Inr (\<lparr>PassengerID = passengerID, FlightSeatID = flightSeatID\<rparr> # xs))
      | _ \<Rightarrow> Inl ErrInvalidHoldRequest)"

definition seat_order :: "seat_selection \<Rightarrow> seat_selection \<Rightarrow> bool" where
  "seat_order a b = str_less (FlightSeatID a) (FlightSeatID b)"

definition normalizeHoldParams :: "env \<Rightarrow> hold_params \<Rightarrow> gerr + hold_params" where
  "normalizeHoldParams E params =
     (if length (Seats params) < 1 \<or> length (Seats params) > 9 then Inl ErrInvalidHoldRequest
      else case normalizeUUID E (UserID params) of None \<Rightarrow> Inl ErrInvalidHoldRequest | Some user \<Rightarrow>
      case normalizeUUID E (BookingID params) of None \<Rightarrow> Inl ErrInvalidHoldRequest | Some booking \<Rightarrow>
      case normalizeUUID E (BookingSegmentID params) of None \<Rightarrow> Inl ErrInvalidHoldRequest | Some segment \<Rightarrow>
      case normalizeUUID E (FlightInstanceID params) of None \<Rightarrow> Inl ErrInvalidHoldRequest | Some flight \<Rightarrow>
      case normalize_selections E [] [] (Seats params) of Inl e \<Rightarrow> Inl e | Inr sels \<Rightarrow>
        Inr \<lparr>UserID = user, IdempotencyKey = IdempotencyKey params, BookingID = booking,
             BookingSegmentID = segment, FlightInstanceID = flight, Seats = sort_by seat_order sels\<rparr>)"

subsection \<open>The JSON of the request and of the response\<close>

definition selection_json :: "seat_selection \<Rightarrow> jval" where
  "selection_json s = JObj [(''PassengerID'', JStr (PassengerID s)), (''FlightSeatID'', JStr (FlightSeatID s))]"

definition hold_params_json :: "hold_params \<Rightarrow> jval" where
  "hold_params_json p =
     JObj [(''UserID'', JStr (UserID p)), (''IdempotencyKey'', JStr (IdempotencyKey p)),
           (''BookingID'', JStr (BookingID p)), (''BookingSegmentID'', JStr (BookingSegmentID p)),
           (''FlightInstanceID'', JStr (FlightInstanceID p)), (''Seats'', JArr (map selection_json (Seats p)))]"

definition seat_hold_json :: "seat_hold \<Rightarrow> jval" where
  "seat_hold_json h =
     JObj [(''BookingID'', JStr (hold_booking h)), (''SeatIDs'', JArr (map JStr (hold_seats h))),
           (''ExpiresAt'', JTime (hold_expires h))]"

fun json_strings :: "jval list \<Rightarrow> string list option" where
  "json_strings [] = Some []"
| "json_strings (JStr s # xs) = map_option (Cons s) (json_strings xs)"
| "json_strings _ = None"

fun decode_seat_hold :: "jval \<Rightarrow> seat_hold option" where
  "decode_seat_hold (JObj [(_, JStr b), (_, JArr xs), (_, JTime t)]) =
     map_option (\<lambda>ss. \<lparr>hold_booking = b, hold_seats = ss, hold_expires = t\<rparr>) (json_strings xs)"
| "decode_seat_hold _ = None"

subsection \<open>Locking\<close>

definition seat_uuids :: "env \<Rightarrow> seat_selection list \<Rightarrow> uuid list" where
  "seat_uuids E selections = map (\<lambda>s. uuid_of E (FlightSeatID s)) selections"

definition lockPassengers :: "string \<Rightarrow> seat_selection list \<Rightarrow> unit dbact" where
  "lockPassengers bookingID selections =
     (let passengerIDs = sort_by str_less (map PassengerID selections) in
      andthen (reading (\<lambda>E. (uuid_of E bookingID, map (uuid_of E) passengerIDs))) (\<lambda>(b, ids).
      andthen (wrap_err ''lock booking passengers''
                (select (\<lambda>t d. count_where (\<lambda>p. bp_booking p = b \<and> bp_id p \<in> set ids) (passengers d)))) (\<lambda>found.
      ensure (found = length passengerIDs) ErrPassengerNotFound)))"

definition text_or_empty :: "env \<Rightarrow> uuid option \<Rightarrow> string" where
  "text_or_empty E b = (case b of None \<Rightarrow> '''' | Some u \<Rightarrow> uuid_text E u)"

definition locked_seat_of :: "env \<Rightarrow> seat_row \<Rightarrow> lockedSeat" where
  "locked_seat_of E s = \<lparr>ls_id = uuid_text E (fs_id s), ls_state = fs_state s,
     ls_booking = text_or_empty E (fs_booking s), ls_hold = fs_hold s\<rparr>"

definition locked_assignment_of :: "env \<Rightarrow> assignment_row \<Rightarrow> lockedAssignment" where
  "locked_assignment_of E a = \<lparr>la_id = sa_id a, la_seat = uuid_text E (sa_seat a),
     la_booking = uuid_text E (sa_booking a), la_segment = uuid_text E (sa_segment a),
     la_passenger = uuid_text E (sa_passenger a), la_status = sa_status a, la_hold = sa_hold a\<rparr>"

definition lockFlightSeats ::
  "string \<Rightarrow> seat_selection list \<Rightarrow> (string \<times> lockedSeat) list dbact" where
  "lockFlightSeats flightInstanceID selections =
     andthen (reading (\<lambda>E. (E, uuid_of E flightInstanceID, seat_uuids E selections))) (\<lambda>(E, f, ids).
     andthen (wrap_err ''lock flight seats''
       (select (\<lambda>t d. sort_key fs_id (filter (\<lambda>s. fs_flight s = f \<and> fs_id s \<in> set ids) (seats d))))) (\<lambda>rows.
     let found = fold (\<lambda>s m. AList.update (uuid_text E (fs_id s)) (locked_seat_of E s) m) rows [] in
     if length found \<noteq> length selections then fail ErrSeatUnavailable else ret found))"

fun collect_assignments ::
  "env \<Rightarrow> (string \<times> lockedAssignment) list \<Rightarrow> assignment_row list \<Rightarrow> gerr + (string \<times> lockedAssignment) list" where
  "collect_assignments E m [] = Inr m"
| "collect_assignments E m (a # rows) =
     (let k = uuid_text E (sa_seat a) in
      if map_of m k \<noteq> None then Inl ErrInventoryConflict
      else collect_assignments E ((k, locked_assignment_of E a) # m) rows)"

definition lockSeatAssignments :: "seat_selection list \<Rightarrow> (string \<times> lockedAssignment) list dbact" where
  "lockSeatAssignments selections =
     andthen (reading (\<lambda>E. (E, seat_uuids E selections))) (\<lambda>(E, ids).
     andthen (wrap_err ''lock seat assignments''
       (select (\<lambda>t d. sort_key sa_seat (filter (\<lambda>a. sa_seat a \<in> set ids \<and> active a) (assignments d))))) (\<lambda>rows.
     case collect_assignments E [] rows of Inl e \<Rightarrow> fail e | Inr m \<Rightarrow> ret m))"

subsection \<open>Writing\<close>

definition mapSeatWriteError :: "gerr \<Rightarrow> gerr" where
  "mapSeatWriteError err =
     (if errors_as_pg err = Some unique_violation then ErrSeatUnavailable
      else Wrap ''write seat assignment'' err)"

definition insert_hold :: "hold_params \<Rightarrow> seat_selection \<Rightarrow> ts \<Rightarrow> unit dbact" where
  "insert_hold params selection holdExpiresAt =
     map_err mapSeatWriteError
       (stmt (\<lambda>E w. insert_assignment
          \<lparr>sa_id = gen_uuid E (pc w) 0, sa_booking = uuid_of E (BookingID params),
           sa_segment = uuid_of E (BookingSegmentID params), sa_flight = uuid_of E (FlightInstanceID params),
           sa_passenger = uuid_of E (PassengerID selection), sa_seat = uuid_of E (FlightSeatID selection),
           sa_status = A_HELD, sa_hold = Some holdExpiresAt, sa_created = txn w\<rparr> (db w)))"

definition expire_assignment :: "lockedAssignment \<Rightarrow> unit dbact" where
  "expire_assignment assignment =
     andthen (wrap_err ''expire old seat assignment''
       (exec_update_assignments (\<lambda>a. sa_id a = la_id assignment \<and> sa_status a = A_HELD)
          (\<lambda>a. a\<lparr>sa_status := A_EXPIRED\<rparr>))) (\<lambda>n.
     ensure (n = 1) ErrInventoryConflict)"

definition seat_unavailable :: "string \<Rightarrow> gerr" where
  "seat_unavailable seat = Wrap (''seat '' @ seat) ErrSeatUnavailable"

text \<open>One iteration of the loop of \<^verbatim>\<open>applySeatAssignments\<close>: \<^verbatim>\<open>continue\<close> is \<open>ret ()\<close>.\<close>

definition apply_selection ::
  "hold_params \<Rightarrow> (string \<times> lockedSeat) list \<Rightarrow> (string \<times> lockedAssignment) list \<Rightarrow> ts \<Rightarrow> ts
   \<Rightarrow> seat_selection \<Rightarrow> unit dbact" where
  "apply_selection params lseats lassignments databaseTime holdExpiresAt selection =
     (case map_of lseats (FlightSeatID selection) of
        None \<Rightarrow> fail ErrInventoryConflict
      | Some seat \<Rightarrow>
     (let assignment = map_of lassignments (FlightSeatID selection);
          write = insert_hold params selection holdExpiresAt in
      case ls_state seat of
        AVAILABLE \<Rightarrow> if assignment \<noteq> None then fail ErrInventoryConflict else write
      | SEAT_HELD \<Rightarrow>
          (case (ls_hold seat, assignment) of
             (Some seatHold, Some asg) \<Rightarrow>
               if la_status asg \<noteq> A_HELD then fail ErrInventoryConflict
               else (case la_hold asg of None \<Rightarrow> fail ErrInventoryConflict | Some asgHold \<Rightarrow>
                 if ls_booking seat \<noteq> la_booking asg \<or> seatHold \<noteq> asgHold then fail ErrInventoryConflict
                 else
                   (let seatExpired = \<not> seatHold > databaseTime; assignmentExpired = \<not> asgHold > databaseTime in
                    if seatExpired \<noteq> assignmentExpired then fail ErrInventoryConflict
                    else if seatExpired then andthen (expire_assignment asg) (\<lambda>_. write)
                    else if ls_booking seat \<noteq> BookingID params \<or> la_booking asg \<noteq> BookingID params \<or>
                            la_segment asg \<noteq> BookingSegmentID params \<or> la_passenger asg \<noteq> PassengerID selection
                         then fail (seat_unavailable (FlightSeatID selection))
                    else if seatHold \<noteq> holdExpiresAt \<or> asgHold \<noteq> holdExpiresAt then fail ErrInventoryConflict
                    else ret ()))
           | _ \<Rightarrow> fail ErrInventoryConflict)
      | BOOKED \<Rightarrow>
          (case assignment of
             Some asg \<Rightarrow> if la_status asg = A_CONFIRMED \<or> la_status asg = A_CHECKED_IN
                         then fail (seat_unavailable (FlightSeatID selection))
                         else fail ErrInventoryConflict
           | None \<Rightarrow> fail ErrInventoryConflict)
      | BLOCKED \<Rightarrow>
          if assignment \<noteq> None then fail ErrInventoryConflict
          else fail (seat_unavailable (FlightSeatID selection))))"

definition applySeatAssignments ::
  "hold_params \<Rightarrow> (string \<times> lockedSeat) list \<Rightarrow> (string \<times> lockedAssignment) list \<Rightarrow> ts \<Rightarrow> ts
   \<Rightarrow> unit dbact" where
  "applySeatAssignments params lseats lassignments databaseTime holdExpiresAt =
     for_each (Seats params) (apply_selection params lseats lassignments databaseTime holdExpiresAt)"

definition markFlightSeatsHeld :: "hold_params \<Rightarrow> ts \<Rightarrow> unit dbact" where
  "markFlightSeatsHeld params holdExpiresAt =
     andthen (reading (\<lambda>E. (uuid_of E (BookingID params), uuid_of E (FlightInstanceID params),
                             seat_uuids E (Seats params)))) (\<lambda>(b, f, ids).
     andthen (wrap_err ''mark flight seats held''
       (exec_update_seats (\<lambda>s. fs_flight s = f \<and> fs_id s \<in> set ids)
          (\<lambda>s. s\<lparr>fs_booking := Some b, fs_state := SEAT_HELD, fs_hold := Some holdExpiresAt,
                 fs_version := fs_version s + 1\<rparr>))) (\<lambda>n.
     ensure (n = length (Seats params)) ErrInventoryConflict))"

subsection \<open>HoldSeats\<close>

text \<open>The query that locks the booking and the segment, for the user of the request.\<close>

definition booking_and_segment ::
  "uuid \<Rightarrow> uuid \<Rightarrow> uuid \<Rightarrow> uuid \<Rightarrow> database \<Rightarrow> (booking_status \<times> ts option \<times> segment_status) option" where
  "booking_and_segment b s f u d =
     first_row [(b_status bk, b_hold bk, bs_status sg).
                  bk \<leftarrow> bookings d, sg \<leftarrow> segments d,
                  bs_booking sg = b_id bk \<and> b_id bk = b \<and> bs_id sg = s \<and> bs_flight sg = f \<and> b_user bk = Some u]"

text \<open>The rows behind the count of the seats of the request whose cabin is the fare's and
  whose layout is the aircraft's.\<close>

definition eligible_rows :: "uuid \<Rightarrow> uuid list \<Rightarrow> database \<Rightarrow> seat_row list" where
  "eligible_rows segment ids d =
     [fs. fs \<leftarrow> seats d, ast \<leftarrow> aircraft_seats d, fi \<leftarrow> flights d, ac \<leftarrow> aircraft d, bs \<leftarrow> segments d, fo \<leftarrow> fares d,
          ast_id ast = fs_aircraft_seat fs \<and> fi_id fi = fs_flight fs \<and> ac_id ac = fi_aircraft fi \<and>
          bs_flight bs = fi_id fi \<and> fo_id fo = bs_fare bs \<and> bs_id bs = segment \<and> fs_id fs \<in> set ids \<and>
          ast_cabin ast = fo_cabin fo \<and> ast_type ast = ac_type ac]"

definition hold_eligibility :: "hold_params \<Rightarrow> (booking_status \<times> ts option \<times> ts) dbact" where
  "hold_eligibility p =
     andthen (reading (\<lambda>E. (uuid_of E (BookingID p), uuid_of E (BookingSegmentID p),
                uuid_of E (FlightInstanceID p), uuid_of E (UserID p), seat_uuids E (Seats p)))) (\<lambda>(b, s, f, u, ids).
     andthen (wrap_err ''lock booking and segment'' (select (\<lambda>t d. booking_and_segment b s f u d))) (\<lambda>row.
     case row of None \<Rightarrow> fail ErrBookingNotFound | Some (bookingStatus, bookingHold, segmentStatus) \<Rightarrow>
     andthen (ensure (segmentStatus = S_DRAFT \<or> segmentStatus = S_HELD) ErrBookingNotHoldable) (\<lambda>_.
     andthen (select (\<lambda>t d. find_row (\<lambda>fi. fi_id fi = f) (flights d))) (\<lambda>flight.
     case flight of None \<Rightarrow> fail ErrNoRows | Some fi \<Rightarrow>
     andthen (ensure (fi_status fi = SCHEDULED \<or> fi_status fi = DELAYED) ErrBookingNotHoldable) (\<lambda>_.
     andthen (select (\<lambda>t d. length (eligible_rows s ids d))) (\<lambda>eligibleSeats.
     andthen (ensure (eligibleSeats = length (Seats p)) ErrSeatUnavailable) (\<lambda>_.
     ret (bookingStatus, bookingHold, fi_departure fi))))))))"

definition hold_deadline :: "booking_store \<Rightarrow> booking_status \<Rightarrow> ts option \<Rightarrow> ts dbact" where
  "hold_deadline store bookingStatus bookingHold =
     (let holdSeconds = seatHoldDuration store div second in
      andthen (wrap_err ''calculate seat hold expiration'' (select (\<lambda>t d. (t, t + holdSeconds * second)))) (\<lambda>(databaseTime, newHoldExpiresAt).
      case bookingStatus of
        B_DRAFT \<Rightarrow> ret newHoldExpiresAt
      | B_HELD \<Rightarrow> (case bookingHold of
                    Some h \<Rightarrow> if \<not> h > databaseTime then fail ErrBookingNotHoldable else ret h
                  | None \<Rightarrow> fail ErrBookingNotHoldable)
      | _ \<Rightarrow> fail ErrBookingNotHoldable))"

text \<open>The locks, then the clock read again after the waits: a DRAFT booking starts its hold
  now, a HELD one keeps its own, and no hold outlives the departure.\<close>

definition hold_locks ::
  "booking_store \<Rightarrow> hold_params \<Rightarrow> booking_status \<Rightarrow> ts option \<Rightarrow> ts \<Rightarrow> ts
   \<Rightarrow> ((string \<times> lockedSeat) list \<times> (string \<times> lockedAssignment) list \<times> ts \<times> ts) dbact" where
  "hold_locks store p bookingStatus bookingHold departure newHold =
     andthen (lockPassengers (BookingID p) (Seats p)) (\<lambda>_.
     andthen (lockFlightSeats (FlightInstanceID p) (Seats p)) (\<lambda>lockedSeats.
     andthen (lockSeatAssignments (Seats p)) (\<lambda>lockedAssignments.
     andthen (wrap_err ''read hold clock'' (select (\<lambda>t d. t))) (\<lambda>databaseTime.
     andthen (ensure (\<not> (bookingStatus = B_HELD \<and>
                (case bookingHold of None \<Rightarrow> True | Some h \<Rightarrow> \<not> h > databaseTime))) ErrBookingNotHoldable) (\<lambda>_.
     let newHold = (if bookingStatus = B_DRAFT then databaseTime + seatHoldDuration store else newHold) in
     andthen (ensure (departure > databaseTime) ErrBookingNotHoldable) (\<lambda>_.
     let newHold = (if newHold > departure then departure else newHold) in
     ret (lockedSeats, lockedAssignments, databaseTime, newHold)))))))"

definition hold_finish :: "hold_params \<Rightarrow> idem_record option \<Rightarrow> ts \<Rightarrow> seat_hold tx_end dbact" where
  "hold_finish p record newHold =
     andthen (reading (\<lambda>E. (uuid_of E (BookingID p), uuid_of E (BookingSegmentID p)))) (\<lambda>(b, s).
     andthen (wrap_err ''update booking segment''
       (exec_update_segments (\<lambda>r. bs_id r = s \<and> bs_booking r = b) (\<lambda>r. r\<lparr>bs_status := S_HELD\<rparr>))) (\<lambda>n.
     andthen (ensure (n = 1) ErrInventoryConflict) (\<lambda>_.
     andthen (wrap_err ''update booking hold''
       (exec_update_bookings (\<lambda>r. b_id r = b)
          (\<lambda>r. r\<lparr>b_status := B_HELD, b_hold := Some newHold, b_version := b_version r + 1\<rparr>))) (\<lambda>n.
     andthen (ensure (n = 1) ErrInventoryConflict) (\<lambda>_.
     let result = \<lparr>hold_booking = BookingID p, hold_seats = map FlightSeatID (Seats p), hold_expires = newHold\<rparr> in
     andthen (case record of None \<Rightarrow> ret () | Some r \<Rightarrow> idem_save r b (seat_hold_json result)) (\<lambda>_.
     andthen (emit b ''SEATS_HELD'') (\<lambda>_.
     ret (Commit (Inr result)))))))))"

definition hold_work ::
  "booking_store \<Rightarrow> hold_params \<Rightarrow> idem_record option \<Rightarrow> seat_hold tx_end dbact" where
  "hold_work store p record =
     andthen (hold_eligibility p) (\<lambda>(bookingStatus, bookingHold, departure).
     andthen (hold_deadline store bookingStatus bookingHold) (\<lambda>newHold.
     andthen (hold_locks store p bookingStatus bookingHold departure newHold) (\<lambda>(lseats, lassignments, databaseTime, newHold).
     andthen (applySeatAssignments p lseats lassignments databaseTime newHold) (\<lambda>_.
     andthen (markFlightSeatsHeld p newHold) (\<lambda>_.
     hold_finish p record newHold)))))"

definition hold_route :: "hold_params \<Rightarrow> string" where
  "hold_route p = ''POST /v1/bookings/'' @ BookingID p @ ''/seat-holds''"

definition hold_body :: "booking_store \<Rightarrow> hold_params \<Rightarrow> seat_hold tx_end dbact" where
  "hold_body store p =
     andthen (reconcileHeldInventory (FlightInstanceID p)) (\<lambda>_.
     if IdempotencyKey p \<noteq> [] then
       andthen (idem_begin (UserID p) (hold_route p) (IdempotencyKey p) (hold_params_json p) decode_seat_hold) (\<lambda>begun.
       case begun of Replay previous \<Rightarrow> ret (Rollback (Inr previous))
       | Fresh record \<Rightarrow> hold_work store p (Some record))
     else hold_work store p None)"

definition HoldSeats :: "booking_store \<Rightarrow> hold_params \<Rightarrow> seat_hold dbact" where
  "HoldSeats store params =
     andthen (reading (\<lambda>E. normalizeHoldParams E params)) (\<lambda>normalized.
     case normalized of Inl e \<Rightarrow> fail e | Inr p \<Rightarrow>
       in_tx_with (Wrap ''begin seat hold transaction'') (Wrap ''commit seat hold transaction'') (hold_body store p))"

end
