(* ===== verification/Inventory.thy ===== *)
theory Inventory
  imports Idempotency
begin

text \<open>
  The invariant that ties \<^verbatim>\<open>flight_seats\<close> to \<^verbatim>\<open>seat_assignments\<close>: a HELD or BOOKED seat has
  exactly one active assignment, of the same booking and (while HELD) the same expiry; an
  AVAILABLE or BLOCKED seat has none.  No constraint of the schema states it; every writer
  has to keep it.  The locale \<open>paired_update\<close> is the contract of the writers that update
  both tables for a whole booking (release, expiry, confirmation, refund).
\<close>

definition active_at :: "assignment_row list \<Rightarrow> uuid \<Rightarrow> assignment_row list" where
  "active_at t u = filter (\<lambda>a. active a \<and> sa_seat a = u) t"

definition seat_matches :: "seat_row \<Rightarrow> assignment_row \<Rightarrow> bool" where
  "seat_matches s a \<longleftrightarrow>
     fs_id s = sa_seat a \<and> fs_flight s = sa_flight a \<and> fs_booking s = Some (sa_booking a) \<and>
     ((fs_state s = SEAT_HELD \<and> sa_status a = A_HELD \<and> sa_hold a = fs_hold s) \<or>
      (fs_state s = BOOKED \<and> (sa_status a = A_CONFIRMED \<or> sa_status a = A_CHECKED_IN)))"

definition taken :: "seat_row \<Rightarrow> bool" where
  "taken s \<longleftrightarrow> fs_state s = SEAT_HELD \<or> fs_state s = BOOKED"

definition seat_ok :: "assignment_row list \<Rightarrow> seat_row \<Rightarrow> bool" where
  "seat_ok t s \<longleftrightarrow>
     (if taken s then (case active_at t (fs_id s) of [a] \<Rightarrow> seat_matches s a | _ \<Rightarrow> False)
      else active_at t (fs_id s) = [])"

definition inventory_ok :: "database \<Rightarrow> bool" where
  "inventory_ok d \<longleftrightarrow>
     distinct (map fs_id (seats d)) \<and> distinct (map sa_id (assignments d)) \<and>
     active_unique (assignments d) \<and>
     list_all seat_check (seats d) \<and> list_all (seat_ok (assignments d)) (seats d) \<and>
     list_all (\<lambda>a. active a \<longrightarrow> sa_seat a \<in> set (map fs_id (seats d))) (assignments d)"

subsection \<open>Active assignments\<close>

lemma active_at_iff: "a \<in> set (active_at t u) \<longleftrightarrow> a \<in> set t \<and> active a \<and> sa_seat a = u"
  by (auto simp: active_at_def)

lemma active_at_empty_iff: "active_at t u = [] \<longleftrightarrow> (\<forall>a \<in> set t. active a \<longrightarrow> sa_seat a \<noteq> u)"
  by (auto simp: active_at_def filter_empty_conv)

lemma active_at_length:
  assumes "active_unique t" shows "length (active_at t u) \<le> 1"
proof -
  have "active_at t u = filter (\<lambda>a. sa_seat a = u) (filter active t)"
    by (simp add: active_at_def filter_filter conj_commute)
  moreover have "distinct (map sa_seat (filter (\<lambda>a. sa_seat a = u) (filter active t)))"
    by (rule distinct_map_filter) (use assms in \<open>simp add: active_unique_def\<close>)
  ultimately have d: "distinct (map sa_seat (active_at t u))" by simp
  have "set (map sa_seat (active_at t u)) \<subseteq> {u}" by (auto simp: active_at_def)
  then have "card (set (map sa_seat (active_at t u))) \<le> card {u}" by (intro card_mono) auto
  moreover have "card (set (map sa_seat (active_at t u))) = length (map sa_seat (active_at t u))"
    using d by (rule distinct_card)
  ultimately show ?thesis by simp
qed

lemma active_at_single_iff:
  assumes "active_unique t"
  shows "active_at t u = [a] \<longleftrightarrow> a \<in> set t \<and> active a \<and> sa_seat a = u"
proof
  assume "active_at t u = [a]"
  then have "a \<in> set (active_at t u)" by simp
  then show "a \<in> set t \<and> active a \<and> sa_seat a = u" by (simp add: active_at_iff)
next
  assume "a \<in> set t \<and> active a \<and> sa_seat a = u"
  then have "a \<in> set (active_at t u)" by (simp add: active_at_iff)
  with active_at_length [OF assms, of u] show "active_at t u = [a]"
    by (cases "active_at t u") auto
qed

lemma active_unique_same:
  "active_unique t \<Longrightarrow> a \<in> set t \<Longrightarrow> b \<in> set t \<Longrightarrow> active a \<Longrightarrow> active b \<Longrightarrow> sa_seat a = sa_seat b \<Longrightarrow> a = b"
  unfolding active_unique_def by (blast intro: partial_unique_same)

lemma seat_ok_taken:
  assumes "active_unique t" and "taken s"
  shows "seat_ok t s \<longleftrightarrow> (\<exists>a \<in> set t. active a \<and> sa_seat a = fs_id s \<and> seat_matches s a)"
proof
  assume "seat_ok t s"
  with assms(2) obtain a where "active_at t (fs_id s) = [a]" "seat_matches s a"
    by (auto simp: seat_ok_def split: list.splits)
  with assms(1) show "\<exists>a \<in> set t. active a \<and> sa_seat a = fs_id s \<and> seat_matches s a"
    by (auto simp: active_at_single_iff)
next
  assume "\<exists>a \<in> set t. active a \<and> sa_seat a = fs_id s \<and> seat_matches s a"
  then obtain a where "a \<in> set t" "active a" "sa_seat a = fs_id s" "seat_matches s a" by blast
  then have "active_at t (fs_id s) = [a]" using assms(1) by (simp add: active_at_single_iff)
  with assms(2) \<open>seat_matches s a\<close> show "seat_ok t s" by (simp add: seat_ok_def)
qed

lemma seat_ok_free:
  "\<not> taken s \<Longrightarrow> seat_ok t s \<longleftrightarrow> (\<forall>a \<in> set t. active a \<longrightarrow> sa_seat a \<noteq> fs_id s)"
  by (simp add: seat_ok_def active_at_empty_iff)

subsection \<open>The invariant, row by row\<close>

lemma inventory_okI:
  assumes "distinct (map fs_id (seats d))" and "distinct (map sa_id (assignments d))"
    and "active_unique (assignments d)"
    and "\<And>s. s \<in> set (seats d) \<Longrightarrow> seat_check s"
    and "\<And>s. s \<in> set (seats d) \<Longrightarrow> taken s \<Longrightarrow>
           \<exists>a \<in> set (assignments d). active a \<and> sa_seat a = fs_id s"
    and "\<And>a. a \<in> set (assignments d) \<Longrightarrow> active a \<Longrightarrow>
           \<exists>s \<in> set (seats d). taken s \<and> seat_matches s a"
  shows "inventory_ok d"
proof -
  have ok: "seat_ok (assignments d) s" if s: "s \<in> set (seats d)" for s
  proof (cases "taken s")
    case True
    with assms(5) s obtain a where a: "a \<in> set (assignments d)" "active a" "sa_seat a = fs_id s" by blast
    with assms(6) obtain s' where s': "s' \<in> set (seats d)" "seat_matches s' a" by blast
    with a have "fs_id s' = fs_id s" by (simp add: seat_matches_def)
    with assms(1) s s' have "s' = s" by (blast intro: distinct_map_same)
    with a s' True assms(3) show ?thesis by (auto simp: seat_ok_taken)
  next
    case False
    have "sa_seat a \<noteq> fs_id s" if a: "a \<in> set (assignments d)" "active a" for a
    proof
      assume eq: "sa_seat a = fs_id s"
      from assms(6) a obtain s' where s': "s' \<in> set (seats d)" "taken s'" "seat_matches s' a" by blast
      with eq have "fs_id s' = fs_id s" by (simp add: seat_matches_def)
      with assms(1) s s' have "s' = s" by (blast intro: distinct_map_same)
      with s' False show False by simp
    qed
    with False show ?thesis by (simp add: seat_ok_free)
  qed
  have "sa_seat a \<in> set (map fs_id (seats d))" if "a \<in> set (assignments d)" "active a" for a
    using assms(6) [OF that] unfolding seat_matches_def set_map by (metis image_eqI)
  with assms(1-4) ok show ?thesis by (simp add: inventory_ok_def list_all_iff)
qed

lemma inventory_okD:
  assumes "inventory_ok d"
  shows inventory_seats_distinct: "distinct (map fs_id (seats d))"
    and inventory_assignments_distinct: "distinct (map sa_id (assignments d))"
    and inventory_active_unique: "active_unique (assignments d)"
    and inventory_seat_check: "s \<in> set (seats d) \<Longrightarrow> seat_check s"
  using assms by (auto simp: inventory_ok_def list_all_iff)

lemma inventory_taken:
  assumes "inventory_ok d" and "s \<in> set (seats d)" and "taken s"
  obtains a where "a \<in> set (assignments d)" and "active a" and "sa_seat a = fs_id s" and "seat_matches s a"
proof -
  have "seat_ok (assignments d) s" using assms(1,2) by (simp add: inventory_ok_def list_all_iff)
  with inventory_active_unique [OF assms(1)] assms(3) show thesis
    by (auto simp: seat_ok_taken intro: that)
qed

lemma inventory_active:
  assumes "inventory_ok d" and "a \<in> set (assignments d)" and "active a"
  obtains s where "s \<in> set (seats d)" and "taken s" and "seat_matches s a"
proof -
  from assms obtain s where s: "s \<in> set (seats d)" "fs_id s = sa_seat a"
    by (auto simp: inventory_ok_def list_all_iff)
  have ok: "seat_ok (assignments d) s" using assms(1) s(1) by (simp add: inventory_ok_def list_all_iff)
  have "taken s"
  proof (rule ccontr)
    assume "\<not> taken s"
    with ok s(2) assms(2,3) show False by (auto simp: seat_ok_free)
  qed
  with ok assms(1) obtain b where b: "b \<in> set (assignments d)" "active b" "sa_seat b = fs_id s" "seat_matches s b"
    by (auto simp: seat_ok_taken inventory_ok_def)
  have "b = a"
    using inventory_active_unique [OF assms(1)] b assms(2,3) s(2) by (auto intro: active_unique_same)
  with b s(1) \<open>taken s\<close> show thesis by (blast intro: that)
qed

lemma inventory_active_seat:
  assumes "inventory_ok d" and "a \<in> set (assignments d)" and "active a"
    and "s \<in> set (seats d)" and "fs_id s = sa_seat a"
  shows "taken s \<and> seat_matches s a"
proof -
  from assms(1-3) obtain s' where s': "s' \<in> set (seats d)" "taken s'" "seat_matches s' a"
    by (rule inventory_active)
  with assms(5) have "fs_id s' = fs_id s" by (simp add: seat_matches_def)
  with inventory_seats_distinct [OF assms(1)] s' assms(4) have "s' = s" by (blast intro: distinct_map_same)
  with s' show ?thesis by simp
qed

text \<open>The invariant reads two tables only.\<close>

lemma inventory_ok_cong:
  "seats d' = seats d \<Longrightarrow> assignments d' = assignments d \<Longrightarrow> inventory_ok d' \<longleftrightarrow> inventory_ok d"
  by (simp add: inventory_ok_def)

lemma inventory_ok_frame [simp]:
  "inventory_ok (d\<lparr>bookings := x1\<rparr>) = inventory_ok d"
  "inventory_ok (d\<lparr>segments := x2\<rparr>) = inventory_ok d"
  "inventory_ok (d\<lparr>passengers := x3\<rparr>) = inventory_ok d"
  "inventory_ok (d\<lparr>outbox := x4\<rparr>) = inventory_ok d"
  "inventory_ok (d\<lparr>idem_records := x5\<rparr>) = inventory_ok d"
  "inventory_ok (d\<lparr>payments := x6\<rparr>) = inventory_ok d"
  "inventory_ok (d\<lparr>attempts := x7\<rparr>) = inventory_ok d"
  "inventory_ok (d\<lparr>webhooks := x8\<rparr>) = inventory_ok d"
  "inventory_ok (d\<lparr>refunds := x9\<rparr>) = inventory_ok d"
  "inventory_ok (d\<lparr>quotes := x10\<rparr>) = inventory_ok d"
  "inventory_ok (d\<lparr>quote_items := x11\<rparr>) = inventory_ok d"
  "inventory_ok (d\<lparr>receipts := x12\<rparr>) = inventory_ok d"
  by (simp_all add: inventory_ok_def)

lemma inventory_ok_empty: "inventory_ok empty_db"
  by (simp add: inventory_ok_def empty_db_def active_unique_def)

subsection \<open>Updating a booking's seats and assignments together\<close>

text \<open>\<open>pa\<close>, \<open>g\<close> select and change the assignments, \<open>ps\<close>, \<open>f\<close> the seats.  The laws: both pick
  the same pairs, no key changes, and a picked pair either stays a pair or becomes a free
  seat and an inactive assignment.\<close>

locale paired_update =
  fixes pa :: "assignment_row \<Rightarrow> bool" and g :: "assignment_row \<Rightarrow> assignment_row"
    and ps :: "seat_row \<Rightarrow> bool" and f :: "seat_row \<Rightarrow> seat_row"
  assumes picks: "seat_matches s a \<Longrightarrow> active a \<Longrightarrow> ps s \<longleftrightarrow> pa a"
    and picks_taken: "ps s \<Longrightarrow> taken s"
    and keeps_keys: "fs_id (f s) = fs_id s" "sa_id (g a) = sa_id a" "sa_seat (g a) = sa_seat a"
      "sa_segment (g a) = sa_segment a" "sa_passenger (g a) = sa_passenger a"
    and activates_none: "pa a \<Longrightarrow> active (g a) \<Longrightarrow> active a"
    and pair_ok: "pa a \<Longrightarrow> ps s \<Longrightarrow> seat_matches s a \<Longrightarrow> active a \<Longrightarrow>
        (active (g a) \<and> taken (f s) \<and> seat_matches (f s) (g a)) \<or> (\<not> active (g a) \<and> \<not> taken (f s))"
    and check_ok: "ps s \<Longrightarrow> seat_check s \<Longrightarrow> seat_check (f s)"
begin

definition after :: "database \<Rightarrow> database" where
  "after d = d\<lparr>assignments := update_where pa g (assignments d), seats := update_where ps f (seats d)\<rparr>"

lemma after_active_unique:
  "active_unique t \<Longrightarrow> active_unique (update_where pa g t)"
  unfolding active_unique_def
  by (intro conjI partial_unique_update) (auto simp: keeps_keys dest: activates_none)

lemma preserves:
  assumes ok: "inventory_ok d"
  shows "inventory_ok (after d)"
proof (rule inventory_okI)
  note [simp] = after_def
  show "distinct (map fs_id (seats (after d)))"
    using inventory_seats_distinct [OF ok] by (simp add: distinct_map_update_keep keeps_keys)
  show "distinct (map sa_id (assignments (after d)))"
    using inventory_assignments_distinct [OF ok] by (simp add: distinct_map_update_keep keeps_keys)
  show "active_unique (assignments (after d))"
    using inventory_active_unique [OF ok] by (simp add: after_active_unique)
  show "seat_check s" if "s \<in> set (seats (after d))" for s
    using that inventory_seat_check [OF ok] check_ok by (auto simp: set_update_where)
  show "\<exists>a \<in> set (assignments (after d)). active a \<and> sa_seat a = fs_id s"
    if s: "s \<in> set (seats (after d))" "taken s" for s
  proof -
    from s(1) obtain s0 where s0: "s0 \<in> set (seats d)" "s = (if ps s0 then f s0 else s0)"
      by (auto simp: set_update_where)
    with s(2) picks_taken have "taken s0" by (auto split: if_splits)
    with ok s0(1) obtain a where a: "a \<in> set (assignments d)" "active a" "sa_seat a = fs_id s0" "seat_matches s0 a"
      by (rule inventory_taken)
    let ?a = "if pa a then g a else a"
    have "?a \<in> set (assignments (after d))" using a(1) by (auto simp: set_update_where)
    moreover have "active ?a"
      using a picks [OF a(4,2)] pair_ok [of a s0] s(2) s0(2) by (auto split: if_splits)
    moreover have "sa_seat ?a = fs_id s"
      using a(3) s0(2) by (auto simp: keeps_keys)
    ultimately show ?thesis by blast
  qed
  show "\<exists>s \<in> set (seats (after d)). taken s \<and> seat_matches s a"
    if a: "a \<in> set (assignments (after d))" "active a" for a
  proof -
    from a(1) obtain a0 where a0: "a0 \<in> set (assignments d)" "a = (if pa a0 then g a0 else a0)"
      by (auto simp: set_update_where)
    with a(2) activates_none have act: "active a0" by (auto split: if_splits)
    from ok a0(1) act obtain s where s: "s \<in> set (seats d)" "taken s" "seat_matches s a0"
      by (rule inventory_active)
    let ?s = "if ps s then f s else s"
    have "?s \<in> set (seats (after d))" using s(1) by (auto simp: set_update_where)
    moreover have "taken ?s \<and> seat_matches ?s a"
      using picks [OF s(3) act] pair_ok [of a0 s] s a0(2) a(2) act by (auto split: if_splits)
    ultimately show ?thesis by blast
  qed
qed

end

end
