(* ===== verification/HoldSafety.thy ===== *)
theory HoldSafety
  imports HoldSeats Inventory
begin

text \<open>
  What a successful \<open>HoldSeats\<close> did.  The locked snapshot describes the tables; each
  iteration of \<open>applySeatAssignments\<close> leaves exactly one active assignment on its seat,
  for the passenger of the request; marking the seats then restores the inventory
  invariant.
\<close>

subsection \<open>Normalised requests\<close>

definition hold_normal :: "env \<Rightarrow> hold_params \<Rightarrow> bool" where
  "hold_normal E p \<longleftrightarrow>
     canonical E (UserID p) \<and> canonical E (BookingID p) \<and> canonical E (BookingSegmentID p) \<and>
     canonical E (FlightInstanceID p) \<and>
     list_all (\<lambda>s. canonical E (PassengerID s) \<and> canonical E (FlightSeatID s)) (Seats p) \<and>
     distinct (map PassengerID (Seats p)) \<and> distinct (map FlightSeatID (Seats p)) \<and>
     sorted_wrt (\<lambda>a b. str_less (FlightSeatID a) (FlightSeatID b)) (Seats p) \<and>
     1 \<le> length (Seats p) \<and> length (Seats p) \<le> 9"

lemma normalize_selections_Inr:
  "normalize_selections E ps ss sels = Inr xs \<Longrightarrow>
     list_all (\<lambda>s. canonical E (PassengerID s) \<and> canonical E (FlightSeatID s)) xs \<and>
     distinct (map PassengerID xs) \<and> distinct (map FlightSeatID xs) \<and>
     set (map PassengerID xs) \<inter> set ps = {} \<and> set (map FlightSeatID xs) \<inter> set ss = {} \<and>
     map (\<lambda>s. Some (PassengerID s)) xs = map (\<lambda>s. normalizeUUID E (PassengerID s)) sels \<and>
     map (\<lambda>s. Some (FlightSeatID s)) xs = map (\<lambda>s. normalizeUUID E (FlightSeatID s)) sels"
proof (induction sels arbitrary: ps ss xs)
  case Nil
  then show ?case by simp
next
  case (Cons sel sels)
  from Cons.prems obtain a b ys where ab:
    "normalizeUUID E (PassengerID sel) = Some a" "normalizeUUID E (FlightSeatID sel) = Some b"
    "a \<notin> set ps" "b \<notin> set ss" "normalize_selections E (a # ps) (b # ss) sels = Inr ys"
    "xs = \<lparr>PassengerID = a, FlightSeatID = b\<rparr> # ys"
    by (auto split: option.splits if_splits sum.splits)
  from Cons.IH [OF ab(5)] ab show ?case by (auto dest: normalizeUUID_canonical)
qed

lemma seat_order_sorted:
  assumes "distinct (map FlightSeatID xs)"
  shows "sorted_wrt (\<lambda>a b. str_less (FlightSeatID a) (FlightSeatID b)) (sort_by seat_order xs)"
proof (rule sorted_wrt_strict)
  show "sorted_wrt (\<lambda>a b. \<not> str_less (FlightSeatID b) (FlightSeatID a)) (sort_by seat_order xs)"
    unfolding seat_order_def [symmetric]
    by (rule sorted_wrt_sort_by) (auto simp: seat_order_def dest: str_less_asym str_not_less_trans)
qed (use assms in simp)

lemma normalizeHoldParams_normal:
  assumes "normalizeHoldParams E params = Inr p"
  shows "hold_normal E p"
proof -
  from assms obtain u b g f xs where xs: "normalize_selections E [] [] (Seats params) = Inr xs"
    "Seats p = sort_by seat_order xs" "Seats params \<noteq> []" "length (Seats params) \<le> 9"
    and ids: "normalizeUUID E (UserID params) = Some u" "normalizeUUID E (BookingID params) = Some b"
    "normalizeUUID E (BookingSegmentID params) = Some g" "normalizeUUID E (FlightInstanceID params) = Some f"
    "UserID p = u" "BookingID p = b" "BookingSegmentID p = g" "FlightInstanceID p = f"
    by (auto simp: normalizeHoldParams_def split: if_splits option.splits sum.splits)
  note canon = ids(1-4) [THEN normalizeUUID_canonical]
  from normalize_selections_Inr [OF xs(1)] have n:
    "list_all (\<lambda>s. canonical E (PassengerID s) \<and> canonical E (FlightSeatID s)) xs"
    "distinct (map PassengerID xs)" "distinct (map FlightSeatID xs)"
    "length xs = length (Seats params)"
    by (auto dest: arg_cong [where f = length])
  then show ?thesis
    using xs ids(5-8) canon seat_order_sorted [OF n(3)]
    by (cases "Seats params") (auto simp: hold_normal_def list_all_iff)
qed

lemma normalizeHoldParams_error:
  "normalizeHoldParams E params = Inl e \<Longrightarrow> e = ErrInvalidHoldRequest"
proof -
  have sel: "normalize_selections E ps ss sels = Inl e \<Longrightarrow> e = ErrInvalidHoldRequest" for ps ss sels
    by (induction sels arbitrary: ps ss) (auto split: option.splits if_splits sum.splits)
  show "normalizeHoldParams E params = Inl e \<Longrightarrow> e = ErrInvalidHoldRequest"
    by (auto simp: normalizeHoldParams_def split: if_splits option.splits sum.splits dest: sel)
qed

subsection \<open>The locked snapshot\<close>

lemma map_of_fold_update:
  "map_of (fold (\<lambda>s m. AList.update (k s) (v s) m) rows m0) key = Some x \<Longrightarrow>
     (\<exists>s \<in> set rows. k s = key \<and> x = v s) \<or> map_of m0 key = Some x"
proof (induction rows arbitrary: m0)
  case Nil
  then show ?case by simp
next
  case (Cons r rows)
  then have "(\<exists>s \<in> set rows. k s = key \<and> x = v s) \<or> map_of (AList.update (k r) (v r) m0) key = Some x"
    by simp
  then show ?case by (auto simp: update_conv' split: if_splits)
qed

lemma lockFlightSeats_Inr:
  assumes "lockFlightSeats flight sels E w = (Inr m, w')"
  shows "db w' = db w \<and> txn w' = txn w \<and>
    (\<forall>k ls. map_of m k = Some ls \<longrightarrow>
       (\<exists>s \<in> set (seats (db w)). uuid_text E (fs_id s) = k \<and> ls = locked_seat_of E s \<and>
          fs_flight s = uuid_of E flight))"
proof -
  let ?rows = "sort_key fs_id (filter (\<lambda>s. fs_flight s = uuid_of E flight \<and> fs_id s \<in> set (seat_uuids E sels)) (seats (db w)))"
  from assms have m: "m = fold (\<lambda>s m. AList.update (uuid_text E (fs_id s)) (locked_seat_of E s) m) ?rows []"
    and w': "db w' = db w" "txn w' = txn w"
    by (auto simp: lockFlightSeats_def run_simps Let_def split: if_splits)
  have "\<exists>s \<in> set (seats (db w)). uuid_text E (fs_id s) = k \<and> ls = locked_seat_of E s \<and> fs_flight s = uuid_of E flight"
    if "map_of m k = Some ls" for k ls
    using map_of_fold_update [OF that [unfolded m]] by auto
  with w' show ?thesis by blast
qed

lemma collect_assignments_Inr:
  assumes "collect_assignments E m rows = Inr m'"
  shows "(map_of m' k = Some la \<longrightarrow> map_of m k = Some la \<or>
            (\<exists>a \<in> set rows. uuid_text E (sa_seat a) = k \<and> la = locked_assignment_of E a)) \<and>
         (map_of m' k = None \<longrightarrow> map_of m k = None \<and> (\<forall>a \<in> set rows. uuid_text E (sa_seat a) \<noteq> k))"
  using assms
proof (induction rows arbitrary: m)
  case Nil
  then show ?case by simp
next
  case (Cons a rows)
  then have "collect_assignments E ((uuid_text E (sa_seat a), locked_assignment_of E a) # m) rows = Inr m'"
    by (simp add: Let_def split: if_splits)
  from Cons.IH [OF this] show ?case by (auto split: if_splits)
qed

lemma lockSeatAssignments_Inr:
  assumes "lockSeatAssignments sels E w = (Inr m, w')"
  shows "db w' = db w \<and> txn w' = txn w \<and>
    (\<forall>k la. map_of m k = Some la \<longrightarrow>
       (\<exists>a \<in> set (assignments (db w)). active a \<and> uuid_text E (sa_seat a) = k \<and> la = locked_assignment_of E a)) \<and>
    (\<forall>k. map_of m k = None \<longrightarrow>
       (\<forall>a \<in> set (assignments (db w)). active a \<and> sa_seat a \<in> set (seat_uuids E sels) \<longrightarrow> uuid_text E (sa_seat a) \<noteq> k))"
proof -
  let ?rows = "sort_key sa_seat (filter (\<lambda>a. sa_seat a \<in> set (seat_uuids E sels) \<and> active a) (assignments (db w)))"
  from assms have m: "collect_assignments E [] ?rows = Inr m" and w': "db w' = db w" "txn w' = txn w"
    by (auto simp: lockSeatAssignments_def run_simps split: sum.splits)
  from collect_assignments_Inr [OF m] w' show ?thesis by auto
qed

lemma lockPassengers_Inr:
  assumes "lockPassengers b sels E w = (Inr u, w')"
  shows "db w' = db w \<and> txn w' = txn w \<and>
    count_where (\<lambda>p. bp_booking p = uuid_of E b \<and> bp_id p \<in> uuid_of E ` PassengerID ` set sels) (passengers (db w))
      = length sels"
  using assms by (auto simp: lockPassengers_def run_simps Let_def)

subsection \<open>One iteration\<close>

text \<open>The assignment the request asks for.\<close>

definition assigned_to :: "env \<Rightarrow> hold_params \<Rightarrow> ts \<Rightarrow> seat_selection \<Rightarrow> assignment_row \<Rightarrow> bool" where
  "assigned_to E p h sel a \<longleftrightarrow>
     sa_booking a = uuid_of E (BookingID p) \<and> sa_segment a = uuid_of E (BookingSegmentID p) \<and>
     sa_flight a = uuid_of E (FlightInstanceID p) \<and> sa_passenger a = uuid_of E (PassengerID sel) \<and>
     sa_seat a = uuid_of E (FlightSeatID sel) \<and> sa_status a = A_HELD \<and> sa_hold a = Some h"

text \<open>A seat the request may take at time \<open>t\<close>: free, held by a hold that has run out, or
  already held for this booking until the same time.\<close>

definition takeable :: "env \<Rightarrow> hold_params \<Rightarrow> ts \<Rightarrow> ts \<Rightarrow> seat_row \<Rightarrow> bool" where
  "takeable E p t h s \<longleftrightarrow>
     fs_state s = AVAILABLE \<or>
     (fs_state s = SEAT_HELD \<and> (\<exists>x. fs_hold s = Some x \<and> x \<le> t)) \<or>
     (fs_state s = SEAT_HELD \<and> fs_booking s = Some (uuid_of E (BookingID p)) \<and> fs_hold s = Some h)"

lemma insert_hold_Inr:
  assumes "insert_hold p sel h E w = (Inr u, w')"
  obtains a where "assigned_to E p h sel a" and "db w' = (db w)\<lparr>assignments := assignments (db w) @ [a]\<rparr>"
    and "txn w' = txn w" and "sa_id a \<notin> sa_id ` set (assignments (db w))"
    and "active_unique (assignments (db w) @ [a])"
proof -
  let ?a = "\<lparr>sa_id = gen_uuid E (pc w) 0, sa_booking = uuid_of E (BookingID p),
    sa_segment = uuid_of E (BookingSegmentID p), sa_flight = uuid_of E (FlightInstanceID p),
    sa_passenger = uuid_of E (PassengerID sel), sa_seat = uuid_of E (FlightSeatID sel),
    sa_status = A_HELD, sa_hold = Some h, sa_created = txn w\<rparr>"
  from assms have "insert_assignment ?a (db w) = Inr (u, db w')" "txn w' = txn w"
    by (auto simp: insert_hold_def map_err_Inr stmt_Inr)
  then show thesis
    by (intro that [of ?a]) (auto simp: assigned_to_def insert_assignment_Inr)
qed

lemma expire_assignment_Inr:
  assumes "expire_assignment la E w = (Inr u, w')"
  shows "db w' = (db w)\<lparr>assignments := update_where (\<lambda>a. sa_id a = la_id la \<and> sa_status a = A_HELD)
      (\<lambda>a. a\<lparr>sa_status := A_EXPIRED\<rparr>) (assignments (db w))\<rparr> \<and> txn w' = txn w"
  using assms by (auto simp: expire_assignment_def run_simps op_defs)

text \<open>How the active assignments change in one iteration: only those of this seat.\<close>

definition reseated :: "assignment_row list \<Rightarrow> assignment_row list \<Rightarrow> uuid set \<Rightarrow> bool" where
  "reseated t t' us \<longleftrightarrow>
     active_unique t' \<and> distinct (map sa_id t') \<and>
     (\<forall>a. active a \<and> sa_seat a \<notin> us \<longrightarrow> (a \<in> set t' \<longleftrightarrow> a \<in> set t))"

lemma assigned_to_active: "assigned_to E p h sel a \<Longrightarrow> active a"
  by (simp add: assigned_to_def active_def)

lemma reseated_refl: "active_unique t \<Longrightarrow> distinct (map sa_id t) \<Longrightarrow> reseated t t us"
  by (simp add: reseated_def)

lemma reseated_trans:
  "reseated t t' us \<Longrightarrow> reseated t' t'' vs \<Longrightarrow> reseated t t'' (us \<union> vs)"
  by (auto simp: reseated_def)

lemma reseated_insert:
  assumes "reseated t t' {u}" and "active_unique (t' @ [a])" and "sa_id a \<notin> sa_id ` set t'" and "sa_seat a = u"
  shows "reseated t (t' @ [a]) {u}"
  using assms by (auto simp: reseated_def)

lemma reseated_expire:
  assumes "active_unique t" and "distinct (map sa_id t)" and "a \<in> set t" and "sa_seat a = u"
  shows "reseated t (update_where (\<lambda>r. sa_id r = sa_id a \<and> sa_status r = A_HELD) (\<lambda>r. r\<lparr>sa_status := A_EXPIRED\<rparr>) t) {u}"
proof -
  let ?p = "\<lambda>r. sa_id r = sa_id a \<and> sa_status r = A_HELD" and ?f = "\<lambda>r. r\<lparr>sa_status := A_EXPIRED\<rparr>"
  have only: "r = a" if "r \<in> set t" "?p r" for r
    using that assms(2,3) by (auto intro: distinct_map_same)
  have "b \<in> set (update_where ?p ?f t) \<longleftrightarrow> b \<in> set t" if "active b" "sa_seat b \<noteq> u" for b
  proof
    assume "b \<in> set (update_where ?p ?f t)"
    then obtain r where r: "r \<in> set t" "b = (if ?p r then ?f r else r)" by (auto simp: set_update_where)
    with that(1) show "b \<in> set t" by (auto simp: active_def split: if_splits)
  next
    assume b: "b \<in> set t"
    with only assms(4) that(2) have "\<not> ?p b" by auto
    with b show "b \<in> set (update_where ?p ?f t)" by (force simp: set_update_where)
  qed
  moreover have "active_unique (update_where ?p ?f t)"
    using assms(1) unfolding active_unique_def
    by (intro conjI partial_unique_update) (auto simp: active_def)
  moreover have "distinct (map sa_id (update_where ?p ?f t))"
    by (rule distinct_map_update_keep) (use assms(2) in auto)
  ultimately show ?thesis by (simp add: reseated_def)
qed

lemma map_of_NoneD': "map_of m k \<noteq> None \<Longrightarrow> \<exists>x. map_of m k = Some x"
  by auto

lemma apply_selection_step:
  assumes codec: "uuid_codec E" and normal: "hold_normal E p" and sel: "sel \<in> set (Seats p)"
    and run: "apply_selection p L M t h sel E w = (Inr x, w')"
    and u: "u = uuid_of E (FlightSeatID sel)"
    and L: "\<And>k ls. map_of L k = Some ls \<Longrightarrow> \<exists>s \<in> S. uuid_text E (fs_id s) = k \<and> ls = locked_seat_of E s \<and>
              fs_flight s = uuid_of E (FlightInstanceID p)"
    and M: "\<And>la. map_of M (FlightSeatID sel) = Some la \<Longrightarrow>
              \<exists>a \<in> set (assignments (db w)). active a \<and> sa_seat a = u \<and> la = locked_assignment_of E a"
    and M0: "map_of M (FlightSeatID sel) = None \<Longrightarrow> \<forall>a \<in> set (assignments (db w)). active a \<longrightarrow> sa_seat a \<noteq> u"
    and flight: "\<And>a s. a \<in> set (assignments (db w)) \<Longrightarrow> active a \<Longrightarrow> sa_seat a = u \<Longrightarrow> s \<in> S \<Longrightarrow> fs_id s = u \<Longrightarrow>
              sa_flight a = fs_flight s"
    and uniq: "active_unique (assignments (db w))" "distinct (map sa_id (assignments (db w)))"
  shows "\<exists>A'. db w' = (db w)\<lparr>assignments := A'\<rparr> \<and> txn w' = txn w \<and>
     reseated (assignments (db w)) A' {u} \<and> (\<exists>a \<in> set A'. assigned_to E p h sel a) \<and>
     (\<exists>s \<in> S. fs_id s = u \<and> fs_flight s = uuid_of E (FlightInstanceID p) \<and> takeable E p t h s)"
proof -
  let ?k = "FlightSeatID sel" and ?A = "assignments (db w)"
  from normal sel have canon: "canonical E ?k" "canonical E (BookingID p)" "canonical E (BookingSegmentID p)"
    "canonical E (PassengerID sel)"
    by (auto simp: hold_normal_def list_all_iff)
  from run obtain ls where ls: "map_of L ?k = Some ls"
    by (auto simp: apply_selection_def split: option.splits)
  from L [OF ls] obtain s where s: "s \<in> S" "uuid_text E (fs_id s) = ?k" "ls = locked_seat_of E s"
    "fs_flight s = uuid_of E (FlightInstanceID p)" by blast
  from s(2) codec canon(1) u have su: "fs_id s = u" by (simp add: canonical_text_eq)
  have ls_simps: "ls_state ls = fs_state s" "ls_hold ls = fs_hold s" "ls_booking ls = text_or_empty E (fs_booking s)"
    using s(3) by (simp_all add: locked_seat_of_def)
  have inserted: ?thesis
    if "insert_hold p sel h E v = (Inr x, w')" and "db v = (db w)\<lparr>assignments := B\<rparr>" and "txn v = txn w"
      and "reseated ?A B {u}" and "takeable E p t h s" for v B
  proof -
    from that(1) obtain a where a: "assigned_to E p h sel a"
      "db w' = (db v)\<lparr>assignments := assignments (db v) @ [a]\<rparr>" "txn w' = txn v"
      "sa_id a \<notin> sa_id ` set (assignments (db v))" "active_unique (assignments (db v) @ [a])"
      by (rule insert_hold_Inr)
    from a(1) u have "sa_seat a = u" by (simp add: assigned_to_def)
    with a that(2-4) have "reseated ?A (B @ [a]) {u}" by (intro reseated_insert) auto
    with a that s su show ?thesis by (intro exI [of _ "B @ [a]"]) auto
  qed
  show ?thesis
  proof (cases "fs_state s")
    case AVAILABLE
    with run ls ls_simps have "map_of M ?k = None" "insert_hold p sel h E w = (Inr x, w')"
      by (auto simp: apply_selection_def Let_def split: if_splits)
    then show ?thesis
      by (intro inserted [of w ?A]) (auto simp: uniq reseated_refl takeable_def AVAILABLE)
  next
    case BOOKED
    with run ls ls_simps show ?thesis
      by (auto simp: apply_selection_def Let_def split: option.splits if_splits)
  next
    case BLOCKED
    with run ls ls_simps show ?thesis
      by (auto simp: apply_selection_def Let_def split: if_splits)
  next
    case SEAT_HELD
    with run ls ls_simps obtain sh la where held: "fs_hold s = Some sh" "map_of M ?k = Some la"
      "la_status la = A_HELD" "la_hold la = Some sh" "ls_booking ls = la_booking la"
      by (auto simp: apply_selection_def Let_def split: option.splits if_splits)
    from M [OF held(2)] obtain a where a: "a \<in> set ?A" "active a" "sa_seat a = u" "la = locked_assignment_of E a"
      by blast
    have af: "sa_flight a = fs_flight s" using flight [OF a(1-3) s(1) su] .
    show ?thesis
    proof (cases "sh > t")
      case False
      with SEAT_HELD run ls ls_simps held obtain v y where v: "expire_assignment la E w = (Inr y, v)"
        "insert_hold p sel h E v = (Inr x, w')"
        by (auto simp: apply_selection_def Let_def andthen_Inr)
      from expire_assignment_Inr [OF v(1)] a(4) have db: "db v = (db w)\<lparr>assignments :=
          update_where (\<lambda>r. sa_id r = sa_id a \<and> sa_status r = A_HELD) (\<lambda>r. r\<lparr>sa_status := A_EXPIRED\<rparr>) ?A\<rparr>"
        and tx: "txn v = txn w"
        by (simp_all add: locked_assignment_of_def)
      from reseated_expire [OF uniq a(1) a(3)] show ?thesis
        using False SEAT_HELD held by (intro inserted [OF v(2) db tx]) (auto simp: takeable_def)
    next
      case True
      with SEAT_HELD run ls ls_simps held have own: "la_booking la = BookingID p" "la_segment la = BookingSegmentID p"
        "la_passenger la = PassengerID sel" "sh = h" "w' = w"
        by (auto simp: apply_selection_def Let_def split: if_splits)
      with a(4) codec canon have ids: "sa_booking a = uuid_of E (BookingID p)"
        "sa_segment a = uuid_of E (BookingSegmentID p)" "sa_passenger a = uuid_of E (PassengerID sel)"
        by (auto simp: locked_assignment_of_def canonical_text_eq)
      have "ls_booking ls = BookingID p" using held(5) own(1) by simp
      moreover have "BookingID p \<noteq> []" using canon(2) by (auto simp: canonical_def validate_UUID_def dashed_def)
      ultimately have "fs_booking s = Some (uuid_of E (BookingID p))"
        using ls_simps(3) codec canon(2) by (auto simp: text_or_empty_def canonical_text_eq split: option.splits)
      moreover have "assigned_to E p h sel a"
        using ids a held(3,4) own(4) af s(4) u by (auto simp: assigned_to_def locked_assignment_of_def)
      ultimately show ?thesis
        using a(1) s su own held(1) SEAT_HELD uniq
        by (intro exI [of _ ?A]) (auto simp: reseated_refl takeable_def)
    qed
  qed
qed

subsection \<open>The loop\<close>

text \<open>The snapshot of the locks describes the current assignments of the seat of a selection.\<close>

definition seen ::
  "env \<Rightarrow> (string \<times> lockedAssignment) list \<Rightarrow> seat_row set \<Rightarrow> assignment_row list \<Rightarrow> seat_selection \<Rightarrow> bool" where
  "seen E M S t sel \<longleftrightarrow>
     (\<forall>la. map_of M (FlightSeatID sel) = Some la \<longrightarrow>
        (\<exists>a \<in> set t. active a \<and> sa_seat a = uuid_of E (FlightSeatID sel) \<and> la = locked_assignment_of E a)) \<and>
     (map_of M (FlightSeatID sel) = None \<longrightarrow>
        (\<forall>a \<in> set t. active a \<longrightarrow> sa_seat a \<noteq> uuid_of E (FlightSeatID sel))) \<and>
     (\<forall>a \<in> set t. \<forall>s \<in> S. active a \<and> sa_seat a = uuid_of E (FlightSeatID sel) \<and> fs_id s = sa_seat a \<longrightarrow>
        sa_flight a = fs_flight s)"

lemma seen_reseated:
  assumes "seen E M S t sel" and "reseated t t' us" and "uuid_of E (FlightSeatID sel) \<notin> us"
  shows "seen E M S t' sel"
proof -
  have same: "a \<in> set t' \<longleftrightarrow> a \<in> set t" if "active a" "sa_seat a = uuid_of E (FlightSeatID sel)" for a
    using assms(2,3) that by (auto simp: reseated_def)
  with assms(1) show ?thesis unfolding seen_def by blast
qed

definition placed :: "env \<Rightarrow> hold_params \<Rightarrow> ts \<Rightarrow> ts \<Rightarrow> seat_row set \<Rightarrow> assignment_row list \<Rightarrow> seat_selection \<Rightarrow> bool" where
  "placed E p t h S A sel \<longleftrightarrow>
     (\<exists>a \<in> set A. assigned_to E p h sel a) \<and>
     (\<exists>s \<in> S. fs_id s = uuid_of E (FlightSeatID sel) \<and> fs_flight s = uuid_of E (FlightInstanceID p) \<and>
        takeable E p t h s)"

lemma apply_loop:
  assumes codec: "uuid_codec E" and normal: "hold_normal E p"
    and L: "\<And>k ls. map_of L k = Some ls \<Longrightarrow> \<exists>s \<in> S. uuid_text E (fs_id s) = k \<and> ls = locked_seat_of E s \<and>
              fs_flight s = uuid_of E (FlightInstanceID p)"
  shows "set sels \<subseteq> set (Seats p) \<Longrightarrow> distinct (map FlightSeatID sels) \<Longrightarrow>
     for_each sels (apply_selection p L M t h) E w = (Inr x, w') \<Longrightarrow>
     \<forall>sel \<in> set sels. seen E M S (assignments (db w)) sel \<Longrightarrow>
     active_unique (assignments (db w)) \<Longrightarrow> distinct (map sa_id (assignments (db w))) \<Longrightarrow>
     \<exists>A'. db w' = (db w)\<lparr>assignments := A'\<rparr> \<and> txn w' = txn w \<and>
       reseated (assignments (db w)) A' (set (seat_uuids E sels)) \<and> (\<forall>sel \<in> set sels. placed E p t h S A' sel)"
proof (induction sels arbitrary: w)
  case Nil
  then show ?case by (intro exI [of _ "assignments (db w)"]) (auto simp: reseated_refl)
next
  case (Cons sel sels)
  let ?A = "assignments (db w)" and ?u = "uuid_of E (FlightSeatID sel)"
  from Cons.prems(3) obtain y v where step: "apply_selection p L M t h sel E w = (Inr y, v)"
    and rest: "for_each sels (apply_selection p L M t h) E v = (Inr x, w')"
    by (auto simp: andthen_Inr)
  from Cons.prems(1) have selp: "sel \<in> set (Seats p)" "set sels \<subseteq> set (Seats p)" by auto
  from Cons.prems(4) have seen: "seen E M S ?A sel" by simp
  have "\<exists>B. db v = (db w)\<lparr>assignments := B\<rparr> \<and> txn v = txn w \<and> reseated ?A B {?u} \<and>
     (\<exists>a \<in> set B. assigned_to E p h sel a) \<and>
     (\<exists>s \<in> S. fs_id s = ?u \<and> fs_flight s = uuid_of E (FlightInstanceID p) \<and> takeable E p t h s)"
  proof (rule apply_selection_step [OF codec normal selp(1) step refl, where S = S])
    show "\<exists>s \<in> S. uuid_text E (fs_id s) = k \<and> ls = locked_seat_of E s \<and> fs_flight s = uuid_of E (FlightInstanceID p)"
      if "map_of L k = Some ls" for k ls using L [OF that] .
  qed (use seen Cons.prems(5,6) in \<open>auto simp: seen_def\<close>)
  then obtain B where B: "db v = (db w)\<lparr>assignments := B\<rparr>" "txn v = txn w" "reseated ?A B {?u}"
    "\<exists>a \<in> set B. assigned_to E p h sel a"
    "\<exists>s \<in> S. fs_id s = ?u \<and> fs_flight s = uuid_of E (FlightInstanceID p) \<and> takeable E p t h s"
    by blast
  have canon: "canonical E (FlightSeatID r)" if "r \<in> set (Seats p)" for r
    using normal that by (auto simp: hold_normal_def list_all_iff)
  have other: "uuid_of E (FlightSeatID r) \<noteq> ?u" if "r \<in> set sels" for r
    using Cons.prems(2) that selp canon canonical_uuid_of_inj [OF codec] by (metis distinct.simps(2) image_eqI list.set_map list.simps(9) subset_iff)
  have seen': "\<forall>r \<in> set sels. seen E M S (assignments (db v)) r"
    using Cons.prems(4) other B(1,3) by (auto intro: seen_reseated)
  from Cons.IH [OF selp(2) _ rest seen'] Cons.prems(2) B(1,3)
  obtain A' where A': "db w' = (db v)\<lparr>assignments := A'\<rparr>" "txn w' = txn v"
    "reseated B A' (set (seat_uuids E sels))" "\<forall>sel \<in> set sels. placed E p t h S A' sel"
    by (auto simp: reseated_def)
  have "placed E p t h S A' sel"
  proof -
    from B(4) obtain a where a: "a \<in> set B" "assigned_to E p h sel a" by blast
    have "sa_seat a = ?u" "active a" using a(2) by (auto simp: assigned_to_def active_def)
    then have "sa_seat a \<notin> set (seat_uuids E sels)"
      using other unfolding seat_uuids_def set_map image_iff by metis
    with A'(3) a \<open>active a\<close> have "a \<in> set A'" by (auto simp: reseated_def)
    with a(2) B(5) show ?thesis by (auto simp: placed_def)
  qed
  moreover have "reseated ?A A' (set (seat_uuids E (sel # sels)))"
    using reseated_trans [OF B(3) A'(3)] by (simp add: seat_uuids_def)
  ultimately show ?case using A' B(1,2) by (intro exI [of _ A']) auto
qed

subsection \<open>Marking the seats restores the invariant\<close>

lemma markFlightSeatsHeld_Inr:
  assumes "markFlightSeatsHeld p h E w = (Inr x, w')"
  shows "db w' = (db w)\<lparr>seats := update_where
       (\<lambda>s. fs_flight s = uuid_of E (FlightInstanceID p) \<and> fs_id s \<in> set (seat_uuids E (Seats p)))
       (\<lambda>s. s\<lparr>fs_booking := Some (uuid_of E (BookingID p)), fs_state := SEAT_HELD, fs_hold := Some h,
              fs_version := fs_version s + 1\<rparr>) (seats (db w))\<rparr> \<and> txn w' = txn w"
  using assms by (auto simp: markFlightSeatsHeld_def run_simps op_defs)

lemma mark_inventory_ok:
  assumes ok: "inventory_ok d0" and seats: "seats d = seats d0"
    and res: "reseated (assignments d0) (assignments d) (set (seat_uuids E (Seats p)))"
    and placed: "\<forall>sel \<in> set (Seats p). placed E p t h (set (seats d0)) (assignments d) sel"
    and d': "d' = d\<lparr>seats := update_where
       (\<lambda>s. fs_flight s = uuid_of E (FlightInstanceID p) \<and> fs_id s \<in> set (seat_uuids E (Seats p)))
       (\<lambda>s. s\<lparr>fs_booking := Some (uuid_of E (BookingID p)), fs_state := SEAT_HELD, fs_hold := Some h,
              fs_version := fs_version s + 1\<rparr>) (seats d)\<rparr>"
  shows "inventory_ok d'"
proof (rule inventory_okI)
  let ?ids = "set (seat_uuids E (Seats p))" and ?F = "uuid_of E (FlightInstanceID p)"
  let ?p = "\<lambda>s. fs_flight s = ?F \<and> fs_id s \<in> ?ids"
  let ?f = "\<lambda>s. s\<lparr>fs_booking := Some (uuid_of E (BookingID p)), fs_state := SEAT_HELD, fs_hold := Some h,
              fs_version := fs_version s + 1\<rparr>"
  have seats': "seats d' = update_where ?p ?f (seats d0)" and asg': "assignments d' = assignments d"
    using d' seats by simp_all
  have picked: "?p s" if s: "s \<in> set (seats d0)" "fs_id s \<in> ?ids" for s
  proof -
    from s(2) obtain sel where sel: "sel \<in> set (Seats p)" "fs_id s = uuid_of E (FlightSeatID sel)"
      by (auto simp: seat_uuids_def)
    with placed obtain s' where "s' \<in> set (seats d0)" "fs_id s' = fs_id s" "fs_flight s' = ?F"
      by (auto simp: placed_def)
    with inventory_seats_distinct [OF ok] s have "s' = s" by (blast intro: distinct_map_same)
    with \<open>fs_flight s' = ?F\<close> s show ?thesis by simp
  qed
  show "distinct (map fs_id (seats d'))"
    unfolding seats' by (rule distinct_map_update_keep) (use inventory_seats_distinct [OF ok] in auto)
  show "distinct (map sa_id (assignments d'))" "active_unique (assignments d')"
    using res asg' by (auto simp: reseated_def)
  show "seat_check s" if "s \<in> set (seats d')" for s
    using that inventory_seat_check [OF ok] unfolding seats'
    by (fastforce simp: set_update_where seat_check_def)
  show "\<exists>a \<in> set (assignments d'). active a \<and> sa_seat a = fs_id s"
    if s: "s \<in> set (seats d')" "taken s" for s
  proof -
    from s(1) obtain s0 where s0: "s0 \<in> set (seats d0)" "s = (if ?p s0 then ?f s0 else s0)"
      by (auto simp: seats' set_update_where)
    show ?thesis
    proof (cases "?p s0")
      case True
      then obtain sel where "sel \<in> set (Seats p)" "fs_id s0 = uuid_of E (FlightSeatID sel)"
        by (auto simp: seat_uuids_def)
      with placed True s0(2) asg' show ?thesis
        by (auto simp: placed_def assigned_to_def active_def)
    next
      case False
      with picked s0(1) have out: "fs_id s0 \<notin> ?ids" by blast
      have "s = s0" using s0(2) False by auto
      with s(2) have "taken s0" by simp
      with ok s0(1) obtain a where a: "a \<in> set (assignments d0)" "active a" "sa_seat a = fs_id s0"
        by (rule inventory_taken)
      with out res have "a \<in> set (assignments d)" by (auto simp: reseated_def)
      with a False s0(2) asg' show ?thesis by auto
    qed
  qed
  show "\<exists>s \<in> set (seats d'). taken s \<and> seat_matches s a"
    if a: "a \<in> set (assignments d')" "active a" for a
  proof (cases "sa_seat a \<in> ?ids")
    case True
    then obtain sel where sel: "sel \<in> set (Seats p)" "sa_seat a = uuid_of E (FlightSeatID sel)"
      by (auto simp: seat_uuids_def)
    with placed obtain b s where b: "b \<in> set (assignments d)" "assigned_to E p h sel b"
      and s: "s \<in> set (seats d0)" "fs_id s = sa_seat a" by (auto simp: placed_def)
    have "b = a"
      using b sel(2) a asg' res assigned_to_active [OF b(2)]
      by (auto simp: reseated_def assigned_to_def intro: active_unique_same)
    have "?p s" using picked s True by simp
    with s(1) have "?f s \<in> set (seats d')" by (force simp: seats' set_update_where)
    moreover have "taken (?f s) \<and> seat_matches (?f s) a"
      using b(2) \<open>b = a\<close> s(2) \<open>?p s\<close> by (auto simp: taken_def seat_matches_def assigned_to_def)
    ultimately show ?thesis by blast
  next
    case False
    with a asg' res have a0: "a \<in> set (assignments d0)" by (auto simp: reseated_def)
    from ok a0 a(2) obtain s where s: "s \<in> set (seats d0)" "taken s" "seat_matches s a"
      by (rule inventory_active)
    with False have "\<not> ?p s" by (auto simp: seat_matches_def)
    with s have "s \<in> set (seats d')" by (force simp: seats' set_update_where)
    with s show ?thesis by blast
  qed
qed

end
