(* ===== verification/HoldSpec.thy ===== *)
theory HoldSpec
  imports HoldSafety
begin

text \<open>
  The specification of \<open>HoldSeats\<close> and the proof that the stages of the code meet it:
  \<open>held\<close> relates the databases before and after a committed hold; the response is either a
  replay of a recorded one, with nothing written, or that of a committed hold.
\<close>

subsection \<open>The stages\<close>

definition hold_time :: "booking_store \<Rightarrow> booking_status \<Rightarrow> ts option \<Rightarrow> ts \<Rightarrow> ts \<Rightarrow> ts \<Rightarrow> bool" where
  "hold_time store bst bhold departure t h \<longleftrightarrow>
     t < departure \<and>
     ((bst = B_DRAFT \<and> h = min departure (t + seatHoldDuration store)) \<or>
      (bst = B_HELD \<and> (\<exists>old. bhold = Some old \<and> t < old \<and> h = min departure old)))"

lemma hold_eligibility_Inr:
  assumes "hold_eligibility p E w = (Inr (bst, bhold, departure), w')"
  shows "db w' = db w \<and> txn w' = txn w \<and>
    (\<exists>sst. booking_and_segment (uuid_of E (BookingID p)) (uuid_of E (BookingSegmentID p))
        (uuid_of E (FlightInstanceID p)) (uuid_of E (UserID p)) (db w) = Some (bst, bhold, sst) \<and>
      (sst = S_DRAFT \<or> sst = S_HELD)) \<and>
    (\<exists>fi \<in> set (flights (db w)). fi_id fi = uuid_of E (FlightInstanceID p) \<and> departure = fi_departure fi \<and>
       (fi_status fi = SCHEDULED \<or> fi_status fi = DELAYED)) \<and>
    length (eligible_rows (uuid_of E (BookingSegmentID p)) (seat_uuids E (Seats p)) (db w)) = length (Seats p)"
  using assms
  by (auto simp: hold_eligibility_def run_simps split: option.splits prod.splits dest!: find_row_SomeD)

lemma booking_and_segment_Some:
  assumes "booking_and_segment b s f u d = Some (bst, bhold, sst)"
  shows "\<exists>bk \<in> set (bookings d). \<exists>sg \<in> set (segments d). b_id bk = b \<and> b_user bk = Some u \<and>
    b_status bk = bst \<and> b_hold bk = bhold \<and> bs_id sg = s \<and> bs_booking sg = b \<and> bs_flight sg = f \<and> bs_status sg = sst"
proof -
  have "r \<in> set rows" if "first_row rows = Some r" for r and rows :: "'a list"
    using that by (cases rows) (auto simp: first_row_def)
  from this [OF assms [unfolded booking_and_segment_def]] show ?thesis by auto
qed

lemma hold_deadline_Inr:
  assumes "hold_deadline store bst bhold E w = (Inr h, w')"
  shows "db w' = db w \<and> txn w' = txn w \<and> (bst = B_DRAFT \<or> (bst = B_HELD \<and> bhold = Some h))"
  using assms
  by (auto simp: hold_deadline_def run_simps Let_def split: booking_status.splits option.splits if_splits)

lemma hold_locks_Inr:
  assumes "hold_locks store p bst bhold departure h0 E w = (Inr (L, M, t, h), w')"
    and "bst = B_DRAFT \<or> (bst = B_HELD \<and> bhold = Some h0)"
  shows "db w' = db w \<and> txn w' = txn w \<and> (\<exists>n. t = clock E n) \<and> hold_time store bst bhold departure t h \<and>
    (\<forall>k ls. map_of L k = Some ls \<longrightarrow>
       (\<exists>s \<in> set (seats (db w)). uuid_text E (fs_id s) = k \<and> ls = locked_seat_of E s \<and>
          fs_flight s = uuid_of E (FlightInstanceID p))) \<and>
    (\<forall>k la. map_of M k = Some la \<longrightarrow>
       (\<exists>a \<in> set (assignments (db w)). active a \<and> uuid_text E (sa_seat a) = k \<and> la = locked_assignment_of E a)) \<and>
    (\<forall>k. map_of M k = None \<longrightarrow>
       (\<forall>a \<in> set (assignments (db w)). active a \<and> sa_seat a \<in> set (seat_uuids E (Seats p)) \<longrightarrow> uuid_text E (sa_seat a) \<noteq> k))"
proof -
  from assms(1) obtain u w1 w2 w3 where s:
    "lockPassengers (BookingID p) (Seats p) E w = (Inr u, w1)"
    "lockFlightSeats (FlightInstanceID p) (Seats p) E w1 = (Inr L, w2)"
    "lockSeatAssignments (Seats p) E w2 = (Inr M, w3)"
    and t: "\<not> (bst = B_HELD \<and> (case bhold of None \<Rightarrow> True | Some h \<Rightarrow> \<not> h > t))" "departure > t"
      "h = (let n = (if bst = B_DRAFT then t + seatHoldDuration store else h0) in if n > departure then departure else n)"
    and w': "db w' = db w3" "txn w' = txn w3" "t = clock E (pc w3)"
    by (auto simp: hold_locks_def andthen_Inr Let_def run_simps)
  from t assms(2) have "hold_time store bst bhold departure t h"
    by (auto simp: hold_time_def Let_def min_def split: if_splits)
  with lockPassengers_Inr [OF s(1)] lockFlightSeats_Inr [OF s(2)] lockSeatAssignments_Inr [OF s(3)] w'
  show ?thesis by auto
qed

lemma hold_finish_Inr:
  assumes "hold_finish p record h E w = (Inr x, w')"
  shows "\<exists>S B I X. x = Commit (Inr \<lparr>hold_booking = BookingID p, hold_seats = map FlightSeatID (Seats p), hold_expires = h\<rparr>) \<and>
    db w' = (db w)\<lparr>segments := S, bookings := B, idem_records := I, outbox := X\<rparr> \<and>
    S = update_where (\<lambda>r. bs_id r = uuid_of E (BookingSegmentID p) \<and> bs_booking r = uuid_of E (BookingID p))
          (\<lambda>r. r\<lparr>bs_status := S_HELD\<rparr>) (segments (db w)) \<and>
    B = update_where (\<lambda>r. b_id r = uuid_of E (BookingID p))
          (\<lambda>r. r\<lparr>b_status := B_HELD, b_hold := Some h, b_version := b_version r + 1\<rparr>) (bookings (db w)) \<and>
    (\<forall>b \<in> set (bookings (db w)). b_id b = uuid_of E (BookingID p) \<longrightarrow> transition_ok (b_status b) B_HELD) \<and>
    (\<exists>e. X = outbox (db w) @ [e] \<and> ob_aggregate e = uuid_of E (BookingID p) \<and> ob_type e = ''SEATS_HELD'' \<and>
         ob_delivered e = None) \<and>
    I = idem_records (db w) @ (case record of None \<Rightarrow> [] | Some r \<Rightarrow>
      [\<lparr>ir_user = uuid_of E (rec_user r), ir_route = rec_route r, ir_key = rec_key r, ir_hash = rec_hash r,
        ir_resource = uuid_of E (BookingID p),
        ir_response = seat_hold_json \<lparr>hold_booking = BookingID p, hold_seats = map FlightSeatID (Seats p), hold_expires = h\<rparr>\<rparr>])"
  using assms
  by (cases "record") (auto simp: hold_finish_def run_simps op_defs Let_def)

subsection \<open>A committed hold\<close>

text \<open>\<open>t\<close> is the time the code read after it had every lock, \<open>h\<close> the expiry of the hold.\<close>

definition held :: "env \<Rightarrow> booking_store \<Rightarrow> hold_params \<Rightarrow> ts \<Rightarrow> ts \<Rightarrow> database \<Rightarrow> database \<Rightarrow> bool" where
  "held E store p t h d d' \<longleftrightarrow>
     (\<exists>n. t = clock E n) \<and>
     (\<exists>bst bhold sst fi.
        booking_and_segment (uuid_of E (BookingID p)) (uuid_of E (BookingSegmentID p))
          (uuid_of E (FlightInstanceID p)) (uuid_of E (UserID p)) d = Some (bst, bhold, sst) \<and>
        (sst = S_DRAFT \<or> sst = S_HELD) \<and>
        fi \<in> set (flights d) \<and> fi_id fi = uuid_of E (FlightInstanceID p) \<and>
        (fi_status fi = SCHEDULED \<or> fi_status fi = DELAYED) \<and>
        hold_time store bst bhold (fi_departure fi) t h) \<and>
     length (eligible_rows (uuid_of E (BookingSegmentID p)) (seat_uuids E (Seats p)) d) = length (Seats p) \<and>
     (\<forall>sel \<in> set (Seats p). placed E p t h (set (seats d)) (assignments d') sel) \<and>
     reseated (assignments d) (assignments d') (set (seat_uuids E (Seats p))) \<and>
     seats d' = update_where
       (\<lambda>s. fs_flight s = uuid_of E (FlightInstanceID p) \<and> fs_id s \<in> set (seat_uuids E (Seats p)))
       (\<lambda>s. s\<lparr>fs_booking := Some (uuid_of E (BookingID p)), fs_state := SEAT_HELD, fs_hold := Some h,
              fs_version := fs_version s + 1\<rparr>) (seats d) \<and>
     segments d' = update_where
       (\<lambda>r. bs_id r = uuid_of E (BookingSegmentID p) \<and> bs_booking r = uuid_of E (BookingID p))
       (\<lambda>r. r\<lparr>bs_status := S_HELD\<rparr>) (segments d) \<and>
     bookings d' = update_where (\<lambda>r. b_id r = uuid_of E (BookingID p))
       (\<lambda>r. r\<lparr>b_status := B_HELD, b_hold := Some h, b_version := b_version r + 1\<rparr>) (bookings d) \<and>
     (\<exists>e. outbox d' = outbox d @ [e] \<and> ob_aggregate e = uuid_of E (BookingID p) \<and>
          ob_type e = ''SEATS_HELD'' \<and> ob_delivered e = None) \<and>
     payments d' = payments d \<and> refunds d' = refunds d \<and> flights d' = flights d \<and> users d' = users d"

definition hold_response :: "hold_params \<Rightarrow> ts \<Rightarrow> seat_hold" where
  "hold_response p h =
     \<lparr>hold_booking = BookingID p, hold_seats = map FlightSeatID (Seats p), hold_expires = h\<rparr>"

lemma seen_all:
  assumes codec: "uuid_codec E" and normal: "hold_normal E p" and ok: "inventory_ok d"
    and sel: "sel \<in> set (Seats p)"
    and M: "\<forall>k la. map_of M k = Some la \<longrightarrow>
       (\<exists>a \<in> set (assignments d). active a \<and> uuid_text E (sa_seat a) = k \<and> la = locked_assignment_of E a)"
    and M0: "\<forall>k. map_of M k = None \<longrightarrow>
       (\<forall>a \<in> set (assignments d). active a \<and> sa_seat a \<in> set (seat_uuids E (Seats p)) \<longrightarrow> uuid_text E (sa_seat a) \<noteq> k)"
  shows "seen E M (set (seats d)) (assignments d) sel"
proof -
  from normal sel have canon: "canonical E (FlightSeatID sel)" by (auto simp: hold_normal_def list_all_iff)
  note txt_eq = canonical_text_eq [OF codec canon]
  have "sa_flight a = fs_flight s"
    if "a \<in> set (assignments d)" "s \<in> set (seats d)" "active a" "fs_id s = sa_seat a" for a s
  proof -
    from ok that(1,3) obtain s' where s': "s' \<in> set (seats d)" "seat_matches s' a"
      by (auto elim: inventory_active)
    then have "fs_id s' = fs_id s" using that(4) by (simp add: seat_matches_def)
    with inventory_seats_distinct [OF ok] s'(1) that(2) have "s' = s" by (blast intro: distinct_map_same)
    with s' show ?thesis by (simp add: seat_matches_def)
  qed
  moreover have "sa_seat a \<noteq> uuid_of E (FlightSeatID sel)"
    if "map_of M (FlightSeatID sel) = None" "a \<in> set (assignments d)" "active a" for a
    using M0 that txt_eq sel by (auto simp: seat_uuids_def)
  moreover have "\<exists>a \<in> set (assignments d). active a \<and> sa_seat a = uuid_of E (FlightSeatID sel) \<and> la = locked_assignment_of E a"
    if "map_of M (FlightSeatID sel) = Some la" for la
    using M that txt_eq by blast
  ultimately show ?thesis unfolding seen_def by blast
qed

lemma hold_work_Inr:
  assumes codec: "uuid_codec E" and normal: "hold_normal E p" and ok: "inventory_ok (db w)"
    and run: "hold_work store p record E w = (Inr x, w')"
  shows "\<exists>t h. x = Commit (Inr (hold_response p h)) \<and> held E store p t h (db w) (db w') \<and> inventory_ok (db w') \<and>
    idem_records (db w') = idem_records (db w) @ (case record of None \<Rightarrow> [] | Some r \<Rightarrow>
      [\<lparr>ir_user = uuid_of E (rec_user r), ir_route = rec_route r, ir_key = rec_key r, ir_hash = rec_hash r,
        ir_resource = uuid_of E (BookingID p), ir_response = seat_hold_json (hold_response p h)\<rparr>])"
proof -
  from run obtain bst bhold departure w1 h0 w2 L M t h w3 u4 w4 u5 w5 where
    s1: "hold_eligibility p E w = (Inr (bst, bhold, departure), w1)" and
    s2: "hold_deadline store bst bhold E w1 = (Inr h0, w2)" and
    s3: "hold_locks store p bst bhold departure h0 E w2 = (Inr (L, M, t, h), w3)" and
    s4: "applySeatAssignments p L M t h E w3 = (Inr u4, w4)" and
    s5: "markFlightSeatsHeld p h E w4 = (Inr u5, w5)" and
    s6: "hold_finish p record h E w5 = (Inr x, w')"
    by (auto simp: hold_work_def andthen_Inr split: prod.splits)
  note e1 = hold_eligibility_Inr [OF s1] and e2 = hold_deadline_Inr [OF s2]
  from e2 have clk: "\<exists>n. t = clock E n" and e3: "db w3 = db w" "hold_time store bst bhold departure t h"
    "\<And>k ls. map_of L k = Some ls \<Longrightarrow> \<exists>s \<in> set (seats (db w)). uuid_text E (fs_id s) = k \<and> ls = locked_seat_of E s \<and>
          fs_flight s = uuid_of E (FlightInstanceID p)"
    "\<forall>k la. map_of M k = Some la \<longrightarrow>
       (\<exists>a \<in> set (assignments (db w)). active a \<and> uuid_text E (sa_seat a) = k \<and> la = locked_assignment_of E a)"
    "\<forall>k. map_of M k = None \<longrightarrow>
       (\<forall>a \<in> set (assignments (db w)). active a \<and> sa_seat a \<in> set (seat_uuids E (Seats p)) \<longrightarrow> uuid_text E (sa_seat a) \<noteq> k)"
    using hold_locks_Inr [OF s3] e1 by simp_all
  have "\<forall>sel \<in> set (Seats p). seen E M (set (seats (db w))) (assignments (db w3)) sel"
    using seen_all [OF codec normal ok _ e3(4,5)] e3(1) by simp
  moreover have "active_unique (assignments (db w3))" "distinct (map sa_id (assignments (db w3)))"
    using ok e3(1) by (simp_all add: inventory_active_unique inventory_assignments_distinct)
  moreover have "distinct (map FlightSeatID (Seats p))" using normal by (simp add: hold_normal_def)
  ultimately obtain A' where A': "db w4 = (db w3)\<lparr>assignments := A'\<rparr>"
    "reseated (assignments (db w3)) A' (set (seat_uuids E (Seats p)))"
    "\<forall>sel \<in> set (Seats p). placed E p t h (set (seats (db w))) A' sel"
    using apply_loop [OF codec normal e3(3) order.refl _ s4 [unfolded applySeatAssignments_def]] by blast
  have d4: "seats (db w4) = seats (db w)" "reseated (assignments (db w)) (assignments (db w4)) (set (seat_uuids E (Seats p)))"
    "\<forall>sel \<in> set (Seats p). placed E p t h (set (seats (db w))) (assignments (db w4)) sel"
    using A' e3(1) by simp_all
  note e5 = markFlightSeatsHeld_Inr [OF s5]
  have ok5: "inventory_ok (db w5)"
    using mark_inventory_ok [OF ok d4] e5 by blast
  from hold_finish_Inr [OF s6] obtain S B I X where f: "x = Commit (Inr (hold_response p h))"
    "db w' = (db w5)\<lparr>segments := S, bookings := B, idem_records := I, outbox := X\<rparr>"
    "S = update_where (\<lambda>r. bs_id r = uuid_of E (BookingSegmentID p) \<and> bs_booking r = uuid_of E (BookingID p))
          (\<lambda>r. r\<lparr>bs_status := S_HELD\<rparr>) (segments (db w))"
    "B = update_where (\<lambda>r. b_id r = uuid_of E (BookingID p))
          (\<lambda>r. r\<lparr>b_status := B_HELD, b_hold := Some h, b_version := b_version r + 1\<rparr>) (bookings (db w))"
    "\<exists>e. X = outbox (db w) @ [e] \<and> ob_aggregate e = uuid_of E (BookingID p) \<and> ob_type e = ''SEATS_HELD'' \<and>
         ob_delivered e = None"
    "I = idem_records (db w) @ (case record of None \<Rightarrow> [] | Some r \<Rightarrow>
      [\<lparr>ir_user = uuid_of E (rec_user r), ir_route = rec_route r, ir_key = rec_key r, ir_hash = rec_hash r,
        ir_resource = uuid_of E (BookingID p), ir_response = seat_hold_json (hold_response p h)\<rparr>])"
    using e5 A'(1) e3(1) unfolding hold_response_def by auto
  have "held E store p t h (db w) (db w')"
    using clk e1 e3(2) d4 e5 f(2-5) A'(1) e3(1) unfolding held_def by auto
  moreover have "inventory_ok (db w')" using ok5 f(2) by simp
  ultimately show ?thesis using f(1,2,6) by auto
qed

end
