(* ===== verification/HoldRun.thy ===== *)
theory HoldRun
  imports HoldSpec
begin

text \<open>
  How a call of \<open>HoldSeats\<close> ends: the normal form of the request, the two ways to succeed,
  and the interpretation of \<open>idempotent_mutation\<close>.
\<close>

subsection \<open>The normal form of a request\<close>

text \<open>What \<open>normalizeHoldParams\<close> returns does not depend on the UUID parser, which only
  accepts or rejects.\<close>

definition norm_text :: "string \<Rightarrow> string" where
  "norm_text s = ToLower (TrimSpace s)"

definition norm_selection :: "seat_selection \<Rightarrow> seat_selection" where
  "norm_selection s = \<lparr>PassengerID = norm_text (PassengerID s), FlightSeatID = norm_text (FlightSeatID s)\<rparr>"

definition hold_form :: "hold_params \<Rightarrow> hold_params" where
  "hold_form q = \<lparr>UserID = norm_text (UserID q), IdempotencyKey = IdempotencyKey q,
     BookingID = norm_text (BookingID q), BookingSegmentID = norm_text (BookingSegmentID q),
     FlightInstanceID = norm_text (FlightInstanceID q),
     Seats = sort_by seat_order (map norm_selection (Seats q))\<rparr>"

lemma normalize_selections_form:
  "normalize_selections E ps ss sels = Inr xs \<Longrightarrow> xs = map norm_selection sels"
  by (induction sels arbitrary: ps ss xs)
    (auto simp: norm_selection_def norm_text_def normalizeUUID_Some_iff split: option.splits if_splits sum.splits)

lemma normalizeHoldParams_form:
  "normalizeHoldParams E q = Inr p \<Longrightarrow> p = hold_form q"
  by (auto simp: normalizeHoldParams_def hold_form_def norm_text_def normalizeUUID_Some_iff
      split: if_splits option.splits sum.splits dest!: normalize_selections_form)

subsection \<open>Round trip of the response\<close>

lemma json_strings_map [simp]: "json_strings (map JStr xs) = Some xs"
  by (induction xs) auto

lemma decode_seat_hold_json [simp]: "decode_seat_hold (seat_hold_json h) = Some h"
  by (cases h) (simp add: seat_hold_json_def)

subsection \<open>How a call ends\<close>

lemma hold_body_end:
  assumes "hold_body store p E w = (Inr (Commit q), w')"
  obtains rec w1 where "hold_work store p rec E w1 = (Inr (Commit q), w')"
    and "db w1 = db w" and "txn w1 = txn w"
    and "rec = (if IdempotencyKey p = [] then None else
           Some \<lparr>rec_user = UserID p, rec_route = hold_route p, rec_key = IdempotencyKey p,
                 rec_hash = request_hash E (hold_params_json p)\<rparr>)"
    and "IdempotencyKey p \<noteq> [] \<Longrightarrow> idempotency_Valid (IdempotencyKey p) \<and>
           idem_lookup (uuid_of E (UserID p)) (hold_route p) (IdempotencyKey p) (db w) = None"
proof -
  from assms obtain u w1 where r: "reconcileHeldInventory (FlightInstanceID p) E w = (Inr u, w1)"
    and rest: "(if IdempotencyKey p \<noteq> [] then
       andthen (idem_begin (UserID p) (hold_route p) (IdempotencyKey p) (hold_params_json p) decode_seat_hold) (\<lambda>begun.
       case begun of Replay previous \<Rightarrow> ret (Rollback (Inr previous))
       | Fresh record \<Rightarrow> hold_work store p (Some record))
     else hold_work store p None) E w1 = (Inr (Commit q), w')"
    by (auto simp: hold_body_def andthen_Inr)
  note d = reconcile_Inr [OF r]
  show thesis
  proof (cases "IdempotencyKey p = []")
    case True
    with rest d show thesis by (intro that [of None w1]) auto
  next
    case False
    with rest obtain b w2 where b: "idem_begin (UserID p) (hold_route p) (IdempotencyKey p)
        (hold_params_json p) decode_seat_hold E w1 = (Inr b, w2)"
      "(case b of Replay previous \<Rightarrow> ret (Rollback (Inr previous))
       | Fresh record \<Rightarrow> hold_work store p (Some record)) E w2 = (Inr (Commit q), w')"
      by (auto simp: andthen_Inr)
    then obtain rec where rec: "b = Fresh rec" "hold_work store p (Some rec) E w2 = (Inr (Commit q), w')"
      by (cases b) (auto simp: run_simps)
    with b(1) False d show thesis by (intro that [OF rec(2)]) (auto simp: idem_begin_Fresh)
  qed
qed

lemma hold_work_end:
  assumes "hold_work store p record E w = (Inr x, w')"
  shows "\<exists>h. x = Commit (Inr (hold_response p h)) \<and>
    idem_records (db w') = idem_records (db w) @ (case record of None \<Rightarrow> [] | Some r \<Rightarrow>
      [\<lparr>ir_user = uuid_of E (rec_user r), ir_route = rec_route r, ir_key = rec_key r, ir_hash = rec_hash r,
        ir_resource = uuid_of E (BookingID p), ir_response = seat_hold_json (hold_response p h)\<rparr>])"
proof -
  from assms obtain bst bhold departure w1 h0 w2 L M t h w3 u4 w4 u5 w5 where
    s1: "hold_eligibility p E w = (Inr (bst, bhold, departure), w1)" and
    s2: "hold_deadline store bst bhold E w1 = (Inr h0, w2)" and
    s3: "hold_locks store p bst bhold departure h0 E w2 = (Inr (L, M, t, h), w3)" and
    s4: "applySeatAssignments p L M t h E w3 = (Inr u4, w4)" and
    s5: "markFlightSeatsHeld p h E w4 = (Inr u5, w5)" and
    s6: "hold_finish p record h E w5 = (Inr x, w')"
    by (auto simp: hold_work_def andthen_Inr split: prod.splits)
  have "idem_records (db w5) = idem_records (db w)"
  proof -
    have "db w2 = db w" using hold_eligibility_Inr [OF s1] hold_deadline_Inr [OF s2] by simp
    moreover have "db w3 = db w2"
      using hold_locks_Inr [OF s3] hold_deadline_Inr [OF s2] by simp
    moreover have "idem_records (db w4) = idem_records (db w3)"
    proof -
      have "keeps (\<lambda>d. idem_records d = idem_records (db w3)) (applySeatAssignments p L M t h)"
        unfolding applySeatAssignments_def
      proof (intro keeps_for_each)
        fix sel
        have ins: "keeps (\<lambda>d. idem_records d = idem_records (db w3)) (insert_hold p sel h)"
          unfolding insert_hold_def by (intro keeps_map_err keeps_stmt) (auto simp: insert_assignment_Inr)
        have exp: "keeps (\<lambda>d. idem_records d = idem_records (db w3)) (expire_assignment la)" for la
          unfolding expire_assignment_def exec_update_assignments_def
          by (intro keeps_rules keeps_stmt) (auto simp: update_assignments_Inr)
        show "keeps (\<lambda>d. idem_records d = idem_records (db w3)) (apply_selection p L M t h sel)"
          unfolding apply_selection_def Let_def
          by (auto split: option.splits seat_state.splits intro!: keeps_rules ins exp)
      qed
      from keepsD [OF this s4] show ?thesis by simp
    qed
    ultimately show ?thesis using markFlightSeatsHeld_Inr [OF s5] by simp
  qed
  with hold_finish_Inr [OF s6] show ?thesis
    unfolding hold_response_def by (intro exI [of _ h]) auto
qed

lemma hold_commits_success:
  "hold_body store p E w = (Inr (Commit q), w') \<Longrightarrow> \<exists>a. q = Inr a"
  by (elim hold_body_end) (auto dest: hold_work_end)

lemma hold_rolls_back_replay:
  assumes "hold_body store p E w = (Inr (Rollback q), w')"
  shows "IdempotencyKey p \<noteq> [] \<and> idempotency_Valid (IdempotencyKey p) \<and>
    (\<exists>r a. q = Inr a \<and> idem_lookup (uuid_of E (UserID p)) (hold_route p) (IdempotencyKey p) (db w) = Some r \<and>
       ir_hash r = request_hash E (hold_params_json p) \<and> decode_seat_hold (ir_response r) = Some a)"
proof -
  have work: "hold_work store p rec E v \<noteq> (Inr (Rollback q), v')" for rec v v'
    using hold_work_end by fastforce
  from assms obtain u w1 where r: "reconcileHeldInventory (FlightInstanceID p) E w = (Inr u, w1)"
    and rest: "(if IdempotencyKey p \<noteq> [] then
       andthen (idem_begin (UserID p) (hold_route p) (IdempotencyKey p) (hold_params_json p) decode_seat_hold) (\<lambda>begun.
       case begun of Replay previous \<Rightarrow> ret (Rollback (Inr previous))
       | Fresh record \<Rightarrow> hold_work store p (Some record))
     else hold_work store p None) E w1 = (Inr (Rollback q), w')"
    by (auto simp: hold_body_def andthen_Inr)
  from rest work have key: "IdempotencyKey p \<noteq> []" by auto
  with rest obtain b w2 where b: "idem_begin (UserID p) (hold_route p) (IdempotencyKey p)
      (hold_params_json p) decode_seat_hold E w1 = (Inr b, w2)"
    "(case b of Replay previous \<Rightarrow> ret (Rollback (Inr previous))
     | Fresh record \<Rightarrow> hold_work store p (Some record)) E w2 = (Inr (Rollback q), w')"
    by (auto simp: andthen_Inr)
  then obtain a where "b = Replay a" "q = Inr a"
    using work by (cases b) auto
  with b key reconcile_Inr [OF r] show ?thesis by (auto simp: idem_begin_Replay)
qed

lemma HoldSeats_run:
  assumes "HoldSeats store q E w = (r, w')"
  shows "(\<exists>e. normalizeHoldParams E q = Inl e \<and> r = Inl e \<and> w' = w) \<or>
    (normalizeHoldParams E q = Inr (hold_form q) \<and>
     in_tx_with (Wrap ''begin seat hold transaction'') (Wrap ''commit seat hold transaction'')
       (hold_body store (hold_form q)) E w = (r, w'))"
proof (cases "normalizeHoldParams E q")
  case (Inl e)
  with assms show ?thesis by (simp add: HoldSeats_def andthen_def)
next
  case (Inr p)
  with normalizeHoldParams_form [OF Inr] assms show ?thesis by (simp add: HoldSeats_def andthen_def)
qed

text \<open>A success replays a recorded response and writes nothing, or commits a new hold.\<close>

lemma HoldSeats_Inr:
  assumes "HoldSeats store q E w = (Inr r, w')"
  obtains (replayed) rec where "normalizeHoldParams E q = Inr (hold_form q)" and "db w' = db w"
      and "idempotency_Valid (IdempotencyKey q)" and "IdempotencyKey q \<noteq> []"
      and "idem_lookup (uuid_of E (UserID (hold_form q))) (hold_route (hold_form q)) (IdempotencyKey q) (db w) = Some rec"
      and "ir_hash rec = request_hash E (hold_params_json (hold_form q))" and "decode_seat_hold (ir_response rec) = Some r"
  | (fresh) rec w1 w2 where "normalizeHoldParams E q = Inr (hold_form q)"
      and "hold_work store (hold_form q) rec E w1 = (Inr (Commit (Inr r)), w2)"
      and "db w1 = db w" and "db w2 = db w'" and "txn w1 = clock E (pc w)"
      and "rec = (if IdempotencyKey q = [] then None else
             Some \<lparr>rec_user = UserID (hold_form q), rec_route = hold_route (hold_form q), rec_key = IdempotencyKey q,
                   rec_hash = request_hash E (hold_params_json (hold_form q))\<rparr>)"
      and "IdempotencyKey q \<noteq> [] \<Longrightarrow> idempotency_Valid (IdempotencyKey q) \<and>
             idem_lookup (uuid_of E (UserID (hold_form q))) (hold_route (hold_form q)) (IdempotencyKey q) (db w) = None"
proof -
  have key: "IdempotencyKey (hold_form q) = IdempotencyKey q" by (simp add: hold_form_def)
  from HoldSeats_run [OF assms] have n: "normalizeHoldParams E q = Inr (hold_form q)"
    and run: "in_tx_with (Wrap ''begin seat hold transaction'') (Wrap ''commit seat hold transaction'')
       (hold_body store (hold_form q)) E w = (Inr r, w')" by auto
  from run show thesis
  proof (cases rule: in_tx_with_Inr)
    case (rolled_back w2)
    from hold_rolls_back_replay [OF rolled_back(2)] rolled_back(3) n key show thesis
      by (auto intro: replayed)
  next
    case (committed w2)
    from committed(2) obtain rec w1 where h:
      "hold_work store (hold_form q) rec E w1 = (Inr (Commit (Inr r)), w2)"
      "db w1 = db w" "txn w1 = clock E (pc w)"
      "rec = (if IdempotencyKey (hold_form q) = [] then None else
           Some \<lparr>rec_user = UserID (hold_form q), rec_route = hold_route (hold_form q), rec_key = IdempotencyKey (hold_form q),
                 rec_hash = request_hash E (hold_params_json (hold_form q))\<rparr>)"
      "IdempotencyKey (hold_form q) \<noteq> [] \<Longrightarrow> idempotency_Valid (IdempotencyKey (hold_form q)) \<and>
         idem_lookup (uuid_of E (UserID (hold_form q))) (hold_route (hold_form q)) (IdempotencyKey (hold_form q)) (db w) = None"
      by (rule hold_body_end) auto
    from committed(4) have "db w2 = db w'" by simp
    with h n key show thesis by (intro fresh [OF n h(1,2)]) auto
  qed
qed

lemma HoldSeats_committed:
  assumes codec: "uuid_codec E" and ok: "inventory_ok (db w)"
    and run: "HoldSeats store q E w = (Inr r, w')"
  shows "inventory_ok (db w') \<and>
    (db w' = db w \<or> (\<exists>t h. held E store (hold_form q) t h (db w) (db w') \<and> r = hold_response (hold_form q) h))"
  using run
proof (cases rule: HoldSeats_Inr)
  case (replayed rec)
  with ok show ?thesis by simp
next
  case (fresh rec w1 w2)
  from normalizeHoldParams_normal [OF fresh(1)] ok fresh(3) hold_work_Inr [OF codec _ _ fresh(2)]
  obtain t h where "held E store (hold_form q) t h (db w1) (db w2)" "r = hold_response (hold_form q) h"
    "inventory_ok (db w2)" by auto
  with fresh(3,4) show ?thesis by auto
qed

lemma HoldSeats_failed:
  assumes "HoldSeats store q E w = (Inl e, w')"
  shows "db w' = db w"
  using HoldSeats_run [OF assms]
  by (auto dest!: in_tx_with_Inl_unchanged dest: hold_commits_success)

subsection \<open>Idempotency\<close>

lemma HoldSeats_lookup:
  assumes n: "normalizeHoldParams E q = Inr (hold_form q)" and key: "IdempotencyKey q \<noteq> []"
    and valid: "idempotency_Valid (IdempotencyKey q)" and quiet: "\<And>n. fault E n = None"
    and rec: "idem_lookup (uuid_of E (UserID (hold_form q))) (hold_route (hold_form q)) (IdempotencyKey q) (db w) = Some rec"
  shows "\<exists>w'. HoldSeats store q E w =
      (if ir_hash rec \<noteq> request_hash E (hold_params_json (hold_form q)) then Inl IdemErrConflict
       else case decode_seat_hold (ir_response rec) of None \<Rightarrow> Inl (OtherError ''json'') | Some a \<Rightarrow> Inr a, w')
      \<and> db w' = db w"
proof -
  let ?p = "hold_form q" and ?w = "w\<lparr>pc := Suc (pc w), txn := clock E (pc w)\<rparr>"
  have k: "IdempotencyKey ?p = IdempotencyKey q" by (simp add: hold_form_def)
  from reconcile_runs [OF quiet] obtain n1 where r:
    "reconcileHeldInventory (FlightInstanceID ?p) E ?w = (Inr (), ?w\<lparr>pc := n1\<rparr>)" by blast
  have "nop_stmt E w = (Inr (), w\<lparr>pc := Suc (pc w)\<rparr>)" using quiet by (simp add: nop_stmt_Inr)
  then show ?thesis
    using n key valid quiet rec r k
    by (auto simp: HoldSeats_def hold_body_def in_tx_with_def andthen_def idem_begin_def ensure_def
        nop_stmt_def stmt_def select_def Let_def split: option.splits)
qed

interpretation hold: idempotent_mutation
  "HoldSeats store (q\<lparr>IdempotencyKey := c # cs\<rparr>)" "UserID (hold_form q)" "hold_route (hold_form q)" "c # cs"
  "hold_params_json (hold_form (q\<lparr>IdempotencyKey := c # cs\<rparr>))" decode_seat_hold
  for store q c cs
proof
  let ?q = "q\<lparr>IdempotencyKey := c # cs\<rparr>"
  have form: "UserID (hold_form ?q) = UserID (hold_form q)" "hold_route (hold_form ?q) = hold_route (hold_form q)"
    by (simp_all add: hold_form_def hold_route_def)
  show "\<exists>r. idem_lookup (uuid_of E (UserID (hold_form q))) (hold_route (hold_form q)) (c # cs) (db w') = Some r \<and>
           ir_hash r = request_hash E (hold_params_json (hold_form ?q)) \<and> decode_seat_hold (ir_response r) = Some a"
    if run: "HoldSeats store ?q E w = (Inr a, w')" for E w a w'
    using run
  proof (cases rule: HoldSeats_Inr)
    case (replayed rec)
    with form show ?thesis by simp
  next
    case (fresh rec w1 w2)
    from fresh(2) hold_work_end obtain h where h: "Commit (Inr a) = Commit (Inr (hold_response (hold_form ?q) h))"
      "idem_records (db w2) = idem_records (db w1) @ (case rec of None \<Rightarrow> [] | Some r \<Rightarrow>
      [\<lparr>ir_user = uuid_of E (rec_user r), ir_route = rec_route r, ir_key = rec_key r, ir_hash = rec_hash r,
        ir_resource = uuid_of E (BookingID (hold_form ?q)), ir_response = seat_hold_json (hold_response (hold_form ?q) h)\<rparr>])"
      by blast
    have "idem_lookup (uuid_of E (UserID (hold_form q))) (hold_route (hold_form q)) (c # cs) (db w1) = None"
      using fresh(3,7) form by simp
    with h fresh(4,6) form show ?thesis by (auto simp: idem_lookup_def find_row_append)
  qed
next
  let ?q = "q\<lparr>IdempotencyKey := c # cs\<rparr>"
  have form: "UserID (hold_form ?q) = UserID (hold_form q)" "hold_route (hold_form ?q) = hold_route (hold_form q)"
    by (simp_all add: hold_form_def hold_route_def)
  have ready: "normalizeHoldParams E ?q = Inr (hold_form ?q) \<and> idempotency_Valid (c # cs)"
    if "HoldSeats store ?q E w0 = (Inr b, w0')" for E w0 b w0'
    using that by (cases rule: HoldSeats_Inr) auto
  show "\<exists>w'. HoldSeats store ?q E w = (Inr a, w') \<and> db w' = db w"
    if "idem_lookup (uuid_of E (UserID (hold_form q))) (hold_route (hold_form q)) (c # cs) (db w) = Some r"
      "ir_hash r = request_hash E (hold_params_json (hold_form ?q))" "decode_seat_hold (ir_response r) = Some a"
      "\<And>n. fault E n = None" "HoldSeats store ?q E w0 = (Inr b, w0')" for E w r a w0 b w0'
    using HoldSeats_lookup [of E ?q w r store] ready [OF that(5)] that(1-4) form by auto
  show "\<exists>w'. HoldSeats store ?q E w = (Inl IdemErrConflict, w') \<and> db w' = db w"
    if "idem_lookup (uuid_of E (UserID (hold_form q))) (hold_route (hold_form q)) (c # cs) (db w) = Some r"
      "ir_hash r \<noteq> request_hash E (hold_params_json (hold_form ?q))"
      "\<And>n. fault E n = None" "HoldSeats store ?q E w0 = (Inr b, w0')" for E w r w0 b w0'
    using HoldSeats_lookup [of E ?q w r store] ready [OF that(4)] that(1-3) form by auto
qed

end
