(* ===== verification/Demo.thy ===== *)
theory Demo
  imports Idempotency
begin

text \<open>
  A concrete environment and a small concrete database for the witnesses: ids are written
  as the text of \<open>demo_id n\<close> for \<open>n < 100\<close>, statement \<open>n\<close> runs \<open>n\<close> (at most 1000) microseconds after time
  1000 s, nothing fails, and the \<open>n\<close>-th statement draws ids from 200 on.
\<close>

definition digit_char :: "nat \<Rightarrow> char" where
  "digit_char n = char_of (48 + n)"

definition demo_prefix :: string where
  "demo_prefix = ''00000000-0000-4000-8000-0000000000''"

definition demo_text :: "uuid \<Rightarrow> string" where
  "demo_text u = (if u < 100 then demo_prefix @ [digit_char (u div 10), digit_char (u mod 10)]
                  else CHR ''u'' # replicate u CHR ''x'')"

definition is_digit :: "char \<Rightarrow> bool" where
  "is_digit c \<longleftrightarrow> 48 \<le> byte c \<and> byte c \<le> 57"

definition demo_scan :: "string \<Rightarrow> uuid option" where
  "demo_scan s =
     (if length s = 36 \<and> take 34 s = demo_prefix \<and> is_digit (s ! 34) \<and> is_digit (s ! 35)
      then Some (10 * (byte (s ! 34) - 48) + (byte (s ! 35) - 48)) else None)"

fun demo_json :: "jval \<Rightarrow> string" where
  "demo_json JNull = ''n''"
| "demo_json (JBool b) = (if b then ''t'' else ''f'')"
| "demo_json (JNum i) = ''#''"
| "demo_json (JStr s) = CHR ''s'' # s"
| "demo_json (JTime t) = ''@''"
| "demo_json (JArr xs) = concat (map demo_json xs)"
| "demo_json (JObj kvs) = concat (map (\<lambda>(k, v). k @ demo_json v) kvs)"

definition demo_env :: env where
  "demo_env = \<lparr>clock = (\<lambda>n. 1000 * second + int (min n 1000)), fault = (\<lambda>_. None),
     gen_uuid = (\<lambda>n k. 200 + 10 * n + k), row_locked = (\<lambda>_ _. False),
     scan_uuid = demo_scan, uuid_text = demo_text, marshal = demo_json, sha256 = (\<lambda>s. s),
     rand_read = (\<lambda>n len. Inr (replicate len (n mod 256))), wall_time = (\<lambda>n. 1000 * second + int n),
     lab_faults = []\<rparr>"

definition demo_world :: "'d \<Rightarrow> 'd world" where
  "demo_world d = \<lparr>db = d, pc = 0, draws = 0, txn = 0\<rparr>"

text \<open>User 1 has a DRAFT booking 2 (segment 3, passengers 5 and 6) on flight 4, whose seats
  11 and 12 are free and seat 13 is blocked; user 21 has a DRAFT booking 22 (segment 23,
  passenger 25) on the same flight.\<close>

definition demo_seat :: "uuid \<Rightarrow> uuid \<Rightarrow> seat_state \<Rightarrow> seat_row" where
  "demo_seat u a st = \<lparr>fs_id = u, fs_flight = 4, fs_aircraft_seat = a, fs_booking = None,
     fs_state = st, fs_hold = None, fs_version = 1\<rparr>"

definition demo_booking :: "uuid \<Rightarrow> uuid \<Rightarrow> uuid \<Rightarrow> string \<Rightarrow> booking_row" where
  "demo_booking u owner q pnr = \<lparr>b_id = u, b_user = Some owner, b_quote = q, b_pnr = pnr,
     b_status = B_DRAFT, b_total = 5000, b_currency = ''EGP'', b_hold = None, b_version = 1, b_created = 0\<rparr>"

definition demo_passenger :: "uuid \<Rightarrow> uuid \<Rightarrow> passenger_row" where
  "demo_passenger u b = \<lparr>bp_id = u, bp_booking = b, bp_type = ''ADULT'', bp_first = ''A'',
     bp_last = ''B'', bp_dob = None\<rparr>"

definition demo_segment :: "uuid \<Rightarrow> uuid \<Rightarrow> uuid \<Rightarrow> segment_row" where
  "demo_segment u b f = \<lparr>bs_id = u, bs_booking = b, bs_flight = f, bs_fare = 7, bs_status = S_DRAFT,
     bs_price = 4000, bs_taxes = 1000, bs_currency = ''EGP'', bs_refundable = True\<rparr>"

definition demo_item :: "uuid \<Rightarrow> nat \<Rightarrow> quote_item" where
  "demo_item q n = \<lparr>qi_quote = q, qi_flight = 4, qi_fare = 7, qi_count = n, qi_unit_price = 4000 div int n,
     qi_taxes = 1000 div int n, qi_total = 5000, qi_currency = ''EGP'', qi_refundable = True\<rparr>"

definition demo_quote :: "uuid \<Rightarrow> uuid \<Rightarrow> price_quote" where
  "demo_quote q u = \<lparr>pq_id = q, pq_user = Some u, pq_hash = ''h'', pq_status = Q_USED,
     pq_total = 5000, pq_currency = ''EGP'', pq_expires = 1600 * second\<rparr>"

definition demo_fare :: fare_offer where
  "demo_fare = \<lparr>fo_id = 7, fo_flight = 4, fo_cabin = ECONOMY, fo_price = 4000, fo_taxes = 1000,
     fo_currency = ''EGP'', fo_refundable = True, fo_active = True, fo_from = 0, fo_until = None\<rparr>"

definition demo_db :: database where
  "demo_db = empty_db\<lparr>
     users := [1, 21],
     flights := [\<lparr>fi_id = 4, fi_aircraft = 8, fi_departure = 90000 * second, fi_status = SCHEDULED\<rparr>],
     aircraft := [\<lparr>ac_id = 8, ac_type = 9\<rparr>],
     aircraft_seats := [\<lparr>ast_id = 31, ast_type = 9, ast_number = ''3A'', ast_cabin = ECONOMY\<rparr>,
                        \<lparr>ast_id = 32, ast_type = 9, ast_number = ''3B'', ast_cabin = ECONOMY\<rparr>,
                        \<lparr>ast_id = 33, ast_type = 9, ast_number = ''3C'', ast_cabin = ECONOMY\<rparr>],
     fares := [demo_fare],
     quotes := [demo_quote 41 1, demo_quote 42 21],
     quote_items := [demo_item 41 2, demo_item 42 1],
     bookings := [demo_booking 2 1 41 ''AAAAAAAA'', demo_booking 22 21 42 ''BBBBBBBB''],
     passengers := [demo_passenger 5 2, demo_passenger 6 2, demo_passenger 25 22],
     segments := [demo_segment 3 2 4, demo_segment 23 22 4],
     seats := [demo_seat 11 31 AVAILABLE, demo_seat 12 32 AVAILABLE, demo_seat 13 33 BLOCKED]\<rparr>"

text \<open>Booking 2 holds seats 12 (passenger 5) and 11 (passenger 6) until \<open>h\<close>.\<close>

definition demo_held_seat :: "uuid \<Rightarrow> uuid \<Rightarrow> ts \<Rightarrow> seat_row" where
  "demo_held_seat u a h = (demo_seat u a SEAT_HELD)\<lparr>fs_booking := Some 2, fs_hold := Some h, fs_version := 2\<rparr>"

definition demo_held_assignment :: "uuid \<Rightarrow> uuid \<Rightarrow> uuid \<Rightarrow> ts \<Rightarrow> assignment_row" where
  "demo_held_assignment u p s h = \<lparr>sa_id = u, sa_booking = 2, sa_segment = 3, sa_flight = 4, sa_passenger = p,
     sa_seat = s, sa_status = A_HELD, sa_hold = Some h, sa_created = 0\<rparr>"

definition demo_held_booking :: "booking_status \<Rightarrow> ts \<Rightarrow> booking_row" where
  "demo_held_booking st h = (demo_booking 2 1 41 ''AAAAAAAA'')\<lparr>b_status := st, b_hold := Some h, b_version := 2\<rparr>"

definition demo_held :: "booking_status \<Rightarrow> ts \<Rightarrow> database" where
  "demo_held st h = demo_db\<lparr>
     bookings := [demo_held_booking st h, demo_booking 22 21 42 ''BBBBBBBB''],
     segments := [(demo_segment 3 2 4)\<lparr>bs_status := S_HELD\<rparr>, demo_segment 23 22 4],
     seats := [demo_held_seat 11 31 h, demo_held_seat 12 32 h, demo_seat 13 33 BLOCKED],
     assignments := [demo_held_assignment 51 5 12 h, demo_held_assignment 52 6 11 h]\<rparr>"

lemma demo_fault [simp]: "fault demo_env n = None"
  by (simp add: demo_env_def)

text \<open>A successful run, named by its two halves.\<close>

lemma run_eq: "fst x = a \<Longrightarrow> x = (a, snd x)"
  by auto

subsection \<open>The demo ids are a codec\<close>

lemma length_demo_text: "u < 100 \<Longrightarrow> length (demo_text u) = 36"
  by (simp add: demo_text_def demo_prefix_def)

lemma length_demo_text': "\<not> u < 100 \<Longrightarrow> length (demo_text u) = Suc u"
  by (simp add: demo_text_def)

lemma byte_digit_char: "n < 10 \<Longrightarrow> byte (digit_char n) = 48 + n"
  by (simp add: digit_char_def byte_def)

lemma demo_text_inj: "demo_text a = demo_text b \<Longrightarrow> a = b"
proof -
  assume eq: "demo_text a = demo_text b"
  show "a = b"
  proof (cases "a < 100 \<and> b < 100")
    case True
    with eq have d: "digit_char (a div 10) = digit_char (b div 10)" "digit_char (a mod 10) = digit_char (b mod 10)"
      by (simp_all add: demo_text_def)
    have "a div 10 < 10" "b div 10 < 10" using True by auto
    then have "byte (digit_char (a div 10)) = 48 + a div 10" "byte (digit_char (b div 10)) = 48 + b div 10"
      "byte (digit_char (a mod 10)) = 48 + a mod 10" "byte (digit_char (b mod 10)) = 48 + b mod 10"
      by (intro byte_digit_char; simp)+
    with arg_cong [OF d(1), of byte] arg_cong [OF d(2), of byte]
    have "a div 10 = b div 10" "a mod 10 = b mod 10" by linarith+
    then show ?thesis by (metis mult_div_mod_eq)
  next
    case False
    moreover have "length (demo_text a) = length (demo_text b)" using eq by (rule arg_cong)
    ultimately show ?thesis
      using length_demo_text [of a] length_demo_text [of b] length_demo_text' [of a] length_demo_text' [of b]
      by linarith
  qed
qed

lemma demo_scan_text: "demo_scan s = Some u \<Longrightarrow> demo_text u = s"
proof -
  assume a: "demo_scan s = Some u"
  then have s: "length s = 36" "take 34 s = demo_prefix" "is_digit (s ! 34)" "is_digit (s ! 35)"
    "u = 10 * (byte (s ! 34) - 48) + (byte (s ! 35) - 48)"
    by (auto simp: demo_scan_def split: if_splits)
  let ?x = "byte (s ! 34) - 48" and ?y = "byte (s ! 35) - 48"
  obtain x y where xy: "x = ?x" "y = ?y" by blast
  with s(3,4) have b: "x = ?x" "y = ?y" "x < 10" "y < 10" "byte (s ! 34) = 48 + x" "byte (s ! 35) = 48 + y"
    by (auto simp: is_digit_def)
  have c: "digit_char x = s ! 34" "digit_char y = s ! 35"
    using b byte_digit_char [of x] byte_digit_char [of y] by (simp_all add: byte_eq_iff [symmetric])
  have "drop 34 s = [s ! 34, s ! 35]"
    using s(1) by (simp add: Cons_nth_drop_Suc [symmetric])
  then have "s = demo_prefix @ [s ! 34, s ! 35]"
    using s(2) append_take_drop_id [of 34 s] by simp
  moreover have "u < 100" "u div 10 = x" "u mod 10 = y"
    using b(3,4) s(5) unfolding b(5,6) by auto
  ultimately show ?thesis using c by (simp add: demo_text_def)
qed

lemma demo_codec: "uuid_codec demo_env"
  by (auto simp: uuid_codec_def demo_env_def inj_def demo_scan_text dest: demo_text_inj)

end
