(* ===== verification/HoldProps.thy ===== *)
theory HoldProps
  imports HoldRun Demo
begin

text \<open>
  The properties of \<open>HoldSeats\<close>, with witnesses on the demo database.
\<close>

definition demo_request :: hold_params where
  "demo_request = \<lparr>UserID = demo_text 1, IdempotencyKey = ''0123456789abcdef'', BookingID = demo_text 2,
     BookingSegmentID = demo_text 3, FlightInstanceID = demo_text 4,
     Seats = [\<lparr>PassengerID = demo_text 5, FlightSeatID = demo_text 12\<rparr>,
              \<lparr>PassengerID = demo_text 6, FlightSeatID = demo_text 11\<rparr>]\<rparr>"

text \<open>The other user asks for seat 11 of the same flight.\<close>

definition demo_rival :: hold_params where
  "demo_rival = \<lparr>UserID = demo_text 21, IdempotencyKey = ''fedcba9876543210'', BookingID = demo_text 22,
     BookingSegmentID = demo_text 23, FlightInstanceID = demo_text 4,
     Seats = [\<lparr>PassengerID = demo_text 25, FlightSeatID = demo_text 11\<rparr>]\<rparr>"

text \<open>What the first hold answers, and the row it leaves for seat 11.\<close>

definition demo_hold :: seat_hold where
  "demo_hold = \<lparr>hold_booking = demo_text 2, hold_seats = [demo_text 11, demo_text 12],
     hold_expires = 1900 * second + 10\<rparr>"

definition demo_taken_seat :: seat_row where
  "demo_taken_seat = \<lparr>fs_id = 11, fs_flight = 4, fs_aircraft_seat = 31, fs_booking = Some 2,
     fs_state = SEAT_HELD, fs_hold = Some (1900 * second + 10), fs_version = 2\<rparr>"

definition demo_after :: "database world" where
  "demo_after = snd (HoldSeats NewStore demo_request demo_env (demo_world demo_db))"

lemma demo_inventory: "inventory_ok demo_db"
  by code_simp

lemma demo_hold_facts:
  "case HoldSeats NewStore demo_request demo_env (demo_world demo_db) of (r, w) \<Rightarrow>
     r = Inr demo_hold \<and> demo_taken_seat \<in> set (seats (db w))"
  by code_simp

lemma demo_hold_run: "HoldSeats NewStore demo_request demo_env (demo_world demo_db) = (Inr demo_hold, demo_after)"
  using demo_hold_facts by (auto simp: demo_after_def split: prod.splits)

lemma demo_after_seat: "demo_taken_seat \<in> set (seats (db demo_after))"
  using demo_hold_facts by (auto simp: demo_after_def split: prod.splits)

lemma demo_after_new: "db demo_after \<noteq> demo_db"
proof -
  have "demo_taken_seat \<notin> set (seats demo_db)" by code_simp
  with demo_after_seat show ?thesis by auto
qed

lemma demo_after_inventory: "inventory_ok (db demo_after)"
  using HoldSeats_committed [OF demo_codec _ demo_hold_run] demo_inventory by (simp add: demo_world_def)

subsection \<open>The inventory\<close>

text \<open>A call of \<open>HoldSeats\<close>, however it ends, keeps the inventory invariant.\<close>

theorem hold_keeps_inventory:
  assumes "uuid_codec E" and "inventory_ok (db w)"
  shows "inventory_ok (db (snd (HoldSeats store q E w)))"
proof (cases "HoldSeats store q E w")
  case (Pair r w')
  with HoldSeats_failed [of store q E w] HoldSeats_committed [OF assms, of store q] assms(2)
  show ?thesis by (cases r) auto
qed

theorem hold_keeps_inventory_witness:
  "inventory_ok (db demo_after)"
  using hold_keeps_inventory [OF demo_codec, of "demo_world demo_db" NewStore demo_request] demo_inventory
  by (simp add: demo_after_def demo_world_def)

lemma held_seat:
  assumes "inventory_ok d" and "held E store p t h d d'" and "s \<in> set (seats d)"
    and "fs_id s \<in> set (seat_uuids E (Seats p))"
  shows "fs_flight s = uuid_of E (FlightInstanceID p) \<and> takeable E p t h s"
proof -
  from assms(4) obtain sel where sel: "sel \<in> set (Seats p)" "fs_id s = uuid_of E (FlightSeatID sel)"
    by (auto simp: seat_uuids_def)
  with assms(2) obtain s' where s': "s' \<in> set (seats d)" "fs_id s' = fs_id s"
    "fs_flight s' = uuid_of E (FlightInstanceID p)" "takeable E p t h s'"
    by (auto simp: held_def placed_def)
  with inventory_seats_distinct [OF assms(1)] assms(3) have "s' = s" by (blast intro: distinct_map_same)
  with s' show ?thesis by simp
qed

text \<open>C2. No seat is stolen: a seat that another booking has booked, or holds with an expiry
  that no statement of the call reaches, is left exactly as it was, and so are its active
  assignments.\<close>

theorem hold_never_steals:
  assumes codec: "uuid_codec E" and ok: "inventory_ok (db w)"
    and s: "s \<in> set (seats (db w))" "taken s" "fs_booking s \<noteq> Some (uuid_of E (norm_text (BookingID q)))"
    and live: "\<And>x n. fs_hold s = Some x \<Longrightarrow> clock E n < x"
    and run: "HoldSeats store q E w = (r, w')"
  shows "s \<in> set (seats (db w')) \<and>
    (\<forall>a. active a \<and> sa_seat a = fs_id s \<longrightarrow>
       (a \<in> set (assignments (db w')) \<longleftrightarrow> a \<in> set (assignments (db w))))"
proof (cases "db w' = db w")
  case True
  with s show ?thesis by simp
next
  case False
  then obtain a where "r = Inr a" using run HoldSeats_failed by (cases r) auto
  with run False HoldSeats_committed [OF codec ok, of store q] obtain t h where
    h: "held E store (hold_form q) t h (db w) (db w')" by auto
  let ?p = "hold_form q"
  have b: "BookingID ?p = norm_text (BookingID q)" by (simp add: hold_form_def)
  from h obtain n where "t = clock E n" by (auto simp: held_def)
  with live have "t < x" if "fs_hold s = Some x" for x using that by blast
  with s(2,3) b have "\<not> takeable E ?p t h s"
    by (auto simp: takeable_def taken_def not_le)
  with held_seat [OF ok h s(1)] have out: "fs_id s \<notin> set (seat_uuids E (Seats ?p))" by blast
  with h s(1) have "s \<in> set (seats (db w'))" by (force simp: held_def set_update_where)
  moreover have "\<forall>a. active a \<and> sa_seat a = fs_id s \<longrightarrow>
       (a \<in> set (assignments (db w')) \<longleftrightarrow> a \<in> set (assignments (db w)))"
    using h out by (auto simp: held_def reseated_def)
  ultimately show ?thesis ..
qed

theorem hold_never_steals_witness:
  "demo_taken_seat \<in> set (seats (db (snd (HoldSeats NewStore demo_rival demo_env demo_after))))"
proof -
  have s: "taken demo_taken_seat"
    "fs_booking demo_taken_seat \<noteq> Some (uuid_of demo_env (norm_text (BookingID demo_rival)))"
    by code_simp+
  have live: "clock demo_env n < x" if "fs_hold demo_taken_seat = Some x" for x n
    using that by (auto simp: demo_taken_seat_def demo_env_def second_def)
  show ?thesis
    using hold_never_steals [OF demo_codec demo_after_inventory demo_after_seat s live,
        of NewStore "fst (HoldSeats NewStore demo_rival demo_env demo_after)"]
    by simp
qed

text \<open>C5. A committed hold reserves what it answers: every seat of the answer is marked for the
  booking until the answered expiry, and has one active assignment, of the same booking and
  expiry, for the passenger who asked for it.\<close>

theorem hold_reserves:
  assumes codec: "uuid_codec E" and ok: "inventory_ok (db w)"
    and run: "HoldSeats store q E w = (Inr r, w')" and new: "db w' \<noteq> db w"
  shows "hold_seats r = map FlightSeatID (Seats (hold_form q)) \<and>
    (\<forall>sel \<in> set (Seats (hold_form q)).
      (\<exists>s \<in> set (seats (db w')). uuid_text E (fs_id s) = FlightSeatID sel \<and> fs_state s = SEAT_HELD \<and>
         fs_booking s = Some (uuid_of E (hold_booking r)) \<and> fs_hold s = Some (hold_expires r)) \<and>
      (\<exists>a. active_at (assignments (db w')) (uuid_of E (FlightSeatID sel)) = [a] \<and>
         assigned_to E (hold_form q) (hold_expires r) sel a))"
proof -
  let ?p = "hold_form q"
  from HoldSeats_committed [OF codec ok run] new obtain t h where
    h: "held E store ?p t h (db w) (db w')" and r: "r = hold_response ?p h" and ok': "inventory_ok (db w')"
    by auto
  have n: "hold_normal E ?p"
    using HoldSeats_run [OF run] normalizeHoldParams_normal [of E q ?p] by auto
  have "(\<exists>s \<in> set (seats (db w')). uuid_text E (fs_id s) = FlightSeatID sel \<and> fs_state s = SEAT_HELD \<and>
         fs_booking s = Some (uuid_of E (hold_booking r)) \<and> fs_hold s = Some (hold_expires r)) \<and>
      (\<exists>a. active_at (assignments (db w')) (uuid_of E (FlightSeatID sel)) = [a] \<and>
         assigned_to E ?p (hold_expires r) sel a)" if sel: "sel \<in> set (Seats ?p)" for sel
  proof
    from h sel obtain s a where s: "s \<in> set (seats (db w))" "fs_id s = uuid_of E (FlightSeatID sel)"
      "fs_flight s = uuid_of E (FlightInstanceID ?p)"
      and a: "a \<in> set (assignments (db w'))" "assigned_to E ?p h sel a"
      by (auto simp: held_def placed_def)
    from n sel have "canonical E (FlightSeatID sel)" by (auto simp: hold_normal_def list_all_iff)
    then have shown: "uuid_text E (uuid_of E (FlightSeatID sel)) = FlightSeatID sel"
      by (rule canonical_text [OF codec])
    have "fs_id s \<in> set (seat_uuids E (Seats ?p))" using sel s(2) by (auto simp: seat_uuids_def)
    let ?s = "s\<lparr>fs_booking := Some (uuid_of E (BookingID ?p)), fs_state := SEAT_HELD, fs_hold := Some h,
              fs_version := fs_version s + 1\<rparr>"
    from h have "seats (db w') = update_where
       (\<lambda>s. fs_flight s = uuid_of E (FlightInstanceID ?p) \<and> fs_id s \<in> set (seat_uuids E (Seats ?p)))
       (\<lambda>s. s\<lparr>fs_booking := Some (uuid_of E (BookingID ?p)), fs_state := SEAT_HELD, fs_hold := Some h,
              fs_version := fs_version s + 1\<rparr>) (seats (db w))"
      unfolding held_def by blast
    with s(1,3) \<open>fs_id s \<in> set (seat_uuids E (Seats ?p))\<close> have "?s \<in> set (seats (db w'))"
      by (simp add: in_update_where [where f = "\<lambda>s. s\<lparr>fs_booking := Some (uuid_of E (BookingID ?p)), fs_state := SEAT_HELD,
            fs_hold := Some h, fs_version := fs_version s + 1\<rparr>"])
    with s(2) shown r show "\<exists>s \<in> set (seats (db w')). uuid_text E (fs_id s) = FlightSeatID sel \<and> fs_state s = SEAT_HELD \<and>
         fs_booking s = Some (uuid_of E (hold_booking r)) \<and> fs_hold s = Some (hold_expires r)"
      by (intro bexI [of _ ?s]) (auto simp: hold_response_def)
    from a have "active_at (assignments (db w')) (uuid_of E (FlightSeatID sel)) = [a]"
      using inventory_active_unique [OF ok'] assigned_to_active
      by (auto simp: active_at_single_iff assigned_to_def)
    with a(2) r show "\<exists>a. active_at (assignments (db w')) (uuid_of E (FlightSeatID sel)) = [a] \<and>
         assigned_to E ?p (hold_expires r) sel a" by (auto simp: hold_response_def)
  qed
  with r show ?thesis by (simp add: hold_response_def)
qed

theorem hold_reserves_witness:
  "hold_seats demo_hold = map FlightSeatID (Seats (hold_form demo_request)) \<and>
   (\<exists>a. active_at (assignments (db demo_after)) 11 = [a] \<and> sa_passenger a = 6 \<and> sa_booking a = 2)"
proof -
  have form: "BookingID (hold_form demo_request) = demo_text 2"
    "\<lparr>PassengerID = demo_text 6, FlightSeatID = demo_text 11\<rparr> \<in> set (Seats (hold_form demo_request))"
    "uuid_of demo_env (demo_text 11) = 11" "uuid_of demo_env (demo_text 6) = 6" "uuid_of demo_env (demo_text 2) = 2"
    by code_simp+
  have "db demo_after \<noteq> db (demo_world demo_db)" using demo_after_new by (simp add: demo_world_def)
  from hold_reserves [OF demo_codec _ demo_hold_run this] demo_inventory form show ?thesis
    by (fastforce simp: demo_world_def assigned_to_def)
qed

text \<open>C19. The expiry of a committed hold is in the future of the time read under the locks, never
  after the departure, and a new hold lasts at most \<open>seatHoldDuration\<close>.\<close>

theorem hold_expiry_bounds:
  assumes codec: "uuid_codec E" and ok: "inventory_ok (db w)" and dur: "0 < seatHoldDuration store"
    and run: "HoldSeats store q E w = (Inr r, w')" and new: "db w' \<noteq> db w"
  shows "\<exists>n fi b. clock E n < hold_expires r \<and>
    fi \<in> set (flights (db w)) \<and> fi_id fi = uuid_of E (FlightInstanceID (hold_form q)) \<and>
    hold_expires r \<le> fi_departure fi \<and>
    b \<in> set (bookings (db w)) \<and> b_id b = uuid_of E (hold_booking r) \<and>
    (b_status b = B_DRAFT \<longrightarrow> hold_expires r \<le> clock E n + seatHoldDuration store) \<and>
    (b_status b = B_HELD \<longrightarrow> (\<exists>old. b_hold b = Some old \<and> hold_expires r \<le> old))"
proof -
  from HoldSeats_committed [OF codec ok run] new obtain t h where
    h: "held E store (hold_form q) t h (db w) (db w')" and r: "r = hold_response (hold_form q) h" by auto
  from h obtain n bst bhold sst fi where f: "t = clock E n" "fi \<in> set (flights (db w))"
    "fi_id fi = uuid_of E (FlightInstanceID (hold_form q))" "hold_time store bst bhold (fi_departure fi) t h"
    and q: "booking_and_segment (uuid_of E (BookingID (hold_form q))) (uuid_of E (BookingSegmentID (hold_form q)))
          (uuid_of E (FlightInstanceID (hold_form q))) (uuid_of E (UserID (hold_form q))) (db w) = Some (bst, bhold, sst)"
    unfolding held_def by blast
  from booking_and_segment_Some [OF q] obtain b where
    "b \<in> set (bookings (db w))" "b_id b = uuid_of E (BookingID (hold_form q))" "bst = b_status b" "bhold = b_hold b"
    by blast
  with f r dur show ?thesis
    by (intro exI [of _ n] exI [of _ fi] exI [of _ b]) (auto simp: hold_time_def hold_response_def min_def split: if_splits)
qed

theorem hold_expiry_bounds_witness:
  "\<exists>n. clock demo_env n < hold_expires demo_hold"
proof -
  have "db demo_after \<noteq> db (demo_world demo_db)" using demo_after_new by (simp add: demo_world_def)
  moreover have "0 < seatHoldDuration NewStore" by code_simp
  ultimately show ?thesis
    using hold_expiry_bounds [OF demo_codec _ _ demo_hold_run] demo_inventory by (auto simp: demo_world_def)
qed

text \<open>A call that returns an error left the database as it was, whatever the error and
  however far the call came.\<close>

theorem hold_error_writes_nothing:
  assumes "HoldSeats store q E w = (Inl e, w')"
  shows "db w' = db w"
  using assms by (rule HoldSeats_failed)

definition demo_blocked :: hold_params where
  "demo_blocked = demo_request\<lparr>Seats := [\<lparr>PassengerID = demo_text 5, FlightSeatID = demo_text 13\<rparr>]\<rparr>"

lemma demo_blocked_run:
  "fst (HoldSeats NewStore demo_blocked demo_env (demo_world demo_db)) = Inl (seat_unavailable (demo_text 13))"
  by code_simp

theorem hold_error_writes_nothing_witness:
  "db (snd (HoldSeats NewStore demo_blocked demo_env (demo_world demo_db))) = demo_db"
  using hold_error_writes_nothing [OF run_eq [OF demo_blocked_run]] by (simp add: demo_world_def)

subsection \<open>Retries\<close>

text \<open>C18. A retry of a hold with the same key and request, at any later time and whatever was
  recorded since, answers what the first call answered and writes nothing.\<close>

theorem hold_retry:
  assumes "IdempotencyKey q \<noteq> []" and "HoldSeats store q E w = (Inr r, w')"
    and "idem_extends (db w') (db v)" and "\<And>n. fault E n = None"
  shows "\<exists>v'. HoldSeats store q E v = (Inr r, v') \<and> db v' = db v"
proof -
  obtain c cs where "IdempotencyKey q = c # cs" using assms(1) by (cases "IdempotencyKey q") auto
  then have "q\<lparr>IdempotencyKey := c # cs\<rparr> = q" by simp
  with hold.retry [where store = store and q = q and c = c and cs = cs and E = E and w = w and a = r and w' = w' and v = v] assms(2-4) show ?thesis by simp
qed

theorem hold_retry_witness:
  "\<exists>v'. HoldSeats NewStore demo_request demo_env demo_after = (Inr demo_hold, v') \<and> db v' = db demo_after"
proof (rule hold_retry [OF _ demo_hold_run])
  show "IdempotencyKey demo_request \<noteq> []" by (simp add: demo_request_def)
qed simp_all

text \<open>The key of a recorded hold with another request is refused, and nothing is written.\<close>

theorem hold_key_reuse:
  assumes "HoldSeats store q E w = (Inr r, w')" and "IdempotencyKey q \<noteq> []"
    and "IdempotencyKey q' = IdempotencyKey q"
    and "norm_text (UserID q') = norm_text (UserID q)" and "norm_text (BookingID q') = norm_text (BookingID q)"
    and "normalizeHoldParams E q' = Inr (hold_form q')"
    and "request_hash E (hold_params_json (hold_form q')) \<noteq> request_hash E (hold_params_json (hold_form q))"
    and "idem_extends (db w') (db v)" and "\<And>n. fault E n = None"
  shows "\<exists>v'. HoldSeats store q' E v = (Inl IdemErrConflict, v') \<and> db v' = db v"
proof -
  obtain c cs where key: "IdempotencyKey q = c # cs" using assms(2) by (cases "IdempotencyKey q") auto
  then have q: "q\<lparr>IdempotencyKey := c # cs\<rparr> = q" by simp
  from hold.saves [where store = store and q = q and c = c and cs = cs and E = E and w = w and a = r and w' = w'] assms(1) q obtain rec where rec:
    "idem_lookup (uuid_of E (UserID (hold_form q))) (hold_route (hold_form q)) (c # cs) (db w') = Some rec"
    "ir_hash rec = request_hash E (hold_params_json (hold_form q))" by auto
  have same: "UserID (hold_form q') = UserID (hold_form q)" "hold_route (hold_form q') = hold_route (hold_form q)"
    using assms(4,5) by (simp_all add: hold_form_def hold_route_def)
  have valid: "idempotency_Valid (IdempotencyKey q')"
    using assms(1) by (cases rule: HoldSeats_Inr) (use assms(2,3) in auto)
  have "idem_lookup (uuid_of E (UserID (hold_form q'))) (hold_route (hold_form q')) (IdempotencyKey q') (db v) = Some rec"
    using idem_lookup_extends [OF assms(8) rec(1)] same key assms(3) by simp
  from HoldSeats_lookup [OF assms(6) _ valid assms(9) this, of store] assms(2,3,7) rec(2)
  show ?thesis by auto
qed

theorem hold_key_reuse_witness:
  "\<exists>v'. HoldSeats NewStore demo_blocked demo_env demo_after = (Inl IdemErrConflict, v') \<and> db v' = db demo_after"
proof (rule hold_key_reuse [OF demo_hold_run])
  show "normalizeHoldParams demo_env demo_blocked = Inr (hold_form demo_blocked)"
    by code_simp
  show "request_hash demo_env (hold_params_json (hold_form demo_blocked))
     \<noteq> request_hash demo_env (hold_params_json (hold_form demo_request))"
    by code_simp
qed (simp_all add: demo_blocked_def, simp_all add: demo_request_def)

subsection \<open>Requests\<close>

lemma normalize_selections_fix:
  assumes "normalize_selections E ps ss sels = Inr xs"
  shows "list_all (\<lambda>s. normalizeUUID E (PassengerID s) = Some (PassengerID s) \<and>
           normalizeUUID E (FlightSeatID s) = Some (FlightSeatID s)) xs"
  using assms
  by (induction sels arbitrary: ps ss xs)
    (auto split: option.splits if_splits sum.splits dest: normalizeUUID_fix)

lemma normalize_selections_accepts:
  assumes "list_all (\<lambda>s. normalizeUUID E (PassengerID s) = Some (PassengerID s) \<and>
             normalizeUUID E (FlightSeatID s) = Some (FlightSeatID s)) xs"
    and "distinct (map PassengerID xs)" and "distinct (map FlightSeatID xs)"
    and "PassengerID ` set xs \<inter> set ps = {}" and "FlightSeatID ` set xs \<inter> set ss = {}"
  shows "normalize_selections E ps ss xs = Inr xs"
  using assms
proof (induction xs arbitrary: ps ss)
  case Nil
  then show ?case by simp
next
  case (Cons x xs)
  then have "normalize_selections E (PassengerID x # ps) (FlightSeatID x # ss) xs = Inr xs" by (intro Cons.IH) auto
  with Cons.prems show ?case by auto
qed

text \<open>An accepted request is in canonical form: valid lower-case ids, one to nine seats in
  strictly increasing id order (the order in which every writer locks), no passenger or seat
  twice; and normalising again changes nothing.\<close>

theorem hold_normal_form:
  assumes "normalizeHoldParams E q = Inr p"
  shows "hold_normal E p \<and> normalizeHoldParams E p = Inr p"
proof
  show n: "hold_normal E p" using assms by (rule normalizeHoldParams_normal)
  from assms obtain u b g f xs where xs: "normalize_selections E [] [] (Seats q) = Inr xs"
    "Seats p = sort_by seat_order xs" "Seats q \<noteq> []" "length (Seats q) \<le> 9"
    and ids: "normalizeUUID E (UserID q) = Some (UserID p)" "normalizeUUID E (BookingID q) = Some (BookingID p)"
    "normalizeUUID E (BookingSegmentID q) = Some (BookingSegmentID p)"
    "normalizeUUID E (FlightInstanceID q) = Some (FlightInstanceID p)"
    by (auto simp: normalizeHoldParams_def split: if_splits option.splits sum.splits)
  note fixed = ids [THEN normalizeUUID_fix]
  have sels: "normalize_selections E [] [] (Seats p) = Inr (Seats p)"
  proof (rule normalize_selections_accepts)
    show "list_all (\<lambda>s. normalizeUUID E (PassengerID s) = Some (PassengerID s) \<and>
             normalizeUUID E (FlightSeatID s) = Some (FlightSeatID s)) (Seats p)"
      using normalize_selections_fix [OF xs(1)] xs(2) by (simp add: list_all_iff)
  qed (use n in \<open>auto simp: hold_normal_def\<close>)
  have "sort_by seat_order (Seats p) = Seats p"
  proof (rule sort_by_sorted)
    have "sorted_wrt (\<lambda>a b. str_less (FlightSeatID a) (FlightSeatID b)) (Seats p)"
      using n by (simp add: hold_normal_def)
    then show "sorted_wrt (\<lambda>a b. \<not> seat_order b a) (Seats p)"
      by (rule sorted_wrt_mono_rel [rotated]) (auto simp: seat_order_def dest: str_less_asym)
  qed
  moreover have "\<not> (length (Seats p) < 1 \<or> length (Seats p) > 9)"
    using n by (auto simp: hold_normal_def)
  ultimately show "normalizeHoldParams E p = Inr p"
    using fixed sels by (simp add: normalizeHoldParams_def del: One_nat_def)
qed

subsection \<open>Eligible seats\<close>

text \<open>The seat lies in the layout of the aircraft of the segment's flight, in the cabin the
  segment's fare sells.\<close>

definition seat_fits :: "database \<Rightarrow> uuid \<Rightarrow> seat_row \<Rightarrow> bool" where
  "seat_fits d segment s \<longleftrightarrow>
     (\<exists>ast \<in> set (aircraft_seats d). \<exists>fi \<in> set (flights d). \<exists>ac \<in> set (aircraft d).
      \<exists>bs \<in> set (segments d). \<exists>fo \<in> set (fares d).
        ast_id ast = fs_aircraft_seat s \<and> fi_id fi = fs_flight s \<and> ac_id ac = fi_aircraft fi \<and>
        bs_flight bs = fi_id fi \<and> fo_id fo = bs_fare bs \<and> bs_id bs = segment \<and>
        ast_cabin ast = fo_cabin fo \<and> ast_type ast = ac_type ac)"

text \<open>The primary keys of the joined tables.\<close>

definition catalog_keys :: "database \<Rightarrow> bool" where
  "catalog_keys d \<longleftrightarrow>
     distinct (map ast_id (aircraft_seats d)) \<and> distinct (map fi_id (flights d)) \<and>
     distinct (map ac_id (aircraft d)) \<and> distinct (map bs_id (segments d)) \<and> distinct (map fo_id (fares d))"

lemma eligible_fit:
  assumes keys: "catalog_keys d" and "distinct (map fs_id (seats d))" and "distinct ids"
    and count: "length (eligible_rows segment ids d) = length ids"
  shows "\<forall>u \<in> set ids. \<exists>s \<in> set (seats d). fs_id s = u \<and> seat_fits d segment s"
proof -
  let ?g = "\<lambda>fs. [fs. ast \<leftarrow> aircraft_seats d, fi \<leftarrow> flights d, ac \<leftarrow> aircraft d, bs \<leftarrow> segments d, fo \<leftarrow> fares d,
          ast_id ast = fs_aircraft_seat fs \<and> fi_id fi = fs_flight fs \<and> ac_id ac = fi_aircraft fi \<and>
          bs_flight bs = fi_id fi \<and> fo_id fo = bs_fare bs \<and> bs_id bs = segment \<and> fs_id fs \<in> set ids \<and>
          ast_cabin ast = fo_cabin fo \<and> ast_type ast = ac_type ac]"
  have one: "length (?g fs) \<le> 1" for fs
    apply (rule join_one [where k = ast_id and v = "fs_aircraft_seat fs"])
      apply (use keys in \<open>simp add: catalog_keys_def\<close>)
     apply simp
    apply (rule join_one [where k = fi_id and v = "fs_flight fs"])
      apply (use keys in \<open>simp add: catalog_keys_def\<close>)
     apply simp
    subgoal for ast fi
      apply (rule join_one [where k = ac_id and v = "fi_aircraft fi"])
        apply (use keys in \<open>simp add: catalog_keys_def\<close>)
       apply simp
      apply (rule join_one [where k = bs_id and v = segment])
        apply (use keys in \<open>simp add: catalog_keys_def\<close>)
       apply simp
      subgoal for ac bs
        by (rule join_one [where k = fo_id and v = "bs_fare bs"]) (use keys in \<open>auto simp: catalog_keys_def\<close>)
      done
    done
  have rows: "eligible_rows segment ids d = filter (\<lambda>s. ?g s \<noteq> []) (seats d)"
    unfolding eligible_rows_def by (rule concat_option_rows [OF one]) (auto split: if_splits)
  let ?rows = "map fs_id (eligible_rows segment ids d)"
  have "distinct ?rows" unfolding rows by (rule distinct_map_filter) (rule assms(2))
  moreover have sub: "set ?rows \<subseteq> set ids" by (auto simp: eligible_rows_def)
  moreover have "card (set ids) = length ids" using assms(3) by (rule distinct_card)
  ultimately have "card (set ?rows) = card (set ids)"
    using distinct_card [of ?rows] count by (simp only: length_map)
  with sub have "set ?rows = set ids" by (intro card_subset_eq) simp_all
  moreover have "s \<in> set (seats d) \<and> seat_fits d segment s" if "s \<in> set (eligible_rows segment ids d)" for s
    using that by (auto simp: eligible_rows_def seat_fits_def)
  ultimately show ?thesis by (metis (no_types, lifting) imageE list.set_map)
qed

text \<open>C20. Only the owner holds, and only seats that fit: the booking belongs to the caller and was
  DRAFT or HELD, the segment is one of its own on the flight of the request, and every seat lies in
  the aircraft's layout in the cabin of the segment's fare.\<close>

theorem hold_owner_and_cabin:
  assumes codec: "uuid_codec E" and ok: "inventory_ok (db w)" and keys: "catalog_keys (db w)"
    and run: "HoldSeats store q E w = (Inr r, w')" and new: "db w' \<noteq> db w"
  shows "\<exists>b \<in> set (bookings (db w)). \<exists>sg \<in> set (segments (db w)).
    b_id b = uuid_of E (hold_booking r) \<and> b_user b = Some (uuid_of E (UserID (hold_form q))) \<and>
    (b_status b = B_DRAFT \<or> b_status b = B_HELD) \<and>
    bs_id sg = uuid_of E (BookingSegmentID (hold_form q)) \<and> bs_booking sg = b_id b \<and>
    (\<forall>seat \<in> set (hold_seats r). \<exists>s \<in> set (seats (db w)).
       fs_id s = uuid_of E seat \<and> fs_flight s = bs_flight sg \<and> seat_fits (db w) (bs_id sg) s)"
proof -
  let ?p = "hold_form q"
  from HoldSeats_committed [OF codec ok run] new obtain t h where
    h: "held E store ?p t h (db w) (db w')" and r: "r = hold_response ?p h" by auto
  have n: "hold_normal E ?p"
    using HoldSeats_run [OF run] normalizeHoldParams_normal [of E q ?p] by auto
  from h obtain bst bhold sst departure where
    q: "booking_and_segment (uuid_of E (BookingID ?p)) (uuid_of E (BookingSegmentID ?p))
          (uuid_of E (FlightInstanceID ?p)) (uuid_of E (UserID ?p)) (db w) = Some (bst, bhold, sst)"
    and time: "hold_time store bst bhold departure t h"
    unfolding held_def by blast
  from h have count: "length (eligible_rows (uuid_of E (BookingSegmentID ?p)) (seat_uuids E (Seats ?p)) (db w)) =
      length (seat_uuids E (Seats ?p))" by (simp add: held_def seat_uuids_def)
  have "distinct (seat_uuids E (Seats ?p))"
  proof -
    have "inj_on (uuid_of E) (FlightSeatID ` set (Seats ?p))"
      using n canonical_uuid_of_inj [OF codec] by (auto simp: inj_on_def hold_normal_def list_all_iff)
    then have "distinct (map (uuid_of E) (map FlightSeatID (Seats ?p)))"
      using n by (subst distinct_map) (simp add: hold_normal_def)
    then show ?thesis by (simp add: seat_uuids_def comp_def)
  qed
  from eligible_fit [OF keys inventory_seats_distinct [OF ok] this count] have fit:
    "\<exists>s \<in> set (seats (db w)). fs_id s = uuid_of E seat \<and> fs_flight s = uuid_of E (FlightInstanceID ?p) \<and>
       seat_fits (db w) (uuid_of E (BookingSegmentID ?p)) s" if "seat \<in> set (hold_seats r)" for seat
  proof -
    assume all: "\<forall>u \<in> set (seat_uuids E (Seats ?p)). \<exists>s \<in> set (seats (db w)). fs_id s = u \<and>
        seat_fits (db w) (uuid_of E (BookingSegmentID ?p)) s"
    from that r have u: "uuid_of E seat \<in> set (seat_uuids E (Seats ?p))"
      by (auto simp: hold_response_def seat_uuids_def)
    with all obtain s where s: "s \<in> set (seats (db w))" "fs_id s = uuid_of E seat"
      "seat_fits (db w) (uuid_of E (BookingSegmentID ?p)) s" by blast
    with held_seat [OF ok h s(1)] u show ?thesis by auto
  qed
  from booking_and_segment_Some [OF q] obtain b sg where b: "b \<in> set (bookings (db w))" "sg \<in> set (segments (db w))"
    "b_id b = uuid_of E (BookingID ?p)" "b_user b = Some (uuid_of E (UserID ?p))" "b_status b = bst"
    "bs_id sg = uuid_of E (BookingSegmentID ?p)" "bs_booking sg = uuid_of E (BookingID ?p)"
    "bs_flight sg = uuid_of E (FlightInstanceID ?p)" by blast
  have "bst = B_DRAFT \<or> bst = B_HELD" using time by (auto simp: hold_time_def)
  with b fit r show ?thesis
    by (intro bexI [OF _ b(1)] bexI [OF _ b(2)]) (auto simp: hold_response_def)
qed

theorem hold_owner_and_cabin_witness:
  "\<exists>s \<in> set (seats demo_db). fs_id s = uuid_of demo_env (demo_text 11) \<and> seat_fits demo_db 3 s"
proof -
  have keys: "catalog_keys demo_db" by code_simp
  have three: "uuid_of demo_env (BookingSegmentID (hold_form demo_request)) = 3" by code_simp
  have "db demo_after \<noteq> db (demo_world demo_db)" using demo_after_new by (simp add: demo_world_def)
  with hold_owner_and_cabin [OF demo_codec _ _ demo_hold_run] demo_inventory keys three show ?thesis
    by (fastforce simp: demo_world_def demo_hold_def)
qed

theorem hold_normal_form_witness:
  "normalizeHoldParams demo_env (hold_form demo_request) = Inr (hold_form demo_request)"
proof -
  have "normalizeHoldParams demo_env demo_request = Inr (hold_form demo_request)" by code_simp
  from hold_normal_form [OF this] show ?thesis by blast
qed

end
