(* ===== verification/Lifecycle.thy ===== *)
theory Lifecycle
  imports Inventory
begin

text \<open>
  \<^verbatim>\<open>internal/booking/lifecycle.go\<close>: the transition table \<open>CanTransition\<close>, \<open>Release\<close> (which
  gives a booking's held seats back and returns it to DRAFT or cancels it) and the expiry
  worker's \<open>ExpireHolds\<close>, both over \<open>releaseInventory\<close>.
\<close>

subsection \<open>The transition table\<close>

primrec booking_text :: "booking_status \<Rightarrow> string" where
  "booking_text B_DRAFT = ''DRAFT''"
| "booking_text B_HELD = ''HELD''"
| "booking_text B_PAYMENT_PENDING = ''PAYMENT_PENDING''"
| "booking_text B_CONFIRMED = ''CONFIRMED''"
| "booking_text B_TICKETED = ''TICKETED''"
| "booking_text B_EXPIRED = ''EXPIRED''"
| "booking_text B_CANCELLED = ''CANCELLED''"
| "booking_text B_REFUNDED = ''REFUNDED''"

definition CanTransition :: "string \<Rightarrow> string \<Rightarrow> bool" where
  "CanTransition source to =
     (if source = ''DRAFT'' then to = ''HELD'' \<or> to = ''CANCELLED'' \<or> to = ''EXPIRED''
      else if source = ''HELD'' then to = ''DRAFT'' \<or> to = ''PAYMENT_PENDING'' \<or> to = ''CANCELLED'' \<or> to = ''EXPIRED''
      else if source = ''PAYMENT_PENDING'' then to = ''CONFIRMED'' \<or> to = ''EXPIRED'' \<or> to = ''CANCELLED''
      else if source = ''CONFIRMED'' then to = ''TICKETED'' \<or> to = ''CANCELLED''
      else if source = ''TICKETED'' then to = ''CANCELLED''
      else if source = ''CANCELLED'' then to = ''REFUNDED''
      else False)"

subsection \<open>Giving seats back\<close>

definition owned_booking :: "uuid \<Rightarrow> uuid \<Rightarrow> database \<Rightarrow> booking_row option" where
  "owned_booking b u d = find_row (\<lambda>r. b_id r = b \<and> b_user r = Some u) (bookings d)"

definition free_seat :: "seat_row \<Rightarrow> seat_row" where
  "free_seat s = s\<lparr>fs_state := AVAILABLE, fs_booking := None, fs_hold := None, fs_version := fs_version s + 1\<rparr>"

definition releaseInventory :: "uuid \<Rightarrow> assignment_status \<Rightarrow> unit dbact" where
  "releaseInventory b status =
     andthen nop_stmt (\<lambda>_.
     andthen (exec_update_assignments (\<lambda>a. sa_booking a = b \<and> sa_status a = A_HELD) (\<lambda>a. a\<lparr>sa_status := status\<rparr>)) (\<lambda>_.
     andthen (exec_update_seats (\<lambda>s. fs_booking s = Some b \<and> fs_state s = SEAT_HELD) free_seat) (\<lambda>_.
     ret ())))"

subsection \<open>Release\<close>

definition release_route :: "string \<Rightarrow> bool \<Rightarrow> string" where
  "release_route bid cancelBooking =
     (if cancelBooking then ''POST /v1/bookings/'' @ bid @ ''/cancel''
      else ''DELETE /v1/bookings/'' @ bid @ ''/seat-holds'')"

definition done_json :: jval where
  "done_json = JObj [(''Done'', JBool True)]"

fun decode_done :: "jval \<Rightarrow> unit option" where
  "decode_done (JObj [(_, JBool b)]) = Some ()"
| "decode_done _ = None"

definition release_finish :: "uuid \<Rightarrow> bool \<Rightarrow> idem_record \<Rightarrow> unit tx_end dbact" where
  "release_finish b cancelBooking rec =
     (let next = (if cancelBooking then B_CANCELLED else B_DRAFT);
          segment = (if cancelBooking then S_CANCELLED else S_DRAFT) in
      andthen (exec_update_segments (\<lambda>r. bs_booking r = b) (\<lambda>r. r\<lparr>bs_status := segment\<rparr>)) (\<lambda>_.
      andthen (exec_update_bookings (\<lambda>r. b_id r = b)
         (\<lambda>r. r\<lparr>b_status := next, b_hold := None, b_version := b_version r + 1\<rparr>)) (\<lambda>_.
      andthen (emit b (''BOOKING_'' @ booking_text next)) (\<lambda>_.
      andthen (idem_save rec b done_json) (\<lambda>_.
      ret (Commit (Inr ())))))))"

definition release_work :: "string \<Rightarrow> string \<Rightarrow> bool \<Rightarrow> idem_record \<Rightarrow> unit tx_end dbact" where
  "release_work user bid cancelBooking rec =
     andthen (reading (\<lambda>E. (uuid_of E bid, uuid_of E user))) (\<lambda>(b, u).
     andthen (select (\<lambda>t d. map_option b_status (owned_booking b u d))) (\<lambda>status.
     case status of None \<Rightarrow> fail ErrBookingNotFound | Some st \<Rightarrow>
     andthen (ensure (\<not> (st \<noteq> B_DRAFT \<and> st \<noteq> B_HELD)) ErrBookingNotHoldable) (\<lambda>_.
     andthen (releaseInventory b A_CANCELLED) (\<lambda>_.
     release_finish b cancelBooking rec))))"

definition Release :: "string \<Rightarrow> string \<Rightarrow> string \<Rightarrow> bool \<Rightarrow> unit dbact" where
  "Release user bid key cancelBooking =
     guarded_tx (\<lambda>E. \<not> validate_UUID E user \<or> \<not> validate_UUID E bid) ErrInvalidHoldRequest
       (idem_tx user (release_route bid cancelBooking) key (JBool cancelBooking) decode_done
          (release_work user bid cancelBooking))"

subsection \<open>ExpireHolds\<close>

text \<open>The rows the worker may take at time \<open>t\<close>, with \<^verbatim>\<open>SKIP LOCKED\<close> dropping those another
  transaction has locked before \<^verbatim>\<open>LIMIT\<close> counts.  The ids travel as text in the code, which
  PostgreSQL prints and parses back.\<close>

definition hold_expired :: "ts \<Rightarrow> booking_row \<Rightarrow> bool" where
  "hold_expired t b \<longleftrightarrow>
     (b_status b = B_HELD \<or> b_status b = B_PAYMENT_PENDING) \<and>
     (case b_hold b of None \<Rightarrow> False | Some h \<Rightarrow> h \<le> t)"

definition expirable :: "(uuid \<Rightarrow> bool) \<Rightarrow> ts \<Rightarrow> int \<Rightarrow> database \<Rightarrow> uuid list" where
  "expirable locked t limit d =
     take (nat limit) (map b_id (sort_key b_id (filter (\<lambda>b. hold_expired t b \<and> \<not> locked (b_id b)) (bookings d))))"

definition expire_booking :: "uuid \<Rightarrow> unit dbact" where
  "expire_booking b =
     andthen (releaseInventory b A_EXPIRED) (\<lambda>_.
     andthen (exec_update_segments (\<lambda>r. bs_booking r = b \<and> (bs_status r = S_DRAFT \<or> bs_status r = S_HELD))
        (\<lambda>r. r\<lparr>bs_status := S_CANCELLED\<rparr>)) (\<lambda>_.
     andthen (exec_update_bookings (\<lambda>r. b_id r = b)
        (\<lambda>r. r\<lparr>b_status := B_EXPIRED, b_version := b_version r + 1\<rparr>)) (\<lambda>_.
     emit b ''BOOKING_EXPIRED'')))"

definition expire_body :: "int \<Rightarrow> nat tx_end dbact" where
  "expire_body limit =
     andthen (stmt (\<lambda>E w. Inr (expirable (row_locked E (pc w)) (clock E (pc w)) limit (db w), db w))) (\<lambda>ids.
     andthen (if ids \<noteq> [] then nop_stmt else ret ()) (\<lambda>_.
     andthen (for_each ids expire_booking) (\<lambda>_.
     ret (Commit (Inr (length ids))))))"

definition ExpireHolds :: "int \<Rightarrow> nat dbact" where
  "ExpireHolds limit =
     (if limit < 1 \<or> limit > 100 then fail ErrInvalidHoldRequest else in_tx (expire_body limit))"

subsection \<open>Both tables together\<close>

text \<open>A release takes away exactly the HELD pairs of the booking.\<close>

interpretation release: paired_update
  "\<lambda>a. sa_booking a = b \<and> sa_status a = A_HELD" "\<lambda>a. a\<lparr>sa_status := (if x then A_EXPIRED else A_CANCELLED)\<rparr>"
  "\<lambda>s. fs_booking s = Some b \<and> fs_state s = SEAT_HELD" free_seat
  for b x
  by unfold_locales
    (auto simp: seat_matches_def taken_def active_def free_seat_def seat_check_def)

lemma releaseInventory_Inr:
  assumes "releaseInventory b st E w = (Inr u, w')"
  shows "db w' = (db w)\<lparr>
      assignments := update_where (\<lambda>a. sa_booking a = b \<and> sa_status a = A_HELD) (\<lambda>a. a\<lparr>sa_status := st\<rparr>) (assignments (db w)),
      seats := update_where (\<lambda>s. fs_booking s = Some b \<and> fs_state s = SEAT_HELD) free_seat (seats (db w))\<rparr> \<and>
    txn w' = txn w"
  using assms by (auto simp: releaseInventory_def run_simps op_defs)

lemma releaseInventory_after:
  assumes "releaseInventory b (if x then A_EXPIRED else A_CANCELLED) E w = (Inr u, w')"
  shows "db w' = release.after b x (db w)"
  using releaseInventory_Inr [OF assms] by (simp add: release.after_def)

lemma releaseInventory_ok:
  assumes "releaseInventory b st E w = (Inr u, w')" and "inventory_ok (db w)" and "st = A_CANCELLED \<or> st = A_EXPIRED"
  shows "inventory_ok (db w')"
proof -
  from assms(3) have "st = (if st = A_EXPIRED then A_EXPIRED else A_CANCELLED)" by auto
  with assms(1) have "db w' = release.after b (st = A_EXPIRED) (db w)"
    by (intro releaseInventory_after) simp
  then show ?thesis using release.preserves [OF assms(2)] by simp
qed

lemma expire_booking_Inr:
  assumes "expire_booking b E w = (Inr u, w')"
  shows "\<exists>e. db w' = (db w)\<lparr>
      assignments := update_where (\<lambda>a. sa_booking a = b \<and> sa_status a = A_HELD) (\<lambda>a. a\<lparr>sa_status := A_EXPIRED\<rparr>) (assignments (db w)),
      seats := update_where (\<lambda>s. fs_booking s = Some b \<and> fs_state s = SEAT_HELD) free_seat (seats (db w)),
      segments := update_where (\<lambda>r. bs_booking r = b \<and> (bs_status r = S_DRAFT \<or> bs_status r = S_HELD))
        (\<lambda>r. r\<lparr>bs_status := S_CANCELLED\<rparr>) (segments (db w)),
      bookings := update_where (\<lambda>r. b_id r = b) (\<lambda>r. r\<lparr>b_status := B_EXPIRED, b_version := b_version r + 1\<rparr>) (bookings (db w)),
      outbox := outbox (db w) @ [e]\<rparr> \<and>
    ob_aggregate e = b \<and> ob_type e = ''BOOKING_EXPIRED'' \<and> ob_delivered e = None"
proof -
  from assms obtain u1 w1 where r: "releaseInventory b A_EXPIRED E w = (Inr u1, w1)"
    and rest: "andthen (exec_update_segments (\<lambda>r. bs_booking r = b \<and> (bs_status r = S_DRAFT \<or> bs_status r = S_HELD))
        (\<lambda>r. r\<lparr>bs_status := S_CANCELLED\<rparr>)) (\<lambda>_.
     andthen (exec_update_bookings (\<lambda>r. b_id r = b)
        (\<lambda>r. r\<lparr>b_status := B_EXPIRED, b_version := b_version r + 1\<rparr>)) (\<lambda>_.
     emit b ''BOOKING_EXPIRED'')) E w1 = (Inr u, w')"
    by (auto simp: expire_booking_def andthen_Inr)
  from rest have "\<exists>e. db w' = (db w1)\<lparr>
      segments := update_where (\<lambda>r. bs_booking r = b \<and> (bs_status r = S_DRAFT \<or> bs_status r = S_HELD))
        (\<lambda>r. r\<lparr>bs_status := S_CANCELLED\<rparr>) (segments (db w1)),
      bookings := update_where (\<lambda>r. b_id r = b) (\<lambda>r. r\<lparr>b_status := B_EXPIRED, b_version := b_version r + 1\<rparr>) (bookings (db w1)),
      outbox := outbox (db w1) @ [e]\<rparr> \<and>
    ob_aggregate e = b \<and> ob_type e = ''BOOKING_EXPIRED'' \<and> ob_delivered e = None"
    by (auto simp: run_simps op_defs)
  with releaseInventory_Inr [OF r] show ?thesis by auto
qed

subsection \<open>The batch\<close>

text \<open>The loop over the batch is one set-based update of every table.\<close>

definition expired_together :: "uuid set \<Rightarrow> database \<Rightarrow> database \<Rightarrow> bool" where
  "expired_together ids d d' \<longleftrightarrow>
     assignments d' = update_where (\<lambda>a. sa_booking a \<in> ids \<and> sa_status a = A_HELD) (\<lambda>a. a\<lparr>sa_status := A_EXPIRED\<rparr>) (assignments d) \<and>
     seats d' = update_where (\<lambda>s. (\<exists>b \<in> ids. fs_booking s = Some b) \<and> fs_state s = SEAT_HELD) free_seat (seats d) \<and>
     segments d' = update_where (\<lambda>r. bs_booking r \<in> ids \<and> (bs_status r = S_DRAFT \<or> bs_status r = S_HELD))
        (\<lambda>r. r\<lparr>bs_status := S_CANCELLED\<rparr>) (segments d) \<and>
     bookings d' = update_where (\<lambda>r. b_id r \<in> ids) (\<lambda>r. r\<lparr>b_status := B_EXPIRED, b_version := b_version r + 1\<rparr>) (bookings d) \<and>
     (\<exists>es. outbox d' = outbox d @ es \<and> set (map ob_aggregate es) = ids \<and>
        (\<forall>e \<in> set es. ob_type e = ''BOOKING_EXPIRED'' \<and> ob_delivered e = None)) \<and>
     users d' = users d \<and> flights d' = flights d \<and> passengers d' = passengers d \<and> quotes d' = quotes d \<and>
     payments d' = payments d \<and> refunds d' = refunds d \<and> idem_records d' = idem_records d"

lemma expire_loop:
  assumes "for_each ids expire_booking E w = (Inr u, w')" and "distinct ids"
  shows "expired_together (set ids) (db w) (db w')"
  using assms
proof (induction ids arbitrary: w)
  case Nil
  then show ?case by (simp add: expired_together_def)
next
  case (Cons b ids)
  from Cons.prems(1) obtain v w1 where s: "expire_booking b E w = (Inr v, w1)"
    "for_each ids expire_booking E w1 = (Inr u, w')"
    by (auto simp: andthen_Inr)
  from Cons.IH [OF s(2)] Cons.prems(2) have IH: "expired_together (set ids) (db w1) (db w')" "b \<notin> set ids" by auto
  from expire_booking_Inr [OF s(1)] obtain e where e: "db w1 = (db w)\<lparr>
      assignments := update_where (\<lambda>a. sa_booking a = b \<and> sa_status a = A_HELD) (\<lambda>a. a\<lparr>sa_status := A_EXPIRED\<rparr>) (assignments (db w)),
      seats := update_where (\<lambda>s. fs_booking s = Some b \<and> fs_state s = SEAT_HELD) free_seat (seats (db w)),
      segments := update_where (\<lambda>r. bs_booking r = b \<and> (bs_status r = S_DRAFT \<or> bs_status r = S_HELD))
        (\<lambda>r. r\<lparr>bs_status := S_CANCELLED\<rparr>) (segments (db w)),
      bookings := update_where (\<lambda>r. b_id r = b) (\<lambda>r. r\<lparr>b_status := B_EXPIRED, b_version := b_version r + 1\<rparr>) (bookings (db w)),
      outbox := outbox (db w) @ [e]\<rparr>" "ob_aggregate e = b" "ob_type e = ''BOOKING_EXPIRED''" "ob_delivered e = None"
    by blast
  from IH(1) obtain es where es: "outbox (db w') = outbox (db w1) @ es" "set (map ob_aggregate es) = set ids"
    "\<forall>e \<in> set es. ob_type e = ''BOOKING_EXPIRED'' \<and> ob_delivered e = None"
    unfolding expired_together_def by blast
  have "\<exists>es'. outbox (db w') = outbox (db w) @ es' \<and> set (map ob_aggregate es') = insert b (set ids) \<and>
        (\<forall>e \<in> set es'. ob_type e = ''BOOKING_EXPIRED'' \<and> ob_delivered e = None)"
    using e es by (intro exI [of _ "e # es"]) auto
  moreover have "assignments (db w') = update_where (\<lambda>a. sa_booking a \<in> insert b (set ids) \<and> sa_status a = A_HELD)
      (\<lambda>a. a\<lparr>sa_status := A_EXPIRED\<rparr>) (assignments (db w))"
    using IH(1) e(1) unfolding expired_together_def by (simp add: update_where_twice) (auto intro: update_where_cong)
  moreover have "seats (db w') = update_where (\<lambda>s. (\<exists>b \<in> insert b (set ids). fs_booking s = Some b) \<and> fs_state s = SEAT_HELD)
      free_seat (seats (db w))"
    using IH(1) e(1) unfolding expired_together_def
    by (simp add: update_where_twice free_seat_def) (auto intro: update_where_cong simp: free_seat_def)
  moreover have "segments (db w') = update_where (\<lambda>r. bs_booking r \<in> insert b (set ids) \<and> (bs_status r = S_DRAFT \<or> bs_status r = S_HELD))
        (\<lambda>r. r\<lparr>bs_status := S_CANCELLED\<rparr>) (segments (db w))"
    using IH(1) e(1) unfolding expired_together_def by (simp add: update_where_twice) (auto intro: update_where_cong)
  moreover have "bookings (db w') = update_where (\<lambda>r. b_id r \<in> insert b (set ids))
      (\<lambda>r. r\<lparr>b_status := B_EXPIRED, b_version := b_version r + 1\<rparr>) (bookings (db w))"
  proof -
    let ?f = "\<lambda>r. r\<lparr>b_status := B_EXPIRED, b_version := b_version r + 1\<rparr>"
    have "update_where (\<lambda>r. b_id r \<in> set ids) ?f (update_where (\<lambda>r. b_id r = b) ?f (bookings (db w)))
        = update_where (\<lambda>r. b_id r = b \<or> b_id r \<in> set ids) ?f (bookings (db w))"
      by (rule update_where_twice) (use IH(2) in auto)
    with IH(1) e(1) show ?thesis unfolding expired_together_def by (simp del: update_where_False)
  qed
  ultimately show ?case using IH(1) e(1) unfolding expired_together_def by simp
qed


text \<open>A committed batch: who was in it, and what became of the tables.\<close>

lemma expire_body_Inr:
  assumes "expire_body limit E w = (Inr x, w')" and "distinct (map b_id (bookings (db w)))"
  shows "\<exists>n ids. ids = expirable (row_locked E n) (clock E n) limit (db w) \<and>
    x = Commit (Inr (length ids)) \<and> distinct ids \<and> expired_together (set ids) (db w) (db w')"
proof -
  let ?w = "w\<lparr>pc := Suc (pc w)\<rparr>"
  from assms(1) obtain ids w2 u where s: "ids = expirable (row_locked E (pc w)) (clock E (pc w)) limit (db w)"
    "db ?w = db w" "(if ids \<noteq> [] then nop_stmt else ret ()) E ?w = (Inr (), w2)"
    "for_each ids expire_booking E w2 = (Inr u, w')" "x = Commit (Inr (length ids))"
    by (auto simp: expire_body_def andthen_Inr stmt_Inr)
  from s(2,3) have "db w2 = db w" by (auto simp: run_simps split: if_splits)
  moreover have "distinct ids"
    unfolding s(1) expirable_def using assms(2)
    by (intro distinct_take) (auto simp: distinct_map intro: inj_on_subset)
  ultimately show ?thesis using expire_loop [OF s(4)] s(1,5) by auto
qed

lemma expire_body_ok:
  assumes "expire_body limit E w = (Inr x, w')" and "inventory_ok (db w)"
  shows "inventory_ok (db w')"
proof -
  let ?w = "w\<lparr>pc := Suc (pc w)\<rparr>"
  from assms(1) obtain ids w2 u where s: "db ?w = db w" "(if ids \<noteq> [] then nop_stmt else ret ()) E ?w = (Inr (), w2)"
    "for_each ids expire_booking E w2 = (Inr u, w')"
    by (auto simp: expire_body_def andthen_Inr stmt_Inr)
  from s(1,2) assms(2) have "inventory_ok (db w2)" by (auto simp: run_simps split: if_splits)
  with s(3) show ?thesis
  proof (rule for_each_invariant)
    fix b v u v'
    assume ok: "inventory_ok (db v)" and run: "expire_booking b E v = (Inr u, v')"
    then obtain u1 v1 where r: "releaseInventory b A_EXPIRED E v = (Inr u1, v1)"
      and rest: "andthen (exec_update_segments (\<lambda>r. bs_booking r = b \<and> (bs_status r = S_DRAFT \<or> bs_status r = S_HELD))
        (\<lambda>r. r\<lparr>bs_status := S_CANCELLED\<rparr>)) (\<lambda>_.
     andthen (exec_update_bookings (\<lambda>r. b_id r = b)
        (\<lambda>r. r\<lparr>b_status := B_EXPIRED, b_version := b_version r + 1\<rparr>)) (\<lambda>_.
     emit b ''BOOKING_EXPIRED'')) E v1 = (Inr u, v')"
      by (auto simp: expire_booking_def andthen_Inr)
    have "inventory_ok (db v1)" using releaseInventory_ok [OF r ok] by simp
    with rest show "inventory_ok (db v')" by (auto simp: run_simps op_defs)
  qed
qed

lemma ExpireHolds_Inr:
  assumes "ExpireHolds limit E w = (Inr n, w')" and "distinct (map b_id (bookings (db w)))"
  shows "1 \<le> limit \<and> limit \<le> 100 \<and> (\<exists>k ids. ids = expirable (row_locked E k) (clock E k) limit (db w) \<and>
    n = length ids \<and> distinct ids \<and> expired_together (set ids) (db w) (db w'))"
proof -
  from assms(1) have l: "1 \<le> limit" "limit \<le> 100" and run: "in_tx (expire_body limit) E w = (Inr n, w')"
    by (auto simp: ExpireHolds_def split: if_splits)
  from run [unfolded in_tx_def] show ?thesis
  proof (cases rule: in_tx_with_Inr)
    case (rolled_back w2)
    then show ?thesis by (auto simp: expire_body_def run_simps)
  next
    case (committed w2)
    with expire_body_Inr [OF committed(2)] assms(2) l show ?thesis by auto
  qed
qed

lemma keeps_ExpireHolds: "keeps inventory_ok (ExpireHolds limit)"
  unfolding ExpireHolds_def
  by (intro keeps_if keeps_fail keeps_in_tx) (rule expire_body_ok)

subsection \<open>Release as a whole\<close>

definition released :: "uuid \<Rightarrow> bool \<Rightarrow> database \<Rightarrow> database \<Rightarrow> bool" where
  "released b cancelled d d' \<longleftrightarrow>
     assignments d' = update_where (\<lambda>a. sa_booking a = b \<and> sa_status a = A_HELD) (\<lambda>a. a\<lparr>sa_status := A_CANCELLED\<rparr>) (assignments d) \<and>
     seats d' = update_where (\<lambda>s. fs_booking s = Some b \<and> fs_state s = SEAT_HELD) free_seat (seats d) \<and>
     segments d' = update_where (\<lambda>r. bs_booking r = b)
        (\<lambda>r. r\<lparr>bs_status := (if cancelled then S_CANCELLED else S_DRAFT)\<rparr>) (segments d) \<and>
     bookings d' = update_where (\<lambda>r. b_id r = b)
        (\<lambda>r. r\<lparr>b_status := (if cancelled then B_CANCELLED else B_DRAFT), b_hold := None, b_version := b_version r + 1\<rparr>) (bookings d) \<and>
     (\<exists>e. outbox d' = outbox d @ [e] \<and> ob_aggregate e = b \<and>
        ob_type e = (if cancelled then ''BOOKING_CANCELLED'' else ''BOOKING_DRAFT'')) \<and>
     payments d' = payments d \<and> refunds d' = refunds d"

lemma release_work_Inr:
  assumes "release_work user bid c rec E w = (Inr x, w')"
  shows "x = Commit (Inr ()) \<and> released (uuid_of E bid) c (db w) (db w') \<and>
    (\<exists>r. owned_booking (uuid_of E bid) (uuid_of E user) (db w) = Some r \<and> (b_status r = B_DRAFT \<or> b_status r = B_HELD)) \<and>
    (inventory_ok (db w) \<longrightarrow> inventory_ok (db w')) \<and>
    idem_records (db w') = idem_records (db w) @ [\<lparr>ir_user = uuid_of E (rec_user rec), ir_route = rec_route rec,
      ir_key = rec_key rec, ir_hash = rec_hash rec, ir_resource = uuid_of E bid, ir_response = done_json\<rparr>]"
proof -
  let ?b = "uuid_of E bid"
  let ?w = "w\<lparr>pc := Suc (pc w)\<rparr>"
  from assms obtain r u w2 where own: "owned_booking ?b (uuid_of E user) (db w) = Some r"
    "b_status r = B_DRAFT \<or> b_status r = B_HELD"
    and rel: "releaseInventory ?b A_CANCELLED E ?w = (Inr u, w2)"
    and rest: "release_finish ?b c rec E w2 = (Inr x, w')"
    by (auto simp: release_work_def andthen_Inr select_Inr ensure_Inr reading_Inr split: option.splits)
  note d2 = releaseInventory_Inr [OF rel]
  from rest have d3: "x = Commit (Inr ()) \<and> (\<exists>e. db w' = (db w2)\<lparr>
      segments := update_where (\<lambda>r. bs_booking r = ?b) (\<lambda>r. r\<lparr>bs_status := (if c then S_CANCELLED else S_DRAFT)\<rparr>) (segments (db w2)),
      bookings := update_where (\<lambda>r. b_id r = ?b)
        (\<lambda>r. r\<lparr>b_status := (if c then B_CANCELLED else B_DRAFT), b_hold := None, b_version := b_version r + 1\<rparr>) (bookings (db w2)),
      outbox := outbox (db w2) @ [e],
      idem_records := idem_records (db w2) @ [\<lparr>ir_user = uuid_of E (rec_user rec), ir_route = rec_route rec,
      ir_key = rec_key rec, ir_hash = rec_hash rec, ir_resource = uuid_of E bid, ir_response = done_json\<rparr>]\<rparr> \<and>
      ob_aggregate e = ?b \<and> ob_type e = ''BOOKING_'' @ booking_text (if c then B_CANCELLED else B_DRAFT))"
    by (auto simp: release_finish_def run_simps op_defs Let_def)
  have "inventory_ok (db w) \<Longrightarrow> inventory_ok (db w2)"
    using releaseInventory_ok [OF rel] by simp
  with d3 d2 own show ?thesis by (auto simp: released_def)
qed

lemma decode_done_json [simp]: "decode_done done_json = Some ()"
  by (simp add: done_json_def)

interpretation release_call: idem_work
  "\<lambda>E. \<not> validate_UUID E user \<or> \<not> validate_UUID E bid" ErrInvalidHoldRequest
  user "release_route bid c" key "JBool c" decode_done "release_work user bid c"
  for user bid c key
proof
  show "\<exists>resource response. decode_done response = Some a \<and> idem_records (db w') = idem_records (db w) @
         [\<lparr>ir_user = uuid_of E (rec_user rec), ir_route = rec_route rec, ir_key = rec_key rec,
           ir_hash = rec_hash rec, ir_resource = resource, ir_response = response\<rparr>]"
    if "release_work user bid c rec E w = (Inr (Commit (Inr a)), w')" for rec E w a w'
    using release_work_Inr [OF that] by (intro exI [of _ "uuid_of E bid"] exI [of _ done_json]) simp
  show "release_work user bid c rec E w \<noteq> (Inr (Rollback (Inr a)), w')" for rec E w a w'
    using release_work_Inr [of user bid c rec E w "Rollback (Inr a)" w'] by auto
qed

lemma Release_Inr:
  assumes "Release user bid key c E w = (Inr u, w')"
  shows "db w' = db w \<or>
    (released (uuid_of E bid) c (db w) (db w') \<and>
     (\<exists>r. owned_booking (uuid_of E bid) (uuid_of E user) (db w) = Some r \<and> (b_status r = B_DRAFT \<or> b_status r = B_HELD)))"
  using assms [unfolded Release_def]
proof (cases rule: release_call.success)
  case (replayed r)
  then show ?thesis by simp
next
  case (fresh rec w1 w2)
  with release_work_Inr [OF fresh(5)] show ?thesis by (auto simp: released_def)
qed

lemma keeps_Release: "keeps inventory_ok (Release user bid key c)"
  unfolding Release_def by (rule keeps_guarded_idem) (use release_work_Inr in blast)

end
