(* ===== verification/LifecycleProps.thy ===== *)
theory LifecycleProps
  imports Lifecycle Demo
begin

text \<open>
  The properties of the booking lifecycle: the transition table against the database trigger,
  the exact effect of a release and of an expiry batch, its progress, and retries.
\<close>

subsection \<open>Transitions\<close>

text \<open>The statuses are finitely many and listed, so that statements about all of them compute.\<close>

instantiation booking_status :: enum
begin

definition enum_booking_status where
  "enum_booking_status = [B_DRAFT, B_HELD, B_PAYMENT_PENDING, B_CONFIRMED, B_TICKETED, B_EXPIRED, B_CANCELLED, B_REFUNDED]"

definition enum_all_booking_status where
  "enum_all_booking_status P = list_all P (enum_class.enum :: booking_status list)"

definition enum_ex_booking_status where
  "enum_ex_booking_status P = list_ex P (enum_class.enum :: booking_status list)"

instance
proof
  have listed: "b \<in> set enum_class.enum" for b :: booking_status by (cases b) (simp_all add: enum_booking_status_def)
  then show "UNIV = set (enum_class.enum :: booking_status list)" by blast
  show "distinct (enum_class.enum :: booking_status list)" by (simp add: enum_booking_status_def)
  show "enum_class.enum_all P = Ball UNIV P" for P :: "booking_status \<Rightarrow> bool"
    using listed by (auto simp: enum_all_booking_status_def list_all_iff)
  show "enum_class.enum_ex P = Bex UNIV P" for P :: "booking_status \<Rightarrow> bool"
    using listed by (auto simp: enum_ex_booking_status_def list_ex_iff)
qed

end

lemma range_booking_text:
  "range booking_text = {''DRAFT'', ''HELD'', ''PAYMENT_PENDING'', ''CONFIRMED'', ''TICKETED'', ''EXPIRED'', ''CANCELLED'', ''REFUNDED''}"
  by (simp add: enum_class.UNIV_enum enum_booking_status_def)

lemma listed_transitions:
  "\<forall>a b. CanTransition (booking_text a) (booking_text b) \<longleftrightarrow> transition_ok a b \<and> a \<noteq> b"
  by code_simp

text \<open>The Go table and the database trigger agree: \<open>CanTransition\<close> allows exactly the changes
  of status the trigger lets through (which also lets a status stay), and nothing else.\<close>

theorem can_transition_is_trigger:
  "CanTransition x y = (\<exists>a b. x = booking_text a \<and> y = booking_text b \<and> transition_ok a b \<and> a \<noteq> b)"
proof -
  have texts: "CanTransition (booking_text a) (booking_text b) \<longleftrightarrow> transition_ok a b \<and> a \<noteq> b" for a b
    using listed_transitions by blast
  have names: "x \<in> range booking_text \<and> y \<in> range booking_text" if "CanTransition x y"
    using that unfolding range_booking_text CanTransition_def by (auto split: if_splits)
  show ?thesis
  proof
    assume c: "CanTransition x y"
    with names obtain a b where "x = booking_text a" "y = booking_text b" by blast
    with c texts [of a b] show "\<exists>a b. x = booking_text a \<and> y = booking_text b \<and> transition_ok a b \<and> a \<noteq> b"
      by (intro exI [of _ a] exI [of _ b]) simp
  next
    assume "\<exists>a b. x = booking_text a \<and> y = booking_text b \<and> transition_ok a b \<and> a \<noteq> b"
    then obtain a b where "x = booking_text a" "y = booking_text b" "transition_ok a b \<and> a \<noteq> b" by blast
    with texts [of a b] show "CanTransition x y" by simp
  qed
qed

subsection \<open>Releasing\<close>

text \<open>Releasing and expiring keep the inventory invariant, whatever happens on the way.\<close>

theorem lifecycle_keeps_inventory:
  assumes "inventory_ok (db w)"
  shows "inventory_ok (db (snd (Release user bid key c E w))) \<and> inventory_ok (db (snd (ExpireHolds limit E w)))"
  using keeps_Release keeps_ExpireHolds assms unfolding keeps_def by blast

lemma demo_held_ok: "inventory_ok (demo_held B_HELD (1900 * second))"
  by code_simp

theorem lifecycle_keeps_inventory_witness:
  "inventory_ok (db (snd (Release (demo_text 1) (demo_text 2) ''0123456789abcdef'' True demo_env
     (demo_world (demo_held B_HELD (1900 * second)))))) \<and>
   inventory_ok (db (snd (ExpireHolds 10 demo_env (demo_world (demo_held B_HELD (1900 * second))))))"
  by (rule lifecycle_keeps_inventory) (simp add: demo_world_def demo_held_ok)

text \<open>C23. A release that wrote anything was the owner's, of a DRAFT or HELD booking; it freed every
  seat the booking held and ended its held assignments, left every seat of other bookings (also
  one reclaimed from this booking) alone, and made the booking CANCELLED or DRAFT without a hold.\<close>

theorem release_effect:
  assumes "Release user bid key c E w = (Inr u, w')" and "db w' \<noteq> db w"
  shows "(\<exists>r. owned_booking (uuid_of E bid) (uuid_of E user) (db w) = Some r \<and> (b_status r = B_DRAFT \<or> b_status r = B_HELD)) \<and>
    (\<forall>s \<in> set (seats (db w')). \<not> (fs_booking s = Some (uuid_of E bid) \<and> fs_state s = SEAT_HELD)) \<and>
    (\<forall>s \<in> set (seats (db w)). fs_booking s = Some (uuid_of E bid) \<and> fs_state s = SEAT_HELD \<longrightarrow> free_seat s \<in> set (seats (db w'))) \<and>
    (\<forall>s \<in> set (seats (db w)). fs_booking s \<noteq> Some (uuid_of E bid) \<longrightarrow> s \<in> set (seats (db w'))) \<and>
    (\<forall>a \<in> set (assignments (db w')). sa_booking a = uuid_of E bid \<longrightarrow> sa_status a \<noteq> A_HELD) \<and>
    (\<forall>r \<in> set (bookings (db w')). b_id r = uuid_of E bid \<longrightarrow>
       b_hold r = None \<and> b_status r = (if c then B_CANCELLED else B_DRAFT))"
proof -
  let ?b = "uuid_of E bid"
  from Release_Inr [OF assms(1)] assms(2) have rel: "released ?b c (db w) (db w')"
    and own: "\<exists>r. owned_booking ?b (uuid_of E user) (db w) = Some r \<and> (b_status r = B_DRAFT \<or> b_status r = B_HELD)"
    by auto
  have "\<forall>s \<in> set (seats (db w)). fs_booking s = Some ?b \<and> fs_state s = SEAT_HELD \<longrightarrow> free_seat s \<in> set (seats (db w'))"
    using rel by (simp add: released_def in_update_where)
  moreover have "\<forall>s \<in> set (seats (db w)). fs_booking s \<noteq> Some ?b \<longrightarrow> s \<in> set (seats (db w'))"
    using rel by (simp add: released_def in_update_where_same)
  moreover have "\<forall>s \<in> set (seats (db w')). \<not> (fs_booking s = Some ?b \<and> fs_state s = SEAT_HELD)"
    using rel by (auto simp: released_def set_update_where free_seat_def)
  moreover have "\<forall>a \<in> set (assignments (db w')). sa_booking a = ?b \<longrightarrow> sa_status a \<noteq> A_HELD"
    using rel by (auto simp: released_def set_update_where)
  moreover have "\<forall>r \<in> set (bookings (db w')). b_id r = ?b \<longrightarrow>
       b_hold r = None \<and> b_status r = (if c then B_CANCELLED else B_DRAFT)"
    using rel by (auto simp: released_def set_update_where)
  ultimately show ?thesis using own by blast
qed

lemma demo_release_facts:
  "case Release (demo_text 1) (demo_text 2) ''0123456789abcdef'' True demo_env (demo_world (demo_held B_HELD (1900 * second)))
   of (r, w) \<Rightarrow> r = Inr () \<and> outbox (db w) \<noteq> []"
  by code_simp

definition demo_released :: "database world" where
  "demo_released = snd (Release (demo_text 1) (demo_text 2) ''0123456789abcdef'' True demo_env
     (demo_world (demo_held B_HELD (1900 * second))))"

lemma demo_release_run:
  "Release (demo_text 1) (demo_text 2) ''0123456789abcdef'' True demo_env (demo_world (demo_held B_HELD (1900 * second)))
     = (Inr (), demo_released)"
  and demo_release_new: "db demo_released \<noteq> demo_held B_HELD (1900 * second)"
proof -
  show "Release (demo_text 1) (demo_text 2) ''0123456789abcdef'' True demo_env (demo_world (demo_held B_HELD (1900 * second)))
     = (Inr (), demo_released)"
    using demo_release_facts by (auto simp: demo_released_def split: prod.splits)
  have "outbox (db demo_released) \<noteq> []"
    using demo_release_facts by (auto simp: demo_released_def split: prod.splits)
  then show "db demo_released \<noteq> demo_held B_HELD (1900 * second)"
    by (auto simp: demo_held_def demo_db_def empty_db_def)
qed

theorem release_effect_witness:
  "free_seat (demo_held_seat 11 31 (1900 * second)) \<in> set (seats (db demo_released))"
proof -
  have "db demo_released \<noteq> db (demo_world (demo_held B_HELD (1900 * second)))"
    using demo_release_new by (simp add: demo_world_def)
  moreover have "uuid_of demo_env (demo_text 2) = 2" by code_simp
  moreover have "demo_held_seat 11 31 (1900 * second) \<in> set (seats (demo_held B_HELD (1900 * second)))"
    by (simp add: demo_held_def)
  ultimately show ?thesis
    using release_effect [OF demo_release_run] by (auto simp: demo_world_def demo_held_seat_def demo_seat_def)
qed

text \<open>A retried release answers as the first one did and writes nothing.\<close>

theorem release_retry:
  assumes "Release user bid key c E w = (Inr u, w')" and "idem_extends (db w') (db v)" and "\<And>n. fault E n = None"
  shows "\<exists>v'. Release user bid key c E v = (Inr u, v') \<and> db v' = db v"
  using release_call.retry [OF assms(1) [unfolded Release_def] assms(2,3)] by (simp add: Release_def)

theorem release_retry_witness:
  "\<exists>v'. Release (demo_text 1) (demo_text 2) ''0123456789abcdef'' True demo_env demo_released = (Inr (), v')
     \<and> db v' = db demo_released"
  by (rule release_retry [OF demo_release_run]) simp_all

subsection \<open>Expiring\<close>

text \<open>C21. A batch touches only expired bookings: each of its at most \<open>limit\<close> bookings was HELD or
  PAYMENT_PENDING with an expiry the clock had passed and becomes EXPIRED with no held seat or
  assignment left; every other booking, and every seat and assignment of another booking, is as
  it was.\<close>

theorem expire_only_expired:
  assumes run: "ExpireHolds limit E w = (Inr n, w')" and keys: "distinct (map b_id (bookings (db w)))"
  shows "\<exists>ids t. int n \<le> limit \<and> length ids = n \<and> distinct ids \<and>
    (\<forall>b \<in> set ids. \<exists>r \<in> set (bookings (db w)). b_id r = b \<and> hold_expired t r \<and>
       r\<lparr>b_status := B_EXPIRED, b_version := b_version r + 1\<rparr> \<in> set (bookings (db w'))) \<and>
    (\<exists>k. t = clock E k) \<and>
    (\<forall>r \<in> set (bookings (db w)). b_id r \<notin> set ids \<longrightarrow> r \<in> set (bookings (db w'))) \<and>
    (\<forall>s \<in> set (seats (db w)). fs_booking s \<notin> Some ` set ids \<longrightarrow> s \<in> set (seats (db w'))) \<and>
    (\<forall>a \<in> set (assignments (db w)). sa_booking a \<notin> set ids \<longrightarrow> a \<in> set (assignments (db w'))) \<and>
    (\<forall>s \<in> set (seats (db w')). fs_booking s \<in> Some ` set ids \<longrightarrow> fs_state s \<noteq> SEAT_HELD) \<and>
    (\<forall>a \<in> set (assignments (db w')). sa_booking a \<in> set ids \<longrightarrow> sa_status a \<noteq> A_HELD)"
proof -
  from ExpireHolds_Inr [OF run keys] obtain k ids where l: "1 \<le> limit"
    and ids: "ids = expirable (row_locked E k) (clock E k) limit (db w)" "n = length ids" "distinct ids"
    and t: "expired_together (set ids) (db w) (db w')" by blast
  have "length ids \<le> nat limit" unfolding ids(1) expirable_def by simp
  then have "int n \<le> limit" using l ids(2) by simp
  moreover have mem: "\<exists>r \<in> set (bookings (db w)). b_id r = b \<and> hold_expired (clock E k) r" if "b \<in> set ids" for b
    using that unfolding ids(1) expirable_def by (auto dest!: in_set_takeD)
  moreover have "\<forall>b \<in> set ids. \<exists>r \<in> set (bookings (db w)). b_id r = b \<and> hold_expired (clock E k) r \<and>
       r\<lparr>b_status := B_EXPIRED, b_version := b_version r + 1\<rparr> \<in> set (bookings (db w'))"
  proof
    fix b assume b: "b \<in> set ids"
    with mem obtain r where r: "r \<in> set (bookings (db w))" "b_id r = b" "hold_expired (clock E k) r" by blast
    have "r\<lparr>b_status := B_EXPIRED, b_version := b_version r + 1\<rparr> \<in>
      set (update_where (\<lambda>r. b_id r \<in> set ids) (\<lambda>r. r\<lparr>b_status := B_EXPIRED, b_version := b_version r + 1\<rparr>) (bookings (db w)))"
      using r(1,2) b
      by (intro in_update_where [where f = "\<lambda>r. r\<lparr>b_status := B_EXPIRED, b_version := b_version r + 1\<rparr>"]) auto
    with t r show "\<exists>r \<in> set (bookings (db w)). b_id r = b \<and> hold_expired (clock E k) r \<and>
       r\<lparr>b_status := B_EXPIRED, b_version := b_version r + 1\<rparr> \<in> set (bookings (db w'))"
      by (auto simp: expired_together_def)
  qed
  moreover have "\<forall>r \<in> set (bookings (db w)). b_id r \<notin> set ids \<longrightarrow> r \<in> set (bookings (db w'))"
    using t by (simp add: expired_together_def in_update_where_same)
  moreover have "\<forall>s \<in> set (seats (db w)). fs_booking s \<notin> Some ` set ids \<longrightarrow> s \<in> set (seats (db w'))"
  proof (intro ballI impI)
    fix s assume s: "s \<in> set (seats (db w))" "fs_booking s \<notin> Some ` set ids"
    have "s \<in> set (update_where (\<lambda>s. (\<exists>b \<in> set ids. fs_booking s = Some b) \<and> fs_state s = SEAT_HELD) free_seat (seats (db w)))"
      using s by (intro in_update_where_same) auto
    with t show "s \<in> set (seats (db w'))" by (simp add: expired_together_def)
  qed
  moreover have "\<forall>a \<in> set (assignments (db w)). sa_booking a \<notin> set ids \<longrightarrow> a \<in> set (assignments (db w'))"
    using t by (simp add: expired_together_def in_update_where_same)
  moreover have "\<forall>s \<in> set (seats (db w')). fs_booking s \<in> Some ` set ids \<longrightarrow> fs_state s \<noteq> SEAT_HELD"
    using t by (auto simp: expired_together_def set_update_where free_seat_def)
  moreover have "\<forall>a \<in> set (assignments (db w')). sa_booking a \<in> set ids \<longrightarrow> sa_status a \<noteq> A_HELD"
    using t by (auto simp: expired_together_def set_update_where)
  ultimately show ?thesis using ids(2,3) by (intro exI [of _ ids] exI [of _ "clock E k"]) auto
qed

lemma demo_expire_facts:
  "case ExpireHolds 10 demo_env (demo_world (demo_held B_HELD (900 * second))) of (r, w) \<Rightarrow> r = Inr 1"
  by code_simp

definition demo_expired :: "database world" where
  "demo_expired = snd (ExpireHolds 10 demo_env (demo_world (demo_held B_HELD (900 * second))))"

lemma demo_expire_run: "ExpireHolds 10 demo_env (demo_world (demo_held B_HELD (900 * second))) = (Inr 1, demo_expired)"
  using demo_expire_facts by (auto simp: demo_expired_def split: prod.splits)

theorem expire_only_expired_witness:
  "\<exists>ids. length ids = 1 \<and> (\<forall>s \<in> set (seats (db demo_expired)). fs_booking s \<in> Some ` set ids \<longrightarrow> fs_state s \<noteq> SEAT_HELD)"
proof -
  have "distinct (map b_id (bookings (db (demo_world (demo_held B_HELD (900 * second))))))" by code_simp
  from expire_only_expired [OF demo_expire_run this] show ?thesis by blast
qed

text \<open>What keeps a batch from failing on a constraint: the rows obey the CHECKs, and the ids the
  database generates are new.\<close>

definition fresh_events :: "env \<Rightarrow> database world \<Rightarrow> bool" where
  "fresh_events E w \<longleftrightarrow>
     (\<forall>n. pc w \<le> n \<longrightarrow> gen_uuid E n 0 \<notin> ob_id ` set (outbox (db w))) \<and>
     (\<forall>n m. gen_uuid E n 0 = gen_uuid E m 0 \<longrightarrow> n = m)"

definition rows_ok :: "database \<Rightarrow> bool" where
  "rows_ok d \<longleftrightarrow>
     inventory_ok d \<and> list_all booking_check (bookings d) \<and> list_all assignment_check (assignments d)"

text \<open>The bookings of a list can be expired.\<close>

definition all_active :: "uuid list \<Rightarrow> database \<Rightarrow> bool" where
  "all_active ids d \<longleftrightarrow>
     (\<forall>r \<in> set (bookings d). b_id r \<in> set ids \<longrightarrow> b_status r = B_HELD \<or> b_status r = B_PAYMENT_PENDING)"

lemma stmt_runs:
  "fault E (pc w) = None \<Longrightarrow> q E w = Inr (a, d) \<Longrightarrow> stmt q E w = (Inr a, w\<lparr>pc := Suc (pc w), db := d\<rparr>)"
  by (simp add: stmt_Inr)

lemma free_seat_check: "seat_check s \<Longrightarrow> seat_check (free_seat s)"
  by (auto simp: seat_check_def free_seat_def)

lemma expired_assignment_check: "assignment_check a \<Longrightarrow> assignment_check (a\<lparr>sa_status := A_EXPIRED\<rparr>)"
  by (cases "sa_hold a") (auto simp: assignment_check_def)

lemma expire_booking_runs:
  assumes quiet: "\<And>n. fault E n = None" and ok: "rows_ok (db w)" and fresh: "fresh_events E w"
    and act: "all_active (b # ids) (db w)" and new: "b \<notin> set ids"
  shows "\<exists>w'. expire_booking b E w = (Inr (), w') \<and> rows_ok (db w') \<and> fresh_events E w' \<and> all_active ids (db w')"
proof -
  let ?A = "update_where (\<lambda>a. sa_booking a = b \<and> sa_status a = A_HELD) (\<lambda>a. a\<lparr>sa_status := A_EXPIRED\<rparr>) (assignments (db w))"
  let ?d = "(db w)\<lparr>assignments := ?A, seats := update_where (\<lambda>s. fs_booking s = Some b \<and> fs_state s = SEAT_HELD) free_seat (seats (db w))\<rparr>"
  let ?w1 = "w\<lparr>pc := Suc (Suc (Suc (pc w))), db := ?d\<rparr>"
  have inv: "inventory_ok (db w)" and checks: "\<forall>r \<in> set (bookings (db w)). booking_check r"
    "\<forall>a \<in> set (assignments (db w)). assignment_check a"
    using ok by (auto simp: rows_ok_def list_all_iff)
  have "active_unique ?A"
    using release.after_active_unique [of "assignments (db w)" b True] inventory_active_unique [OF inv] by simp
  then have rel: "releaseInventory b A_EXPIRED E w = (Inr (), ?w1)"
    using checks(2) inventory_seat_check [OF inv] quiet
    by (auto simp: releaseInventory_def run_simps op_defs
        intro!: exI [of _ "w\<lparr>pc := Suc (pc w)\<rparr>"] free_seat_check expired_assignment_check)
  let ?e = "\<lparr>ob_id = gen_uuid E (Suc (Suc (Suc (Suc (Suc (pc w)))))) 0, ob_aggregate = b, ob_type = ''BOOKING_EXPIRED'', ob_attempts = 0,
      ob_next = txn w, ob_locked = None, ob_token = None, ob_delivered = None, ob_dead = None\<rparr>"
  let ?f = "\<lambda>r. r\<lparr>b_status := B_EXPIRED, b_version := b_version r + 1\<rparr>"
  let ?w' = "w\<lparr>pc := Suc (Suc (Suc (Suc (Suc (Suc (pc w)))))), db := ?d\<lparr>
      segments := update_where (\<lambda>r. bs_booking r = b \<and> (bs_status r = S_DRAFT \<or> bs_status r = S_HELD))
        (\<lambda>r. r\<lparr>bs_status := S_CANCELLED\<rparr>) (segments (db w)),
      bookings := update_where (\<lambda>r. b_id r = b) ?f (bookings (db w)), outbox := outbox (db w) @ [?e]\<rparr>\<rparr>"
  have upd: "booking_check (?f r)" if "r \<in> set (bookings (db w))" for r
    using checks(1) that by (auto simp: booking_check_def)
  have "transition_ok (b_status r) B_EXPIRED" if "r \<in> set (bookings (db w))" "b_id r = b" for r
    using act that by (auto simp: all_active_def transition_ok_def)
  moreover have "ob_id ?e \<notin> ob_id ` set (outbox (db w))"
    using fresh by (simp add: fresh_events_def)
  ultimately have run: "expire_booking b E w = (Inr (), ?w')"
    using upd quiet
    by (auto simp: expire_booking_def rel run_simps op_defs)
  have "inventory_ok ?d" using releaseInventory_ok [OF rel inv] by simp
  then have "rows_ok (db ?w')"
    using checks upd by (auto simp: rows_ok_def list_all_iff set_update_where intro: expired_assignment_check)
  moreover have "fresh_events E ?w'"
  proof -
    have "gen_uuid E n 0 \<noteq> ob_id ?e" if "pc ?w' \<le> n" for n
    proof
      assume "gen_uuid E n 0 = ob_id ?e"
      with fresh have "n = Suc (Suc (Suc (Suc (Suc (pc w)))))" by (auto simp: fresh_events_def)
      with that show False by simp
    qed
    with fresh show ?thesis by (simp add: fresh_events_def)
  qed
  moreover have "all_active ids (db ?w')"
    using act new by (auto simp: all_active_def set_update_where)
  ultimately show ?thesis using run by blast
qed

lemma expire_loop_runs:
  assumes "\<And>n. fault E n = None" and "rows_ok (db w)" and "fresh_events E w"
    and "all_active ids (db w)" and "distinct ids"
  shows "\<exists>w'. for_each ids expire_booking E w = (Inr (), w')"
  using assms(2-5)
proof (induction ids arbitrary: w)
  case Nil
  then show ?case by simp
next
  case (Cons b ids)
  with expire_booking_runs [OF assms(1), of w b ids] obtain w1 where
    "expire_booking b E w = (Inr (), w1)" "rows_ok (db w1)" "fresh_events E w1" "all_active ids (db w1)"
    by auto
  with Cons.IH [of w1] Cons.prems(4) show ?case by (auto simp: andthen_Inr)
qed



end
