(* ===== verification/Ledger.thy ===== *)
theory Ledger
  imports Inventory
begin

text \<open>
  The invariant that spans the components: what the status of a booking says about its seats,
  its payment and its refund.  Every write of the program keeps it; the theories of the
  components show it for their operations and \<open>System\<close> for whole runs.
\<close>

subsection \<open>The status of a booking\<close>

definition bstat :: "database \<Rightarrow> uuid \<Rightarrow> booking_status option" where
  "bstat d b = map_option b_status (find_row (\<lambda>r. b_id r = b) (bookings d))"

text \<open>Which bookings may hold or own a seat.\<close>

definition seat_status_ok :: "database \<Rightarrow> seat_row \<Rightarrow> bool" where
  "seat_status_ok d s \<longleftrightarrow>
     (\<forall>b. fs_booking s = Some b \<longrightarrow>
        (fs_state s = SEAT_HELD \<longrightarrow> bstat d b \<in> {Some B_HELD, Some B_PAYMENT_PENDING}) \<and>
        (fs_state s = BOOKED \<longrightarrow> bstat d b \<in> {Some B_CONFIRMED, Some B_TICKETED}))"

text \<open>The booking statuses a payment may meet.\<close>

primrec allowed :: "payment_status \<Rightarrow> booking_status set" where
  "allowed P_PENDING = {B_PAYMENT_PENDING, B_EXPIRED}"
| "allowed P_PROCESSING = {B_PAYMENT_PENDING, B_EXPIRED}"
| "allowed P_FAILED = {B_PAYMENT_PENDING, B_EXPIRED}"
| "allowed P_RECONCILIATION_REQUIRED = {B_PAYMENT_PENDING, B_EXPIRED}"
| "allowed P_SUCCEEDED = {B_CONFIRMED, B_TICKETED}"
| "allowed P_REFUND_PENDING = {B_PAYMENT_PENDING, B_EXPIRED, B_CANCELLED}"
| "allowed P_REFUNDED = {B_PAYMENT_PENDING, B_EXPIRED, B_REFUNDED}"

definition payment_ok :: "database \<Rightarrow> payment_row \<Rightarrow> bool" where
  "payment_ok d p \<longleftrightarrow> bstat d (p_booking p) \<in> Some ` allowed (p_status p)"

definition confirmed_paid :: "database \<Rightarrow> bool" where
  "confirmed_paid d \<longleftrightarrow>
     (\<forall>b. bstat d b \<in> {Some B_CONFIRMED, Some B_TICKETED} \<longrightarrow>
        (\<exists>p \<in> set (payments d). p_booking p = b \<and> p_status p = P_SUCCEEDED))"

text \<open>A refund gives back exactly what its payment took, and only once the payment is on its way
  back.\<close>

definition refund_ok :: "database \<Rightarrow> refund_row \<Rightarrow> bool" where
  "refund_ok d f \<longleftrightarrow>
     (\<exists>p \<in> set (payments d). p_id p = rf_payment f \<and> p_amount p = rf_amount f \<and>
        (p_status p = P_REFUND_PENDING \<or> p_status p = P_REFUNDED))"

definition keys_ok :: "database \<Rightarrow> bool" where
  "keys_ok d \<longleftrightarrow>
     distinct (map b_id (bookings d)) \<and> distinct (map p_id (payments d)) \<and>
     distinct (map p_booking (payments d)) \<and> distinct (map rf_payment (refunds d))"

definition ledger_ok :: "database \<Rightarrow> bool" where
  "ledger_ok d \<longleftrightarrow>
     inventory_ok d \<and> keys_ok d \<and> (\<forall>s \<in> set (seats d). seat_status_ok d s) \<and>
     (\<forall>p \<in> set (payments d). payment_ok d p) \<and> confirmed_paid d \<and> (\<forall>f \<in> set (refunds d). refund_ok d f)"

lemma ledger_okD:
  assumes "ledger_ok d"
  shows ledger_inventory: "inventory_ok d"
    and ledger_keys: "keys_ok d"
    and ledger_seat: "s \<in> set (seats d) \<Longrightarrow> seat_status_ok d s"
    and ledger_payment: "p \<in> set (payments d) \<Longrightarrow> payment_ok d p"
    and ledger_confirmed: "confirmed_paid d"
    and ledger_refund: "f \<in> set (refunds d) \<Longrightarrow> refund_ok d f"
  using assms by (auto simp: ledger_ok_def)

lemma ledger_frame [simp]:
  "ledger_ok (d\<lparr>users := x0\<rparr>) = ledger_ok d"
  "ledger_ok (d\<lparr>segments := x2\<rparr>) = ledger_ok d"
  "ledger_ok (d\<lparr>passengers := x3\<rparr>) = ledger_ok d"
  "ledger_ok (d\<lparr>outbox := x4\<rparr>) = ledger_ok d"
  "ledger_ok (d\<lparr>idem_records := x5\<rparr>) = ledger_ok d"
  "ledger_ok (d\<lparr>attempts := x7\<rparr>) = ledger_ok d"
  "ledger_ok (d\<lparr>webhooks := x8\<rparr>) = ledger_ok d"
  "ledger_ok (d\<lparr>quotes := x10\<rparr>) = ledger_ok d"
  "ledger_ok (d\<lparr>quote_items := x11\<rparr>) = ledger_ok d"
  "ledger_ok (d\<lparr>receipts := x12\<rparr>) = ledger_ok d"
  by (simp_all add: ledger_ok_def inventory_ok_def keys_ok_def seat_status_ok_def payment_ok_def
      confirmed_paid_def refund_ok_def bstat_def)

lemma ledger_ok_empty: "ledger_ok empty_db"
  by (simp add: ledger_ok_def inventory_ok_empty) (simp add: empty_db_def keys_ok_def confirmed_paid_def bstat_def)

subsection \<open>The tables the invariant reads\<close>

lemma ledger_cong:
  assumes "bookings d' = bookings d" and "payments d' = payments d" and "refunds d' = refunds d"
    and "seats d' = seats d" and "assignments d' = assignments d"
  shows "ledger_ok d' = ledger_ok d"
  using assms by (simp add: ledger_ok_def inventory_ok_def keys_ok_def seat_status_ok_def payment_ok_def
      confirmed_paid_def refund_ok_def bstat_def)

lemma bstat_update:
  assumes "bookings d' = update_where (\<lambda>r. b_id r \<in> bs) f (bookings d)"
    and "\<And>r. b_id (f r) = b_id r" and "\<And>r. b_status (f r) = st"
  shows "bstat d' b = (if b \<in> bs then map_option (\<lambda>_. st) (bstat d b) else bstat d b)"
proof -
  have "map_option b_status (find_row (\<lambda>r. b_id r = b) (update_where (\<lambda>r. b_id r \<in> bs) f rows)) =
      (if b \<in> bs then map_option (\<lambda>_. st) (map_option b_status (find_row (\<lambda>r. b_id r = b) rows))
       else map_option b_status (find_row (\<lambda>r. b_id r = b) rows))" for rows
    using assms(2,3) by (induction rows) auto
  with assms(1) show ?thesis by (simp add: bstat_def)
qed

lemmas bstat_update_one = bstat_update [where bs = "{b0}" for b0, simplified]

lemma bstat_append:
  "bstat (d\<lparr>bookings := bookings d @ [r]\<rparr>) b =
     (case bstat d b of Some st \<Rightarrow> Some st | None \<Rightarrow> if b_id r = b then Some (b_status r) else None)"
proof -
  have "find_row p (xs @ [r]) = (case find_row p xs of Some y \<Rightarrow> Some y | None \<Rightarrow> if p r then Some r else None)"
    for p and xs :: "booking_row list" by (induction xs) auto
  then show ?thesis by (auto simp: bstat_def split: option.splits)
qed

lemma bstat_row:
  assumes "distinct (map b_id (bookings d))" and "r \<in> set (bookings d)"
  shows "bstat d (b_id r) = Some (b_status r)"
proof (cases "find_row (\<lambda>x. b_id x = b_id r) (bookings d)")
  case None
  with assms(2) find_row_NoneD [OF None] show ?thesis by blast
next
  case (Some x)
  with find_row_SomeD [OF Some] have "x = r" using assms by (blast intro: distinct_map_same)
  with Some show ?thesis by (simp add: bstat_def)
qed

lemma bstat_Some:
  "bstat d b = Some st \<Longrightarrow> \<exists>r \<in> set (bookings d). b_id r = b \<and> b_status r = st"
  by (auto simp: bstat_def dest: find_row_SomeD)

subsection \<open>Rebuilding the invariant\<close>

text \<open>After a change of the status of some bookings it is enough to look at those bookings.\<close>

lemma ledger_okI:
  assumes inv: "inventory_ok d'" and old: "ledger_ok d" and keys: "keys_ok d'"
    and same: "\<And>b. b \<notin> B \<Longrightarrow> bstat d' b = bstat d b"
    and seats: "\<And>s. s \<in> set (seats d') \<Longrightarrow> s \<in> set (seats d) \<and> fs_booking s \<notin> Some ` B \<or> seat_status_ok d' s"
    and pays: "\<And>p. p \<in> set (payments d') \<Longrightarrow> p \<in> set (payments d) \<and> p_booking p \<notin> B \<or> payment_ok d' p"
    and kept: "\<And>p. p \<in> set (payments d) \<Longrightarrow> p_booking p \<notin> B \<Longrightarrow> p \<in> set (payments d')"
    and paid: "\<And>b. b \<in> B \<Longrightarrow> bstat d' b \<in> {Some B_CONFIRMED, Some B_TICKETED} \<Longrightarrow>
       \<exists>p \<in> set (payments d'). p_booking p = b \<and> p_status p = P_SUCCEEDED"
    and refs: "\<And>f. f \<in> set (refunds d') \<Longrightarrow> refund_ok d' f"
  shows "ledger_ok d'"
proof -
  have "seat_status_ok d' s" if s: "s \<in> set (seats d')" for s
    using seats [OF s] ledger_seat [OF old, of s] same by (fastforce simp: seat_status_ok_def)
  moreover have "payment_ok d' p" if p: "p \<in> set (payments d')" for p
    using pays [OF p] ledger_payment [OF old, of p] same by (auto simp: payment_ok_def)
  moreover have "confirmed_paid d'"
    unfolding confirmed_paid_def
  proof (intro allI impI)
    fix b assume b: "bstat d' b \<in> {Some B_CONFIRMED, Some B_TICKETED}"
    show "\<exists>p \<in> set (payments d'). p_booking p = b \<and> p_status p = P_SUCCEEDED"
    proof (cases "b \<in> B")
      case True
      with paid b show ?thesis by blast
    next
      case False
      with same b have "bstat d b \<in> {Some B_CONFIRMED, Some B_TICKETED}" by simp
      with ledger_confirmed [OF old] obtain p where "p \<in> set (payments d)" "p_booking p = b" "p_status p = P_SUCCEEDED"
        by (auto simp: confirmed_paid_def)
      with kept False show ?thesis by blast
    qed
  qed
  ultimately show ?thesis using inv keys refs by (simp add: ledger_ok_def)
qed

text \<open>The case without a write to payments and refunds.\<close>

lemma ledger_okI_unpaid:
  assumes inv: "inventory_ok d'" and old: "ledger_ok d" and keys: "distinct (map b_id (bookings d'))"
    and same: "\<And>b. b \<notin> B \<Longrightarrow> bstat d' b = bstat d b"
    and seats: "\<And>s. s \<in> set (seats d') \<Longrightarrow> s \<in> set (seats d) \<and> fs_booking s \<notin> Some ` B \<or> seat_status_ok d' s"
    and pays: "payments d' = payments d" "refunds d' = refunds d"
    and ok: "\<And>p. p \<in> set (payments d) \<Longrightarrow> p_booking p \<in> B \<Longrightarrow> payment_ok d' p"
    and paid: "\<And>b. b \<in> B \<Longrightarrow> bstat d' b \<notin> {Some B_CONFIRMED, Some B_TICKETED}"
  shows "ledger_ok d'"
proof (rule ledger_okI [OF inv old _ same seats])
  show "keys_ok d'" using ledger_keys [OF old] keys pays by (simp add: keys_ok_def)
  show "refund_ok d' f" if "f \<in> set (refunds d')" for f
    using ledger_refund [OF old, of f] that pays by (simp add: refund_ok_def)
qed (use pays ok paid in auto)

text \<open>No payment exists for a booking that was never put forward for payment.\<close>

lemma unpaid_booking:
  assumes "ledger_ok d" and "bstat d b \<in> {Some B_DRAFT, Some B_HELD}" and "p \<in> set (payments d)"
  shows "p_booking p \<noteq> b"
proof
  assume "p_booking p = b"
  with ledger_payment [OF assms(1,3)] assms(2) show False
    by (cases "p_status p") (auto simp: payment_ok_def)
qed

end
