(* ===== verification/Encoding.thy ===== *)
theory Encoding
  imports Validate
begin

text \<open>
  The text encodings of \<^verbatim>\<open>encoding/hex\<close>, \<^verbatim>\<open>encoding/base32\<close> and \<^verbatim>\<open>encoding/base64\<close> the code
  uses: signatures and hashes in hex, booking references in base 32, session tokens and password
  hashes in unpadded base 64.  Every encoding is read back by its decoder.
\<close>

lemma byte_char_of: "n < 256 \<Longrightarrow> byte (char_of n) = n"
  by (simp add: byte_def)

lemma char_of_byte [simp]: "char_of (byte c) = c"
  by (simp add: byte_def)

subsection \<open>Hex\<close>

definition hex_value :: "char \<Rightarrow> nat option" where
  "hex_value c =
     (if 48 \<le> byte c \<and> byte c \<le> 57 then Some (byte c - 48)
      else if 97 \<le> byte c \<and> byte c \<le> 102 then Some (byte c - 87)
      else if 65 \<le> byte c \<and> byte c \<le> 70 then Some (byte c - 55)
      else None)"

text \<open>\<^verbatim>\<open>hex.DecodeString\<close>.\<close>

fun hex_decode :: "string \<Rightarrow> string option" where
  "hex_decode [] = Some []"
| "hex_decode [c] = None"
| "hex_decode (a # b # cs) =
     (case (hex_value a, hex_value b, hex_decode cs) of
        (Some x, Some y, Some rest) \<Rightarrow> Some (char_of (16 * x + y) # rest)
      | _ \<Rightarrow> None)"

definition hex_digit :: "nat \<Rightarrow> char" where
  "hex_digit n = char_of (if n < 10 then 48 + n else 87 + n)"

text \<open>The same digits by a table, for evaluation.\<close>

lemma hex_digit_table [code]: "hex_digit n = (if n < 16 then ''0123456789abcdef'' ! n else char_of (87 + n))"
proof (cases "n < 16")
  case True
  have "[0..<16] = [0, 1, 2, 3, 4, 5, 6, 7, 8, 9, 10, 11, 12, 13, 14, 15]" by (simp add: upt_conv_Cons)
  moreover have "list_all (\<lambda>n. hex_digit n = ''0123456789abcdef'' ! n) [0, 1, 2, 3, 4, 5, 6, 7, 8, 9, 10, 11, 12, 13, 14, 15]"
    by (simp add: hex_digit_def char_of_def bit_Suc_0_iff)
  ultimately have "list_all (\<lambda>n. hex_digit n = ''0123456789abcdef'' ! n) [0..<16]" by (simp only:)
  with True show ?thesis by (simp add: list_all_iff)
qed (simp add: hex_digit_def)

text \<open>\<^verbatim>\<open>hex.EncodeToString\<close>.\<close>

definition hex_encode :: "string \<Rightarrow> string" where
  "hex_encode s = concat (map (\<lambda>c. [hex_digit (byte c div 16), hex_digit (byte c mod 16)]) s)"

lemma hex_value_digit: "n < 16 \<Longrightarrow> hex_value (hex_digit n) = Some n"
  by (auto simp: hex_value_def hex_digit_def byte_char_of)

lemma hex_decode_encode: "hex_decode (hex_encode s) = Some s"
proof (induction s)
  case Nil
  then show ?case by (simp add: hex_encode_def)
next
  case (Cons c s)
  have "byte c div 16 < 16" using byte_less_256 [of c] by (simp add: less_mult_imp_div_less)
  moreover have "char_of (16 * (byte c div 16) + byte c mod 16) = c" by simp
  ultimately show ?case using Cons
    by (simp add: hex_encode_def hex_value_digit)
qed

lemma length_hex_encode [simp]: "length (hex_encode s) = 2 * length s"
  by (induction s) (simp_all add: hex_encode_def)

subsection \<open>Digits of a block\<close>

text \<open>The \<open>k\<close> digits of \<open>n\<close> to the base \<open>b\<close>, the highest first.\<close>

fun digits :: "nat \<Rightarrow> nat \<Rightarrow> nat \<Rightarrow> nat list" where
  "digits b 0 n = []"
| "digits b (Suc k) n = digits b k (n div b) @ [n mod b]"

definition undigits :: "nat \<Rightarrow> nat list \<Rightarrow> nat" where
  "undigits b ds = foldl (\<lambda>n d. b * n + d) 0 ds"

lemma undigits_snoc [simp]: "undigits b (ds @ [d]) = b * undigits b ds + d"
  by (simp add: undigits_def)

lemma undigits_Nil [simp]: "undigits b [] = 0"
  by (simp add: undigits_def)

lemma length_digits [simp]: "length (digits b k n) = k"
  by (induction k arbitrary: n) auto

lemma digits_less: "0 < b \<Longrightarrow> d \<in> set (digits b k n) \<Longrightarrow> d < b"
  by (induction k arbitrary: n) auto

lemma undigits_digits: "n < b ^ k \<Longrightarrow> undigits b (digits b k n) = n"
proof (induction k arbitrary: n)
  case 0
  then show ?case by simp
next
  case (Suc k)
  then have "n div b < b ^ k" by (simp add: less_mult_imp_div_less mult.commute)
  with Suc.IH show ?case by simp
qed

lemma digits_undigits:
  "\<forall>d \<in> set ds. d < b \<Longrightarrow> digits b (length ds) (undigits b ds) = ds"
proof (induction ds rule: rev_induct)
  case (snoc d ds)
  then have "b * undigits b ds + d = d + undigits b ds * b" "d < b" by simp_all
  with snoc show ?case by (cases "b = 0") auto
qed simp

lemma undigits_less: "\<forall>d \<in> set ds. d < b \<Longrightarrow> undigits b ds < b ^ length ds"
proof (induction ds rule: rev_induct)
  case (snoc d ds)
  then have "undigits b ds + 1 \<le> b ^ length ds" "d < b" by simp_all
  then have "b * (undigits b ds + 1) \<le> b * b ^ length ds" by (intro mult_le_mono2)
  with \<open>d < b\<close> show ?case by simp
qed simp

subsection \<open>Base 32\<close>

definition base32_char :: "nat \<Rightarrow> char" where
  "base32_char n = char_of (if n < 26 then 65 + n else 24 + n)"

text \<open>\<^verbatim>\<open>base32.StdEncoding\<close> without padding on a block of five bytes, the only size encoded.\<close>

definition base32_block :: "nat list \<Rightarrow> string" where
  "base32_block raw = map base32_char (digits 32 8 (undigits 256 raw))"

lemma byte_base32: "n < 32 \<Longrightarrow> byte (base32_char n) = (if n < 26 then 65 + n else 24 + n)"
  by (simp add: base32_char_def byte_char_of)

lemma base32_char_inj: "m < 32 \<Longrightarrow> n < 32 \<Longrightarrow> base32_char m = base32_char n \<Longrightarrow> m = n"
proof -
  assume m: "m < 32" and n: "n < 32" and eq: "base32_char m = base32_char n"
  have "(if m < 26 then 65 + m else 24 + m) = (if n < 26 then 65 + n else 24 + n)"
    using arg_cong [OF eq, of byte] unfolding byte_base32 [OF m] byte_base32 [OF n] .
  then show "m = n" using m n by (cases "m < 26"; cases "n < 26") simp_all
qed

lemma length_base32 [simp]: "length (base32_block raw) = 8"
  by (simp add: base32_block_def)

lemma base32_inj:
  assumes "base32_block xs = base32_block ys" and "length xs = 5" and "length ys = 5"
    and "\<forall>b \<in> set xs. b < 256" and "\<forall>b \<in> set ys. b < 256"
  shows "xs = ys"
proof -
  let ?d = "\<lambda>zs. digits 32 8 (undigits 256 zs)"
  have less: "d < 32" if "d \<in> set (?d zs)" for d zs using that by (rule digits_less [rotated]) simp
  have "?d xs = ?d ys"
    by (rule map_inj_on [of base32_char])
      (use assms(1) less in \<open>auto simp: base32_block_def intro!: inj_onI base32_char_inj\<close>)
  moreover have "undigits 256 zs < 32 ^ 8" if "length zs = 5" "\<forall>b \<in> set zs. b < 256" for zs
  proof -
    have "(256::nat) ^ 5 = 32 ^ 8" by simp
    with undigits_less [OF that(2)] that(1) show ?thesis by metis
  qed
  ultimately have "undigits 256 xs = undigits 256 ys"
    using assms(2-5) undigits_digits [of _ 32 8] by metis
  then show ?thesis
    using digits_undigits [OF assms(4)] digits_undigits [OF assms(5)] assms(2,3) by metis
qed

subsection \<open>Base 64\<close>

text \<open>\<^verbatim>\<open>base64.RawURLEncoding\<close> (\<open>url\<close>) and \<^verbatim>\<open>base64.RawStdEncoding\<close>: no padding; the decoder skips
  line ends and ignores the unused bits of the last character.\<close>

definition base64_char :: "bool \<Rightarrow> nat \<Rightarrow> char" where
  "base64_char url n =
     char_of (if n < 26 then 65 + n else if n < 52 then 71 + n else if n < 62 then n - 4
              else if n = 62 then (if url then 45 else 43) else (if url then 95 else 47))"

definition base64_value :: "bool \<Rightarrow> char \<Rightarrow> nat option" where
  "base64_value url c =
     (if 65 \<le> byte c \<and> byte c \<le> 90 then Some (byte c - 65)
      else if 97 \<le> byte c \<and> byte c \<le> 122 then Some (byte c - 71)
      else if 48 \<le> byte c \<and> byte c \<le> 57 then Some (byte c + 4)
      else if byte c = (if url then 45 else 43) then Some 62
      else if byte c = (if url then 95 else 47) then Some 63
      else None)"

fun sextets :: "nat list \<Rightarrow> nat list" where
  "sextets [] = []"
| "sextets [a] = digits 64 2 (a * 16)"
| "sextets [a, b] = digits 64 3 (undigits 256 [a, b] * 4)"
| "sextets (a # b # c # bs) = digits 64 4 (undigits 256 [a, b, c]) @ sextets bs"

fun octets :: "nat list \<Rightarrow> nat list option" where
  "octets [] = Some []"
| "octets [x] = None"
| "octets [x, y] = Some (digits 256 1 (undigits 64 [x, y] div 16))"
| "octets [x, y, z] = Some (digits 256 2 (undigits 64 [x, y, z] div 4))"
| "octets (x # y # z # u # vs) = map_option ((@) (digits 256 3 (undigits 64 [x, y, z, u]))) (octets vs)"

definition base64_encode :: "bool \<Rightarrow> nat list \<Rightarrow> string" where
  "base64_encode url bs = map (base64_char url) (sextets bs)"

definition base64_decode :: "bool \<Rightarrow> string \<Rightarrow> nat list option" where
  "base64_decode url s =
     (case those (map (base64_value url) (filter (\<lambda>c. byte c \<noteq> 13 \<and> byte c \<noteq> 10) s)) of
        None \<Rightarrow> None | Some vs \<Rightarrow> octets vs)"

lemma byte_base64:
  "n < 64 \<Longrightarrow> byte (base64_char url n) = (if n < 26 then 65 + n else if n < 52 then 71 + n else if n < 62 then n - 4
     else if n = 62 then (if url then 45 else 43) else (if url then 95 else 47))"
  by (simp add: base64_char_def byte_char_of)

lemma base64_value_char: "n < 64 \<Longrightarrow> base64_value url (base64_char url n) = Some n"
  by (auto simp: base64_value_def byte_base64)

lemma base64_no_newline: "n < 64 \<Longrightarrow> byte (base64_char url n) \<noteq> 13 \<and> byte (base64_char url n) \<noteq> 10"
  by (auto simp: byte_base64)

lemma sextets_less: "d \<in> set (sextets bs) \<Longrightarrow> d < 64"
  by (induction bs rule: sextets.induct) (auto dest: digits_less [rotated])

lemma those_map_Some: "\<forall>x \<in> set xs. f (g x) = Some x \<Longrightarrow> those (map f (map g xs)) = Some xs"
  by (induction xs) auto

lemma length_cases:
  "length xs = Suc (Suc 0) \<Longrightarrow> \<exists>a b. xs = [a, b]"
  "length xs = Suc (Suc (Suc 0)) \<Longrightarrow> \<exists>a b c. xs = [a, b, c]"
  "length xs = Suc (Suc (Suc (Suc 0))) \<Longrightarrow> \<exists>a b c d. xs = [a, b, c, d]"
  by (simp_all only: length_Suc_conv length_0_conv) blast+

lemma octets_blocks:
  "octets (digits b 2 n) = Some (digits 256 1 (undigits 64 (digits b 2 n) div 16))"
  "octets (digits b 3 n) = Some (digits 256 2 (undigits 64 (digits b 3 n) div 4))"
  "octets (digits b 4 n @ vs) = map_option ((@) (digits 256 3 (undigits 64 (digits b 4 n)))) (octets vs)"
proof -
  have "length (digits b 2 n) = Suc (Suc 0)" "length (digits b 3 n) = Suc (Suc (Suc 0))"
    "length (digits b 4 n) = Suc (Suc (Suc (Suc 0)))" by simp_all
  with length_cases obtain x2 y2 x3 y3 z3 x4 y4 z4 u4 where
    "digits b 2 n = [x2, y2]" "digits b 3 n = [x3, y3, z3]" "digits b 4 n = [x4, y4, z4, u4]" by metis
  then show "octets (digits b 2 n) = Some (digits 256 1 (undigits 64 (digits b 2 n) div 16))"
    "octets (digits b 3 n) = Some (digits 256 2 (undigits 64 (digits b 3 n) div 4))"
    "octets (digits b 4 n @ vs) = map_option ((@) (digits 256 3 (undigits 64 (digits b 4 n)))) (octets vs)"
    by simp_all
qed

lemma digits_block:
  "\<forall>d \<in> set ds. d < b \<Longrightarrow> length ds = k \<Longrightarrow> digits b k (undigits b ds) = ds"
  using digits_undigits by blast

lemma octets_sextets: "\<forall>b \<in> set bs. b < 256 \<Longrightarrow> octets (sextets bs) = Some bs"
proof (induction bs rule: sextets.induct)
  case (2 a)
  then have "undigits 64 (digits 64 2 (a * 16)) = a * 16" by (intro undigits_digits) simp
  then have "octets (sextets [a]) = Some (digits 256 1 (undigits 256 [a]))" by (simp add: octets_blocks undigits_def)
  with digits_block [of "[a]" 256 1] 2 show ?case by simp
next
  case (3 a b)
  have l: "undigits 256 [a, b] < 256 ^ 2" using undigits_less [of "[a, b]" 256] 3 by simp
  then have "undigits 256 [a, b] * 4 < 64 ^ 3" by simp
  then have "undigits 64 (digits 64 3 (undigits 256 [a, b] * 4)) = undigits 256 [a, b] * 4" by (rule undigits_digits)
  then have "octets (sextets [a, b]) = Some (digits 256 2 (undigits 256 [a, b]))" by (simp add: octets_blocks)
  with digits_block [of "[a, b]" 256 2] 3 show ?case by simp
next
  case (4 a b c bs)
  have "undigits 256 [a, b, c] < 256 ^ 3" using undigits_less [of "[a, b, c]" 256] 4(2) by simp
  then have "undigits 256 [a, b, c] < 64 ^ 4" by simp
  then have "undigits 64 (digits 64 4 (undigits 256 [a, b, c])) = undigits 256 [a, b, c]" by (rule undigits_digits)
  then have "octets (sextets (a # b # c # bs)) = map_option ((@) (digits 256 3 (undigits 256 [a, b, c]))) (octets (sextets bs))"
    by (simp add: octets_blocks)
  with digits_block [of "[a, b, c]" 256 3] 4 show ?case by simp
qed simp

lemma base64_decode_encode:
  assumes "\<forall>b \<in> set bs. b < 256"
  shows "base64_decode url (base64_encode url bs) = Some bs"
proof -
  have "filter (\<lambda>c. byte c \<noteq> 13 \<and> byte c \<noteq> 10) (base64_encode url bs) = base64_encode url bs"
    unfolding base64_encode_def by (rule filter_True) (auto simp: base64_no_newline sextets_less)
  moreover have "those (map (base64_value url) (base64_encode url bs)) = Some (sextets bs)"
    unfolding base64_encode_def by (rule those_map_Some) (auto intro: base64_value_char sextets_less)
  ultimately show ?thesis
    using octets_sextets [OF assms] by (simp add: base64_decode_def)
qed

lemma length_sextets: "length (sextets bs) = (4 * length bs + 2) div 3"
  by (induction bs rule: sextets.induct) simp_all

lemma length_base64: "length (base64_encode url bs) = (4 * length bs + 2) div 3"
  by (simp add: base64_encode_def length_sextets)

end
