(* ===== verification/Provider.thy ===== *)
theory Provider
  imports Schema Encoding "HOL-Library.AList"
begin

text \<open>
  \<^verbatim>\<open>internal/payment/provider.go\<close>: the webhook signature check, the \<open>Provider\<close> interface as
  the locale \<open>payment_provider\<close> (a provider answers a repeated key with the first result),
  and \<open>FakeProvider\<close>, which interprets it.  HMAC-SHA256 is the parameter \<open>mac\<close>.
\<close>

record pay_request =
  Key :: string
  PaymentID :: string
  Currency :: string
  AmountMinor :: int

record pay_result =
  Reference :: string
  Status :: string

subsection \<open>VerifySignature\<close>

text \<open>\<^verbatim>\<open>strconv.ParseInt(s, 10, 64)\<close>: an optional sign, then digits, in the range of \<^verbatim>\<open>int64\<close>.\<close>

fun digits_value :: "string \<Rightarrow> nat \<Rightarrow> nat option" where
  "digits_value [] acc = Some acc"
| "digits_value (c # cs) acc =
     (if 48 \<le> byte c \<and> byte c \<le> 57 then digits_value cs (10 * acc + (byte c - 48)) else None)"

definition ParseInt64 :: "string \<Rightarrow> int option" where
  "ParseInt64 s =
     (let neg = (case s of c # _ \<Rightarrow> c = CHR ''-'' | [] \<Rightarrow> False);
          body = (case s of c # cs \<Rightarrow> if c = CHR ''-'' \<or> c = CHR ''+'' then cs else s | [] \<Rightarrow> []) in
      if body = [] then None
      else case digits_value body 0 of
             None \<Rightarrow> None
           | Some n \<Rightarrow> (if neg then if int n \<le> 2 ^ 63 then Some (- int n) else None
                       else if int n < 2 ^ 63 then Some (int n) else None))"

text \<open>\<open>now\<close> counts microseconds and the timestamp seconds; \<^verbatim>\<open>time.Time.Sub\<close> saturates far outside
  the window, where both comparisons reject anyway.\<close>

definition VerifySignature ::
  "(string \<Rightarrow> string \<Rightarrow> string) \<Rightarrow> string \<Rightarrow> string \<Rightarrow> string \<Rightarrow> string \<Rightarrow> ts \<Rightarrow> bool" where
  "VerifySignature mac secret body timestamp signature now =
     (if length secret < 32 \<or> length signature \<noteq> 64 then False
      else case ParseInt64 timestamp of None \<Rightarrow> False | Some unix \<Rightarrow>
        (let delta = now - unix * second in
         if delta > 5 * minute \<or> delta < - minute then False
         else case hex_decode signature of None \<Rightarrow> False | Some decoded \<Rightarrow>
           decoded = mac secret (timestamp @ ''.'' @ body)))"

subsection \<open>The Provider interface\<close>

text \<open>A provider is its three calls over its own state.\<close>

record 's provider =
  prov_charge :: "pay_request \<Rightarrow> 's \<Rightarrow> (gerr + pay_result) \<times> 's"
  prov_lookup :: "string \<Rightarrow> 's \<Rightarrow> gerr + pay_result"
  prov_refund :: "pay_request \<Rightarrow> 's \<Rightarrow> (gerr + pay_result) \<times> 's"

text \<open>What \<^verbatim>\<open>Dispatch\<close> relies on: a key that was charged is answered from then on, whatever else
  is charged or refunded, and charging it again moves no money.\<close>

locale payment_provider =
  fixes prov :: "'s provider" and charges :: "'s \<Rightarrow> nat"
  assumes charged: "prov_charge prov r s = (Inr v, s') \<Longrightarrow> prov_lookup prov (Key r) s' = Inr v"
    and charge_keeps: "prov_lookup prov k s = Inr v \<Longrightarrow> prov_lookup prov k (snd (prov_charge prov r s)) = Inr v"
    and refund_keeps: "prov_lookup prov k s = Inr v \<Longrightarrow> prov_lookup prov k (snd (prov_refund prov r s)) = Inr v"
    and charges_once: "prov_lookup prov (Key r) s = Inr v \<Longrightarrow> charges (snd (prov_charge prov r s)) = charges s"
begin

text \<open>\<^verbatim>\<open>Lookup\<close>, then \<^verbatim>\<open>Charge\<close> when nothing is known.\<close>

definition settle :: "pay_request \<Rightarrow> 's \<Rightarrow> (gerr + pay_result) \<times> 's" where
  "settle r s = (case prov_lookup prov (Key r) s of Inr v \<Rightarrow> (Inr v, s) | Inl _ \<Rightarrow> prov_charge prov r s)"

text \<open>Settling again gives the same result and charges nothing.\<close>

lemma settle_again:
  assumes "settle r s = (Inr v, s')" and "Key r' = Key r"
  shows "settle r' s' = (Inr v, s')"
  using assms charged [of r s v s'] by (auto simp: settle_def split: sum.splits)

lemma settle_after_others:
  assumes "settle r s = (Inr v, s')"
  shows "settle r (snd (prov_charge prov q s')) = (Inr v, snd (prov_charge prov q s'))"
    and "settle r (snd (prov_refund prov q s')) = (Inr v, snd (prov_refund prov q s'))"
proof -
  have "prov_lookup prov (Key r) s' = Inr v"
    using assms charged [of r s v s'] by (auto simp: settle_def split: sum.splits)
  from charge_keeps [OF this, of q] refund_keeps [OF this, of q]
  show "settle r (snd (prov_charge prov q s')) = (Inr v, snd (prov_charge prov q s'))"
    "settle r (snd (prov_refund prov q s')) = (Inr v, snd (prov_refund prov q s'))"
    by (simp_all add: settle_def)
qed

end

subsection \<open>FakeProvider\<close>

text \<open>The results by key and the number of charges; \<open>ctx\<close> is \<^verbatim>\<open>ctx.Err()\<close>.\<close>

record fake =
  results :: "(string \<times> pay_result) list"
  Calls :: nat

definition fake_Charge :: "gerr option \<Rightarrow> pay_request \<Rightarrow> fake \<Rightarrow> (gerr + pay_result) \<times> fake" where
  "fake_Charge ctx r p =
     (case ctx of Some e \<Rightarrow> (Inl e, p)
      | None \<Rightarrow>
          (case map_of (results p) (Key r) of
             Some v \<Rightarrow> (Inr v, p)
           | None \<Rightarrow>
               (let v = \<lparr>Reference = ''fake-'' @ Key r, Status = ''SUCCEEDED''\<rparr> in
                (Inr v, p\<lparr>Calls := Calls p + 1, results := AList.update (Key r) v (results p)\<rparr>))))"

definition fake_Lookup :: "gerr option \<Rightarrow> string \<Rightarrow> fake \<Rightarrow> gerr + pay_result" where
  "fake_Lookup ctx k p =
     (case map_of (results p) k of
        None \<Rightarrow> Inl PaymentErrUnavailable
      | Some v \<Rightarrow> (case ctx of Some e \<Rightarrow> Inl e | None \<Rightarrow> Inr v))"

definition fake_Refund :: "gerr option \<Rightarrow> pay_request \<Rightarrow> fake \<Rightarrow> (gerr + pay_result) \<times> fake" where
  "fake_Refund ctx r p = fake_Charge ctx (r\<lparr>Key := ''refund-'' @ Key r\<rparr>) p"

definition FakeProvider :: "gerr option \<Rightarrow> fake provider" where
  "FakeProvider ctx =
     \<lparr>prov_charge = fake_Charge ctx, prov_lookup = fake_Lookup ctx, prov_refund = fake_Refund ctx\<rparr>"

interpretation fake: payment_provider "FakeProvider ctx" Calls for ctx
  by unfold_locales
    (auto simp: FakeProvider_def fake_Charge_def fake_Lookup_def fake_Refund_def Let_def update_conv'
       split: option.splits)

end
