(* ===== verification/Payment.thy ===== *)
theory Payment
  imports Lifecycle Provider
begin

text \<open>
  \<^verbatim>\<open>internal/payment/store.go\<close>: \<open>Start\<close> turns a complete HELD booking into a payment,
  \<open>Dispatch\<close> asks the provider and \<open>Apply\<close> turns a result into the booking's fate: confirmed,
  or refunded when the hold is gone.
\<close>

subsection \<open>Rows and statements\<close>

record payment =
  pay_id :: string
  pay_status :: string
  pay_currency :: string
  pay_amount :: int

primrec payment_text :: "payment_status \<Rightarrow> string" where
  "payment_text P_PENDING = ''PENDING''"
| "payment_text P_PROCESSING = ''PROCESSING''"
| "payment_text P_SUCCEEDED = ''SUCCEEDED''"
| "payment_text P_FAILED = ''FAILED''"
| "payment_text P_RECONCILIATION_REQUIRED = ''RECONCILIATION_REQUIRED''"
| "payment_text P_REFUND_PENDING = ''REFUND_PENDING''"
| "payment_text P_REFUNDED = ''REFUNDED''"

definition payment_json :: "payment \<Rightarrow> jval" where
  "payment_json p = JObj [(''ID'', JStr (pay_id p)), (''Status'', JStr (pay_status p)),
     (''Currency'', JStr (pay_currency p)), (''AmountMinor'', JNum (pay_amount p))]"

fun decode_payment :: "jval \<Rightarrow> payment option" where
  "decode_payment (JObj [(_, JStr i), (_, JStr s), (_, JStr c), (_, JNum a)]) =
     Some \<lparr>pay_id = i, pay_status = s, pay_currency = c, pay_amount = a\<rparr>"
| "decode_payment _ = None"

definition insert_payment :: "uuid \<Rightarrow> uuid \<Rightarrow> int \<Rightarrow> string \<Rightarrow> database \<Rightarrow> gerr + uuid \<times> database" where
  "insert_payment new b amount currency d =
     guarded
       [(check_violation, 0 \<le> amount \<and> currency_ok currency),
        (unique_violation, new \<notin> p_id ` set (payments d)),
        (unique_violation, b \<notin> p_booking ` set (payments d)),
        (foreign_key_violation, b \<in> b_id ` set (bookings d))]
       (new, d\<lparr>payments := payments d @
          [\<lparr>p_id = new, p_booking = b, p_amount = amount, p_currency = currency, p_status = P_PENDING,
            p_reference = None, p_version = 1\<rparr>]\<rparr>)"

definition insert_attempt :: "uuid \<Rightarrow> uuid \<Rightarrow> uuid \<Rightarrow> ts \<Rightarrow> database \<Rightarrow> gerr + unit \<times> database" where
  "insert_attempt new key p current d =
     guarded
       [(unique_violation, new \<notin> pa_id ` set (attempts d)),
        (unique_violation, key \<notin> pa_key ` set (attempts d)),
        (foreign_key_violation, p \<in> p_id ` set (payments d))]
       ((), d\<lparr>attempts := attempts d @
          [\<lparr>pa_id = new, pa_payment = p, pa_key = key, pa_status = PA_PENDING, pa_created = current\<rparr>]\<rparr>)"

text \<open>\<^verbatim>\<open>provider_reference\<close> is unique.\<close>

definition references_unique :: "payment_row list \<Rightarrow> bool" where
  "references_unique t \<longleftrightarrow> distinct (filter (\<lambda>r. r \<noteq> None) (map p_reference t))"

definition update_payments ::
  "(payment_row \<Rightarrow> bool) \<Rightarrow> (payment_row \<Rightarrow> payment_row) \<Rightarrow> database \<Rightarrow> gerr + nat \<times> database" where
  "update_payments p f d =
     (let t = update_where p f (payments d) in
      guarded [(unique_violation, references_unique t)]
        (count_where p (payments d), d\<lparr>payments := t\<rparr>))"

definition exec_update_payments ::
  "(payment_row \<Rightarrow> bool) \<Rightarrow> (payment_row \<Rightarrow> payment_row) \<Rightarrow> nat dbact" where
  "exec_update_payments p f = stmt (\<lambda>E w. update_payments p f (db w))"

definition exec_update_attempts ::
  "(attempt_row \<Rightarrow> bool) \<Rightarrow> (attempt_row \<Rightarrow> attempt_row) \<Rightarrow> unit dbact" where
  "exec_update_attempts p f =
     stmt (\<lambda>E w. Inr ((), (db w)\<lparr>attempts := update_where p f (attempts (db w))\<rparr>))"

text \<open>\<^verbatim>\<open>INSERT INTO webhook_events ... ON CONFLICT DO NOTHING\<close>: whether a row was inserted.\<close>

definition insert_webhook :: "string \<Rightarrow> string \<Rightarrow> uuid \<Rightarrow> string \<Rightarrow> database \<Rightarrow> gerr + bool \<times> database" where
  "insert_webhook provider event p type d =
     (if list_ex (\<lambda>h. wh_provider h = provider \<and> wh_event h = event) (webhooks d) then Inr (False, d)
      else guarded
        [(check_violation, 1 \<le> length event \<and> length event \<le> 200),
         (foreign_key_violation, p \<in> p_id ` set (payments d))]
        (True, d\<lparr>webhooks := webhooks d @
           [\<lparr>wh_provider = provider, wh_event = event, wh_payment = p, wh_type = type\<rparr>]\<rparr>))"

text \<open>\<^verbatim>\<open>INSERT INTO refunds ... ON CONFLICT DO NOTHING\<close>.\<close>

definition insert_refund_once :: "uuid \<Rightarrow> uuid \<Rightarrow> int \<Rightarrow> database \<Rightarrow> gerr + unit \<times> database" where
  "insert_refund_once new p amount d =
     (if p \<in> rf_payment ` set (refunds d) \<or> new \<in> rf_id ` set (refunds d) then Inr ((), d)
      else guarded
        [(check_violation, 0 \<le> amount), (foreign_key_violation, p \<in> p_id ` set (payments d))]
        ((), d\<lparr>refunds := refunds d @ [\<lparr>rf_id = new, rf_payment = p, rf_amount = amount, rf_status = R_PENDING\<rparr>]\<rparr>))"

subsection \<open>Start\<close>

text \<open>\<^verbatim>\<open>COALESCE(hold_expires_at>clock_timestamp(),false)\<close>.\<close>

definition hold_live :: "ts \<Rightarrow> booking_row \<Rightarrow> bool" where
  "hold_live t b = (case b_hold b of None \<Rightarrow> False | Some h \<Rightarrow> h > t)"

definition booking_complete :: "uuid \<Rightarrow> ts \<Rightarrow> database \<Rightarrow> bool" where
  "booking_complete b t d =
     (let n = count_where (\<lambda>p. bp_booking p = b) (passengers d) in
      n > 0 \<and>
      \<not> list_ex (\<lambda>bs. bs_booking bs = b \<and> list_ex (\<lambda>bk. b_id bk = bs_booking bs \<and>
           list_ex (\<lambda>qi. qi_quote qi = b_quote bk \<and> qi_flight qi = bs_flight bs \<and>
              (bs_status bs \<noteq> S_HELD \<or> qi_count qi \<noteq> n \<or>
               qi_count qi \<noteq> count_where (\<lambda>sa. sa_segment sa = bs_id bs \<and> sa_status sa = A_HELD \<and>
                 (case sa_hold sa of None \<Rightarrow> False | Some h \<Rightarrow> h > t)) (assignments d)))
             (quote_items d)) (bookings d)) (segments d))"

definition start_route :: "string \<Rightarrow> string" where
  "start_route bid = ''POST /v1/bookings/'' @ bid @ ''/payments''"

definition payment_of :: "env \<Rightarrow> payment_row \<Rightarrow> payment" where
  "payment_of E p = \<lparr>pay_id = uuid_text E (p_id p), pay_status = payment_text (p_status p),
     pay_currency = p_currency p, pay_amount = p_amount p\<rparr>"

definition start_existing :: "uuid \<Rightarrow> idem_record \<Rightarrow> payment tx_end dbact" where
  "start_existing b rec =
     andthen (stmt (\<lambda>E w. Inr (find_row (\<lambda>p. p_booking p = b) (payments (db w)), db w))) (\<lambda>row.
     case row of None \<Rightarrow> fail ErrNoRows | Some pr \<Rightarrow>
     andthen (reading (\<lambda>E. payment_of E pr)) (\<lambda>p.
     andthen (idem_save rec (p_id pr) (payment_json p)) (\<lambda>_.
     ret (Commit (Inr p)))))"

definition start_new :: "uuid \<Rightarrow> int \<Rightarrow> string \<Rightarrow> idem_record \<Rightarrow> payment tx_end dbact" where
  "start_new b amount currency rec =
     andthen (stmt (\<lambda>E w. insert_payment (gen_uuid E (pc w) 0) b amount currency (db w))) (\<lambda>pid.
     andthen (reading (\<lambda>E. \<lparr>pay_id = uuid_text E pid, pay_status = payment_text P_PENDING,
                pay_currency = currency, pay_amount = amount\<rparr>)) (\<lambda>p.
     andthen (stmt (\<lambda>E w. insert_attempt (gen_uuid E (pc w) 0) (gen_uuid E (pc w) 1) pid (txn w) (db w))) (\<lambda>_.
     andthen (exec_update_bookings (\<lambda>r. b_id r = b)
        (\<lambda>r. r\<lparr>b_status := B_PAYMENT_PENDING, b_version := b_version r + 1\<rparr>)) (\<lambda>_.
     andthen (emit pid ''PAYMENT_REQUESTED'') (\<lambda>_.
     andthen (idem_save rec pid (payment_json p)) (\<lambda>_.
     ret (Commit (Inr p))))))))"

definition start_work :: "string \<Rightarrow> string \<Rightarrow> idem_record \<Rightarrow> payment tx_end dbact" where
  "start_work user bid rec =
     andthen (reading (\<lambda>E. (uuid_of E bid, uuid_of E user))) (\<lambda>(b, u).
     andthen (select (\<lambda>t d. map_option (\<lambda>r. (b_status r, hold_live t r, b_total r, b_currency r)) (owned_booking b u d))) (\<lambda>row.
     case row of None \<Rightarrow> fail ErrBookingNotFound | Some (state, live, amount, currency) \<Rightarrow>
     if state = B_PAYMENT_PENDING then start_existing b rec
     else
       andthen (ensure (\<not> (state \<noteq> B_HELD \<or> \<not> live)) ErrBookingNotHoldable) (\<lambda>_.
       andthen (select (\<lambda>t d. booking_complete b t d)) (\<lambda>complete.
       andthen (ensure complete ErrBookingNotHoldable) (\<lambda>_.
       start_new b amount currency rec)))))"

definition Start :: "string \<Rightarrow> string \<Rightarrow> string \<Rightarrow> payment dbact" where
  "Start user bid key =
     guarded_tx (\<lambda>E. \<not> validate_UUID E user \<or> \<not> validate_UUID E bid) ErrInvalidHoldRequest
       (idem_tx user (start_route bid) key (JStr bid) decode_payment (start_work user bid))"

subsection \<open>Apply\<close>

text \<open>The settled states, in which a further result changes nothing.\<close>

definition settled :: "payment_status \<Rightarrow> bool" where
  "settled st \<longleftrightarrow> st = P_SUCCEEDED \<or> st = P_REFUND_PENDING \<or> st = P_REFUNDED"

definition apply_failed :: "uuid \<Rightarrow> unit tx_end dbact" where
  "apply_failed pid =
     andthen (exec_update_payments (\<lambda>p. p_id p = pid) (\<lambda>p. p\<lparr>p_status := P_FAILED, p_version := p_version p + 1\<rparr>)) (\<lambda>_.
     andthen (exec_update_attempts (\<lambda>a. pa_payment a = pid) (\<lambda>a. a\<lparr>pa_status := PA_FAILED\<rparr>)) (\<lambda>_.
     andthen (emit pid ''PAYMENT_FAILED'') (\<lambda>_.
     ret (Commit (Inr ())))))"

definition apply_late :: "uuid \<Rightarrow> string \<Rightarrow> int \<Rightarrow> unit tx_end dbact" where
  "apply_late pid reference amount =
     andthen (exec_update_payments (\<lambda>p. p_id p = pid)
        (\<lambda>p. p\<lparr>p_status := P_REFUND_PENDING, p_reference := Some reference, p_version := p_version p + 1\<rparr>)) (\<lambda>_.
     andthen (stmt (\<lambda>E w. insert_refund_once (gen_uuid E (pc w) 0) pid amount (db w))) (\<lambda>_.
     andthen (emit pid ''REFUND_REQUESTED'') (\<lambda>_.
     ret (Commit (Inr ())))))"

text \<open>The held assignments of a booking that do not match their seat or the booking's expiry.\<close>

definition inconsistent_holds :: "uuid \<Rightarrow> database \<Rightarrow> bool" where
  "inconsistent_holds b d =
     list_ex (\<lambda>sa. sa_booking sa = b \<and> sa_status sa = A_HELD \<and>
        list_ex (\<lambda>bk. b_id bk = sa_booking sa \<and>
          (case find_row (\<lambda>fs. fs_id fs = sa_seat sa) (seats d) of
             None \<Rightarrow> True
           | Some fs \<Rightarrow> fs_booking fs \<noteq> Some (sa_booking sa) \<or> fs_state fs \<noteq> SEAT_HELD \<or>
                        fs_hold fs \<noteq> sa_hold sa \<or> sa_hold sa \<noteq> b_hold bk)) (bookings d)) (assignments d)"

definition book_seat :: "seat_row \<Rightarrow> seat_row" where
  "book_seat s = s\<lparr>fs_state := BOOKED, fs_hold := None, fs_version := fs_version s + 1\<rparr>"

definition confirm_assignment :: "assignment_row \<Rightarrow> assignment_row" where
  "confirm_assignment a = a\<lparr>sa_status := A_CONFIRMED, sa_hold := None\<rparr>"

definition apply_confirm :: "uuid \<Rightarrow> uuid \<Rightarrow> string \<Rightarrow> unit tx_end dbact" where
  "apply_confirm b pid reference =
     andthen (exec_update_assignments (\<lambda>a. sa_booking a = b \<and> sa_status a = A_HELD) confirm_assignment) (\<lambda>_.
     andthen (exec_update_seats (\<lambda>s. fs_booking s = Some b \<and> fs_state s = SEAT_HELD) book_seat) (\<lambda>_.
     andthen (exec_update_segments (\<lambda>r. bs_booking r = b \<and> bs_status r = S_HELD) (\<lambda>r. r\<lparr>bs_status := S_CONFIRMED\<rparr>)) (\<lambda>_.
     andthen (exec_update_bookings (\<lambda>r. b_id r = b)
        (\<lambda>r. r\<lparr>b_status := B_CONFIRMED, b_hold := None, b_version := b_version r + 1\<rparr>)) (\<lambda>_.
     andthen (exec_update_payments (\<lambda>p. p_id p = pid)
        (\<lambda>p. p\<lparr>p_status := P_SUCCEEDED, p_reference := Some reference, p_version := p_version p + 1\<rparr>)) (\<lambda>_.
     andthen (exec_update_attempts (\<lambda>a. pa_payment a = pid) (\<lambda>a. a\<lparr>pa_status := PA_SUCCEEDED\<rparr>)) (\<lambda>_.
     andthen (emit b ''BOOKING_CONFIRMED'') (\<lambda>_.
     ret (Commit (Inr ())))))))))"

text \<open>A success under the seat locks: the hold is read again after the wait.\<close>

definition apply_succeeded :: "uuid \<Rightarrow> booking_status \<Rightarrow> uuid \<Rightarrow> string \<Rightarrow> int \<Rightarrow> unit tx_end dbact" where
  "apply_succeeded b bst pid reference amount =
     andthen nop_stmt (\<lambda>_.
     andthen (select (\<lambda>t d. map_option (hold_live t) (find_row (\<lambda>r. b_id r = b) (bookings d)))) (\<lambda>row.
     case row of None \<Rightarrow> fail ErrNoRows | Some live \<Rightarrow>
     if bst \<noteq> B_PAYMENT_PENDING \<or> \<not> live then apply_late pid reference amount
     else
       andthen (select (\<lambda>t d. (count_where (\<lambda>a. sa_booking a = b \<and> sa_status a = A_HELD) (assignments d),
                               count_where (\<lambda>s. fs_booking s = Some b \<and> fs_state s = SEAT_HELD) (seats d)))) (\<lambda>(held, taken).
       andthen (ensure (\<not> (taken = 0 \<or> taken \<noteq> held)) ErrInventoryConflict) (\<lambda>_.
       andthen (select (\<lambda>t d. inconsistent_holds b d)) (\<lambda>inconsistent.
       andthen (ensure (\<not> inconsistent) ErrInventoryConflict) (\<lambda>_.
       apply_confirm b pid reference))))))"

definition apply_booking :: "uuid \<Rightarrow> database \<Rightarrow> (uuid \<times> booking_status) option" where
  "apply_booking pid d =
     first_row [(b_id b, b_status b). b \<leftarrow> bookings d, p \<leftarrow> payments d, p_booking p = b_id b \<and> p_id p = pid]"

definition apply_body :: "string \<Rightarrow> string \<Rightarrow> string \<Rightarrow> pay_result \<Rightarrow> unit tx_end dbact" where
  "apply_body provider eventID pay result =
     andthen (reading (\<lambda>E. uuid_of E pay)) (\<lambda>pid.
     andthen (select (\<lambda>t d. apply_booking pid d)) (\<lambda>row.
     case row of None \<Rightarrow> fail ErrNoRows | Some (b, bst) \<Rightarrow>
     andthen (select (\<lambda>t d. map_option (\<lambda>p. (p_status p, p_amount p)) (find_row (\<lambda>p. p_id p = pid) (payments d)))) (\<lambda>row.
     case row of None \<Rightarrow> fail ErrNoRows | Some (pst, amount) \<Rightarrow>
     andthen (stmt (\<lambda>E w. insert_webhook provider eventID pid (Status result) (db w))) (\<lambda>inserted.
     if \<not> inserted then ret (Commit (Inr ()))
     else if settled pst then ret (Commit (Inr ()))
     else if Status result = ''FAILED'' then apply_failed pid
     else apply_succeeded b bst pid (Reference result) amount))))"

definition apply_invalid :: "env \<Rightarrow> string \<Rightarrow> string \<Rightarrow> string \<Rightarrow> pay_result \<Rightarrow> bool" where
  "apply_invalid E provider eventID pay result \<longleftrightarrow>
     \<not> validate_UUID E pay \<or> length eventID < 1 \<or> length eventID > 200 \<or> length provider < 1 \<or>
     length provider > 50 \<or> length (Reference result) > 200 \<or>
     (Status result \<noteq> ''SUCCEEDED'' \<and> Status result \<noteq> ''FAILED'')"

definition Apply :: "string \<Rightarrow> string \<Rightarrow> string \<Rightarrow> pay_result \<Rightarrow> unit dbact" where
  "Apply provider eventID pay result =
     guarded_tx (\<lambda>E. apply_invalid E provider eventID pay result) PaymentErrInvalid
       (apply_body provider eventID pay result)"

subsection \<open>Dispatch\<close>

text \<open>The request of the first attempt and the status of the payment.\<close>

definition dispatch_row :: "uuid \<Rightarrow> database \<Rightarrow> (uuid \<times> int \<times> string \<times> payment_status) option" where
  "dispatch_row pid d =
     map_option snd (first_row (sort_key fst
       [(pa_created a, pa_key a, p_amount p, p_currency p, p_status p).
          p \<leftarrow> payments d, a \<leftarrow> attempts d, pa_payment a = p_id p \<and> p_id p = pid]))"

definition dispatch_read :: "string \<Rightarrow> (pay_request option) dbact" where
  "dispatch_read pay =
     andthen (reading (\<lambda>E. \<not> validate_UUID E pay)) (\<lambda>invalid.
     if invalid then fail PaymentErrInvalid else
     andthen (stmt (\<lambda>E w. Inr (map_option (\<lambda>(k, a, c, st). (uuid_text E k, a, c, st)) (dispatch_row (uuid_of E pay) (db w)), db w))) (\<lambda>row.
     case row of None \<Rightarrow> fail ErrNoRows | Some (key, amount, currency, st) \<Rightarrow>
     if settled st then ret None
     else ret (Some \<lparr>Key = key, PaymentID = pay, Currency = currency, AmountMinor = amount\<rparr>)))"

text \<open>One statement: a common table expression updates the payment and inserts the event.\<close>

definition mark_reconciliation :: "string \<Rightarrow> unit dbact" where
  "mark_reconciliation pay =
     stmt (\<lambda>E w.
       let pid = uuid_of E pay;
           hit = (\<lambda>p. p_id p = pid \<and> (p_status p = P_PENDING \<or> p_status p = P_PROCESSING \<or> p_status p = P_RECONCILIATION_REQUIRED)) in
       case update_payments hit (\<lambda>p. p\<lparr>p_status := P_RECONCILIATION_REQUIRED, p_version := p_version p + 1\<rparr>) (db w) of
         Inl e \<Rightarrow> Inl e
       | Inr (n, d) \<Rightarrow> if n = 0 then Inr ((), d)
                       else insert_outbox (gen_uuid E (pc w) 0) pid ''PAYMENT_RECONCILIATION_REQUIRED'' (clock E (pc w)) d)"

text \<open>The provider's state is threaded beside the world: no transaction spans its calls.\<close>

definition Dispatch ::
  "'s provider option \<Rightarrow> string \<Rightarrow> env \<Rightarrow> 's \<times> database world \<Rightarrow> (gerr + unit) \<times> 's \<times> database world" where
  "Dispatch provider pay E sw =
     (case provider of None \<Rightarrow> (Inl PaymentErrUnavailable, sw) | Some prov \<Rightarrow>
      case sw of (s, w) \<Rightarrow>
      case dispatch_read pay E w of
        (Inl e, w1) \<Rightarrow> (Inl e, s, w1)
      | (Inr None, w1) \<Rightarrow> (Inr (), s, w1)
      | (Inr (Some req), w1) \<Rightarrow>
          (case (case prov_lookup prov (Key req) s of Inr v \<Rightarrow> (Inr v, s) | Inl _ \<Rightarrow> prov_charge prov req s) of
             (Inl e, s1) \<Rightarrow>
               (case mark_reconciliation pay E w1 of
                  (Inl dbErr, w2) \<Rightarrow> (Inl dbErr, s1, w2)
                | (Inr _, w2) \<Rightarrow> (Inl PaymentErrUnavailable, s1, w2))
           | (Inr result, s1) \<Rightarrow>
               (case Apply ''dispatch'' (Key req @ '':'' @ Status result) pay result E w1 of
                  (r, w2) \<Rightarrow> (r, s1, w2))))"

subsection \<open>Inversion\<close>

lemma insert_payment_Inr [run_simps]:
  "insert_payment new b amount currency d = Inr (x, d') \<longleftrightarrow>
     x = new \<and> 0 \<le> amount \<and> currency_ok currency \<and> new \<notin> p_id ` set (payments d) \<and>
     b \<notin> p_booking ` set (payments d) \<and> b \<in> b_id ` set (bookings d) \<and>
     d' = d\<lparr>payments := payments d @
          [\<lparr>p_id = new, p_booking = b, p_amount = amount, p_currency = currency, p_status = P_PENDING,
            p_reference = None, p_version = 1\<rparr>]\<rparr>"
  by (auto simp: insert_payment_def guarded_Inr)

lemma insert_attempt_Inr [run_simps]:
  "insert_attempt new key p t d = Inr (u, d') \<longleftrightarrow>
     new \<notin> pa_id ` set (attempts d) \<and> key \<notin> pa_key ` set (attempts d) \<and> p \<in> p_id ` set (payments d) \<and>
     d' = d\<lparr>attempts := attempts d @
          [\<lparr>pa_id = new, pa_payment = p, pa_key = key, pa_status = PA_PENDING, pa_created = t\<rparr>]\<rparr>"
  by (auto simp: insert_attempt_def guarded_Inr)

lemma update_payments_Inr [run_simps]:
  "update_payments p f d = Inr (n, d') \<longleftrightarrow>
     n = count_where p (payments d) \<and> d' = d\<lparr>payments := update_where p f (payments d)\<rparr> \<and>
     references_unique (update_where p f (payments d))"
  by (auto simp: update_payments_def Let_def guarded_Inr)

lemma insert_webhook_Inr [run_simps]:
  "insert_webhook provider event p type d = Inr (new, d') \<longleftrightarrow>
     (if list_ex (\<lambda>h. wh_provider h = provider \<and> wh_event h = event) (webhooks d) then \<not> new \<and> d' = d
      else new \<and> 1 \<le> length event \<and> length event \<le> 200 \<and> p \<in> p_id ` set (payments d) \<and>
        d' = d\<lparr>webhooks := webhooks d @
           [\<lparr>wh_provider = provider, wh_event = event, wh_payment = p, wh_type = type\<rparr>]\<rparr>)"
  by (auto simp: insert_webhook_def guarded_Inr)

lemma insert_refund_once_Inr [run_simps]:
  "insert_refund_once new p amount d = Inr (u, d') \<longleftrightarrow>
     (if p \<in> rf_payment ` set (refunds d) \<or> new \<in> rf_id ` set (refunds d) then d' = d
      else 0 \<le> amount \<and> p \<in> p_id ` set (payments d) \<and>
        d' = d\<lparr>refunds := refunds d @ [\<lparr>rf_id = new, rf_payment = p, rf_amount = amount, rf_status = R_PENDING\<rparr>]\<rparr>)"
  by (auto simp: insert_refund_once_def guarded_Inr)

lemmas payment_defs [op_defs] = exec_update_payments_def exec_update_attempts_def

text \<open>Confirming turns the HELD pairs of a booking into BOOKED ones.\<close>

interpretation confirm: paired_update
  "\<lambda>a. sa_booking a = b \<and> sa_status a = A_HELD" confirm_assignment
  "\<lambda>s. fs_booking s = Some b \<and> fs_state s = SEAT_HELD" book_seat
  for b
  by unfold_locales
    (auto simp: seat_matches_def taken_def active_def book_seat_def confirm_assignment_def seat_check_def)

end
