(* ===== verification/Refund.thy ===== *)
theory Refund
  imports Payment
begin

text \<open>
  \<^verbatim>\<open>internal/payment/refund.go\<close>: \<open>RequestRefund\<close> cancels a paid booking, frees its seats and
  asks for the money back; \<open>DispatchRefund\<close> calls the provider and records the outcome.
\<close>

subsection \<open>RequestRefund\<close>

definition refund_route :: "string \<Rightarrow> string" where
  "refund_route bid = ''POST /v1/bookings/'' @ bid @ ''/refunds''"

fun decode_text :: "jval \<Rightarrow> string option" where
  "decode_text (JStr s) = Some s"
| "decode_text _ = None"

text \<open>\<^verbatim>\<open>COALESCE(bool_and(...),false)\<close> over the segments joined with their flights.\<close>

definition booking_refundable :: "uuid \<Rightarrow> ts \<Rightarrow> database \<Rightarrow> bool" where
  "booking_refundable b t d =
     (let rows = [bs_refundable bs \<and> fi_departure fi > t.
                    bs \<leftarrow> segments d, fi \<leftarrow> flights d, fi_id fi = bs_flight bs \<and> bs_booking bs = b] in
      rows \<noteq> [] \<and> list_all (\<lambda>x. x) rows)"

definition insert_refund :: "uuid \<Rightarrow> uuid \<Rightarrow> int \<Rightarrow> database \<Rightarrow> gerr + uuid \<times> database" where
  "insert_refund new p amount d =
     guarded
       [(check_violation, 0 \<le> amount), (unique_violation, new \<notin> rf_id ` set (refunds d)),
        (unique_violation, p \<notin> rf_payment ` set (refunds d)), (foreign_key_violation, p \<in> p_id ` set (payments d))]
       (new, d\<lparr>refunds := refunds d @ [\<lparr>rf_id = new, rf_payment = p, rf_amount = amount, rf_status = R_PENDING\<rparr>]\<rparr>)"

definition cancel_assignment :: "assignment_row \<Rightarrow> assignment_row" where
  "cancel_assignment a = a\<lparr>sa_status := A_CANCELLED\<rparr>"

definition refund_finish :: "uuid \<Rightarrow> uuid \<Rightarrow> int \<Rightarrow> idem_record \<Rightarrow> string tx_end dbact" where
  "refund_finish b pid amount rec =
     andthen (exec_update_assignments
        (\<lambda>a. sa_booking a = b \<and> (sa_status a = A_CONFIRMED \<or> sa_status a = A_CHECKED_IN)) cancel_assignment) (\<lambda>_.
     andthen (exec_update_seats (\<lambda>s. fs_booking s = Some b \<and> fs_state s = BOOKED) free_seat) (\<lambda>_.
     andthen (exec_update_segments (\<lambda>r. bs_booking r = b) (\<lambda>r. r\<lparr>bs_status := S_CANCELLED\<rparr>)) (\<lambda>_.
     andthen (exec_update_bookings (\<lambda>r. b_id r = b) (\<lambda>r. r\<lparr>b_status := B_CANCELLED, b_version := b_version r + 1\<rparr>)) (\<lambda>_.
     andthen (exec_update_payments (\<lambda>p. p_id p = pid) (\<lambda>p. p\<lparr>p_status := P_REFUND_PENDING, p_version := p_version p + 1\<rparr>)) (\<lambda>_.
     andthen (stmt (\<lambda>E w. insert_refund (gen_uuid E (pc w) 0) pid amount (db w))) (\<lambda>rid.
     andthen (emit pid ''REFUND_REQUESTED'') (\<lambda>_.
     andthen (reading (\<lambda>E. uuid_text E rid)) (\<lambda>refundID.
     andthen (idem_save rec rid (JStr refundID)) (\<lambda>_.
     ret (Commit (Inr refundID)))))))))))"

definition refund_work :: "string \<Rightarrow> string \<Rightarrow> idem_record \<Rightarrow> string tx_end dbact" where
  "refund_work user bid rec =
     andthen (reading (\<lambda>E. (uuid_of E bid, uuid_of E user))) (\<lambda>(b, u).
     andthen (select (\<lambda>t d. map_option b_status (owned_booking b u d))) (\<lambda>row.
     case row of None \<Rightarrow> fail ErrBookingNotFound | Some state \<Rightarrow>
     andthen (ensure (\<not> (state \<noteq> B_CONFIRMED \<and> state \<noteq> B_TICKETED)) ErrBookingNotHoldable) (\<lambda>_.
     andthen (select (\<lambda>t d. booking_refundable b t d)) (\<lambda>refundable.
     andthen (ensure refundable ErrBookingNotHoldable) (\<lambda>_.
     andthen (select (\<lambda>t d. find_row (\<lambda>p. p_booking p = b \<and> p_status p = P_SUCCEEDED) (payments d))) (\<lambda>row.
     case row of None \<Rightarrow> fail ErrNoRows | Some p \<Rightarrow>
     andthen nop_stmt (\<lambda>_.
     refund_finish b (p_id p) (p_amount p) rec)))))))"

definition RequestRefund :: "string \<Rightarrow> string \<Rightarrow> string \<Rightarrow> string dbact" where
  "RequestRefund user bid key =
     guarded_tx (\<lambda>E. \<not> validate_UUID E user \<or> \<not> validate_UUID E bid) ErrInvalidHoldRequest
       (idem_tx user (refund_route bid) key (JStr bid) decode_text (refund_work user bid))"

subsection \<open>DispatchRefund\<close>

definition refund_row_of :: "uuid \<Rightarrow> database \<Rightarrow> (uuid \<times> int \<times> string \<times> refund_status) option" where
  "refund_row_of pid d =
     first_row [(rf_id r, rf_amount r, p_currency p, rf_status r). r \<leftarrow> refunds d, p \<leftarrow> payments d,
       p_id p = rf_payment r \<and> p_id p = pid]"

definition refund_read :: "string \<Rightarrow> (pay_request option) dbact" where
  "refund_read pay =
     andthen (reading (\<lambda>E. \<not> validate_UUID E pay)) (\<lambda>invalid.
     if invalid then fail PaymentErrInvalid else
     andthen (stmt (\<lambda>E w. Inr (map_option (\<lambda>(r, a, c, st). (uuid_text E r, a, c, st)) (refund_row_of (uuid_of E pay) (db w)), db w))) (\<lambda>row.
     case row of None \<Rightarrow> fail ErrNoRows | Some (key, amount, currency, st) \<Rightarrow>
     if st = R_SUCCEEDED then ret None
     else ret (Some \<lparr>Key = key, PaymentID = pay, Currency = currency, AmountMinor = amount\<rparr>)))"

definition exec_update_refunds :: "(refund_row \<Rightarrow> bool) \<Rightarrow> (refund_row \<Rightarrow> refund_row) \<Rightarrow> unit dbact" where
  "exec_update_refunds p f =
     stmt (\<lambda>E w. Inr ((), (db w)\<lparr>refunds := update_where p f (refunds (db w))\<rparr>))"

definition refund_unknown :: "string \<Rightarrow> unit dbact" where
  "refund_unknown pay =
     andthen (reading (\<lambda>E. uuid_of E pay)) (\<lambda>pid.
     exec_update_refunds (\<lambda>r. rf_payment r = pid \<and> rf_status r \<noteq> R_SUCCEEDED) (\<lambda>r. r\<lparr>rf_status := R_UNKNOWN\<rparr>))"

definition refund_settle :: "string \<Rightarrow> unit tx_end dbact" where
  "refund_settle pay =
     andthen (reading (\<lambda>E. uuid_of E pay)) (\<lambda>pid.
     andthen (select (\<lambda>t d. apply_booking pid d)) (\<lambda>row.
     case row of None \<Rightarrow> fail ErrNoRows | Some (b, bst) \<Rightarrow>
     andthen (exec_update_payments (\<lambda>p. p_id p = pid \<and> p_status p = P_REFUND_PENDING)
        (\<lambda>p. p\<lparr>p_status := P_REFUNDED, p_version := p_version p + 1\<rparr>)) (\<lambda>n.
     if n = 0 then ret (Commit (Inr ()))
     else
       andthen (exec_update_refunds (\<lambda>r. rf_payment r = pid) (\<lambda>r. r\<lparr>rf_status := R_SUCCEEDED\<rparr>)) (\<lambda>_.
       andthen (if bst = B_CANCELLED
                then andthen (exec_update_bookings (\<lambda>r. b_id r = b)
                        (\<lambda>r. r\<lparr>b_status := B_REFUNDED, b_version := b_version r + 1\<rparr>)) (\<lambda>_. ret ())
                else ret ()) (\<lambda>_.
       andthen (emit pid ''PAYMENT_REFUNDED'') (\<lambda>_.
       ret (Commit (Inr ()))))))))"

definition DispatchRefund ::
  "'s provider option \<Rightarrow> string \<Rightarrow> env \<Rightarrow> 's \<times> database world \<Rightarrow> (gerr + unit) \<times> 's \<times> database world" where
  "DispatchRefund provider pay E sw =
     (case provider of None \<Rightarrow> (Inl PaymentErrUnavailable, sw) | Some prov \<Rightarrow>
      case sw of (s, w) \<Rightarrow>
      case refund_read pay E w of
        (Inl e, w1) \<Rightarrow> (Inl e, s, w1)
      | (Inr None, w1) \<Rightarrow> (Inr (), s, w1)
      | (Inr (Some req), w1) \<Rightarrow>
          (case prov_refund prov req s of
             (Inl e, s1) \<Rightarrow> (Inl PaymentErrUnavailable, s1, snd (refund_unknown pay E w1))
           | (Inr result, s1) \<Rightarrow>
               if Status result \<noteq> ''SUCCEEDED'' then (Inl PaymentErrUnavailable, s1, w1)
               else (case in_tx (refund_settle pay) E w1 of (r, w2) \<Rightarrow> (r, s1, w2))))"

lemma insert_refund_Inr [run_simps]:
  "insert_refund new p amount d = Inr (x, d') \<longleftrightarrow>
     x = new \<and> 0 \<le> amount \<and> new \<notin> rf_id ` set (refunds d) \<and> p \<notin> rf_payment ` set (refunds d) \<and>
     p \<in> p_id ` set (payments d) \<and>
     d' = d\<lparr>refunds := refunds d @ [\<lparr>rf_id = new, rf_payment = p, rf_amount = amount, rf_status = R_PENDING\<rparr>]\<rparr>"
  by (auto simp: insert_refund_def guarded_Inr)

lemmas refund_defs [op_defs] = exec_update_refunds_def

text \<open>A refund takes away exactly the BOOKED pairs of the booking.\<close>

interpretation refund: paired_update
  "\<lambda>a. sa_booking a = b \<and> (sa_status a = A_CONFIRMED \<or> sa_status a = A_CHECKED_IN)" cancel_assignment
  "\<lambda>s. fs_booking s = Some b \<and> fs_state s = BOOKED" free_seat
  for b
  by unfold_locales
    (auto simp: seat_matches_def taken_def active_def free_seat_def cancel_assignment_def seat_check_def)

end
