(* ===== verification/LedgerPayment.thy ===== *)
theory LedgerPayment
  imports Ledger Refund
begin

text \<open>
  Payments and refunds keep the ledger: the effect of every path of \<open>Start\<close>, \<open>Apply\<close>,
  \<open>RequestRefund\<close> and \<open>DispatchRefund\<close> that commits.
\<close>

lemma payment_change:
  assumes old: "ledger_ok d" and inv: "inventory_ok d'" and bkeys: "distinct (map b_id (bookings d'))"
    and pre: "pre \<in> set (payments d)"
    and pay: "payments d' = update_where (\<lambda>p. p_id p = p_id pre) f (payments d)"
    and f: "\<And>p. p_id (f p) = p_id p" "\<And>p. p_booking (f p) = p_booking p" "\<And>p. p_amount (f p) = p_amount p"
      "\<And>p. p_status (f p) = st"
    and same: "\<And>b. b \<noteq> p_booking pre \<Longrightarrow> bstat d' b = bstat d b"
    and stat: "bstat d' (p_booking pre) \<in> Some ` allowed st"
    and paid: "bstat d' (p_booking pre) \<in> {Some B_CONFIRMED, Some B_TICKETED} \<Longrightarrow> st = P_SUCCEEDED"
    and seats: "\<And>s. s \<in> set (seats d') \<Longrightarrow> s \<in> set (seats d) \<and> fs_booking s \<noteq> Some (p_booking pre) \<or> seat_status_ok d' s"
    and rkeys: "distinct (map rf_payment (refunds d'))"
    and refs: "\<And>x. x \<in> set (refunds d') \<Longrightarrow>
       (\<exists>y \<in> set (refunds d). rf_payment y = rf_payment x \<and> rf_amount y = rf_amount x) \<or>
       (rf_payment x = p_id pre \<and> rf_amount x = p_amount pre \<and> (st = P_REFUND_PENDING \<or> st = P_REFUNDED))"
    and again: "p_status pre = P_REFUND_PENDING \<or> p_status pre = P_REFUNDED \<Longrightarrow> st = P_REFUND_PENDING \<or> st = P_REFUNDED"
  shows "ledger_ok d'"
proof (rule ledger_okI [OF inv old, where B = "{p_booking pre}"])
  note keys = ledger_keys [OF old]
  have only: "p = pre" if "p \<in> set (payments d)" "p_id p = p_id pre" for p
    using that pre keys by (auto simp: keys_ok_def intro: distinct_map_same)
  have only_b: "p = pre" if "p \<in> set (payments d)" "p_booking p = p_booking pre" for p
    using that pre keys by (auto simp: keys_ok_def intro: distinct_map_same)
  have f0: "f pre \<in> set (payments d')" unfolding pay by (rule in_update_where) (use pre in auto)
  show "keys_ok d'"
    using keys bkeys rkeys f unfolding keys_ok_def pay by (simp add: map_update_where_keep)
  show "p \<in> set (payments d) \<and> p_booking p \<notin> {p_booking pre} \<or> payment_ok d' p" if p: "p \<in> set (payments d')" for p
  proof -
    from p pay obtain p1 where p1: "p1 \<in> set (payments d)" "p = (if p_id p1 = p_id pre then f p1 else p1)"
      by (auto simp: set_update_where)
    show ?thesis
    proof (cases "p_id p1 = p_id pre")
      case True
      with only p1 have "p = f pre" by auto
      with stat f show ?thesis by (simp add: payment_ok_def)
    next
      case False
      with p1 only_b show ?thesis by auto
    qed
  qed
  show "p \<in> set (payments d')" if "p \<in> set (payments d)" "p_booking p \<notin> {p_booking pre}" for p
    unfolding pay using that only by (intro in_update_where_same) auto
  show "\<exists>p \<in> set (payments d'). p_booking p = b \<and> p_status p = P_SUCCEEDED"
    if "b \<in> {p_booking pre}" "bstat d' b \<in> {Some B_CONFIRMED, Some B_TICKETED}" for b
    using that f0 f paid by (intro bexI [of _ "f pre"]) auto
  show "refund_ok d' x" if x: "x \<in> set (refunds d')" for x
    using refs [OF x]
  proof
    assume "\<exists>y \<in> set (refunds d). rf_payment y = rf_payment x \<and> rf_amount y = rf_amount x"
    then obtain y where y: "y \<in> set (refunds d)" "rf_payment y = rf_payment x" "rf_amount y = rf_amount x" by blast
    from ledger_refund [OF old y(1)] obtain p where p: "p \<in> set (payments d)" "p_id p = rf_payment y"
      "p_amount p = rf_amount y" "p_status p = P_REFUND_PENDING \<or> p_status p = P_REFUNDED"
      by (auto simp: refund_ok_def)
    show ?thesis
    proof (cases "p = pre")
      case True
      with p y f f0 again show ?thesis unfolding refund_ok_def by (intro bexI [of _ "f pre"]) auto
    next
      case False
      with only p(1) have "p_id p \<noteq> p_id pre" by blast
      with p(1) have "p \<in> set (payments d')" unfolding pay by (intro in_update_where_same) auto
      with p y show ?thesis by (auto simp: refund_ok_def)
    qed
  next
    assume "rf_payment x = p_id pre \<and> rf_amount x = p_amount pre \<and> (st = P_REFUND_PENDING \<or> st = P_REFUNDED)"
    with f f0 show ?thesis unfolding refund_ok_def by (intro bexI [of _ "f pre"]) auto
  qed
qed (use same seats in auto)

lemma updated_payment:
  assumes "p \<in> set (payments d)" and "payments d' = update_where (\<lambda>q. p_id q = p_id p) f (payments d)"
  shows "f p \<in> set (payments d')"
  using assms by (simp add: in_update_where)

subsection \<open>Start\<close>

lemma start_new_Inr:
  assumes "start_new b amount currency rec E w = (Inr x, w')"
  shows "\<exists>pid. x = Commit (Inr \<lparr>pay_id = uuid_text E pid, pay_status = ''PENDING'', pay_currency = currency, pay_amount = amount\<rparr>) \<and>
    pid \<notin> p_id ` set (payments (db w)) \<and> b \<notin> p_booking ` set (payments (db w)) \<and>
    payments (db w') = payments (db w) @ [\<lparr>p_id = pid, p_booking = b, p_amount = amount, p_currency = currency,
        p_status = P_PENDING, p_reference = None, p_version = 1\<rparr>] \<and>
    bookings (db w') = update_where (\<lambda>r. b_id r = b)
        (\<lambda>r. r\<lparr>b_status := B_PAYMENT_PENDING, b_version := b_version r + 1\<rparr>) (bookings (db w)) \<and>
    seats (db w') = seats (db w) \<and> assignments (db w') = assignments (db w) \<and> refunds (db w') = refunds (db w) \<and>
    (\<exists>a. attempts (db w') = attempts (db w) @ [a] \<and> pa_payment a = pid \<and> pa_status a = PA_PENDING) \<and>
    (\<exists>e. outbox (db w') = outbox (db w) @ [e] \<and> ob_aggregate e = pid \<and> ob_type e = ''PAYMENT_REQUESTED'') \<and>
    idem_records (db w') = idem_records (db w) @ [\<lparr>ir_user = uuid_of E (rec_user rec), ir_route = rec_route rec,
      ir_key = rec_key rec, ir_hash = rec_hash rec, ir_resource = pid,
      ir_response = payment_json \<lparr>pay_id = uuid_text E pid, pay_status = ''PENDING'', pay_currency = currency, pay_amount = amount\<rparr>\<rparr>]"
  using assms by (auto simp: start_new_def run_simps op_defs)

lemma start_new_ledger:
  assumes old: "ledger_ok (db w)" and run: "start_new b amount currency rec E w = (Inr x, w')"
    and before: "bstat (db w) b = Some B_HELD"
  shows "ledger_ok (db w')"
proof -
  let ?d = "db w" and ?d' = "db w'"
  from start_new_Inr [OF run] obtain pid where n: "pid \<notin> p_id ` set (payments ?d)" "b \<notin> p_booking ` set (payments ?d)"
    "payments ?d' = payments ?d @ [\<lparr>p_id = pid, p_booking = b, p_amount = amount, p_currency = currency,
        p_status = P_PENDING, p_reference = None, p_version = 1\<rparr>]"
    "bookings ?d' = update_where (\<lambda>r. b_id r \<in> {b})
        (\<lambda>r. r\<lparr>b_status := B_PAYMENT_PENDING, b_version := b_version r + 1\<rparr>) (bookings ?d)"
    "seats ?d' = seats ?d" "assignments ?d' = assignments ?d" "refunds ?d' = refunds ?d"
    by auto
  note stat = bstat_update [OF n(4), where st = B_PAYMENT_PENDING, simplified]
  note keys = ledger_keys [OF old]
  have inv: "inventory_ok ?d'" using ledger_inventory [OF old] n(5,6) by (simp add: inventory_ok_def)
  show ?thesis
  proof (rule ledger_okI [OF inv old, where B = "{b}"])
    show "keys_ok ?d'"
      using keys n unfolding keys_ok_def by (simp add: map_update_where_keep)
    show "s \<in> set (seats ?d) \<and> fs_booking s \<notin> Some ` {b} \<or> seat_status_ok ?d' s" if "s \<in> set (seats ?d')" for s
      using that n(5) ledger_seat [OF old, of s] before stat [of b] by (auto simp: seat_status_ok_def)
    show "p \<in> set (payments ?d) \<and> p_booking p \<notin> {b} \<or> payment_ok ?d' p" if "p \<in> set (payments ?d')" for p
      using that n(2,3) before stat [of b] by (auto simp: payment_ok_def)
    show "refund_ok ?d' f" if "f \<in> set (refunds ?d')" for f
      using that n(3,7) ledger_refund [OF old, of f] by (auto simp: refund_ok_def)
  qed (use n(3) stat before in auto)
qed

lemma owned_stat:
  assumes "ledger_ok d" and "owned_booking b u d = Some r"
  shows "bstat d b = Some (b_status r) \<and> r \<in> set (bookings d) \<and> b_id r = b \<and> b_user r = Some u"
proof -
  from assms(2) have r: "r \<in> set (bookings d)" "b_id r = b" "b_user r = Some u"
    using find_row_SomeD unfolding owned_booking_def by fastforce+
  with bstat_row [of d r] ledger_keys [OF assms(1)] show ?thesis by (simp add: keys_ok_def)
qed

text \<open>How the work of \<open>Start\<close> ends: with the existing payment of a booking that already waits
  for one, or with a new one for a complete HELD booking.\<close>

lemma start_work_Inr:
  assumes "start_work user bid rec E w = (Inr x, w')"
  shows "(\<exists>r p. owned_booking (uuid_of E bid) (uuid_of E user) (db w) = Some r \<and> b_status r = B_PAYMENT_PENDING \<and>
      p \<in> set (payments (db w)) \<and> p_booking p = uuid_of E bid \<and> x = Commit (Inr (payment_of E p)) \<and>
      db w' = (db w)\<lparr>idem_records := idem_records (db w) @ [\<lparr>ir_user = uuid_of E (rec_user rec), ir_route = rec_route rec,
        ir_key = rec_key rec, ir_hash = rec_hash rec, ir_resource = p_id p, ir_response = payment_json (payment_of E p)\<rparr>]\<rparr>) \<or>
    (\<exists>r w1 n. owned_booking (uuid_of E bid) (uuid_of E user) (db w) = Some r \<and> b_status r = B_HELD \<and>
      hold_live (clock E n) r \<and> booking_complete (uuid_of E bid) (clock E (Suc n)) (db w) \<and> db w1 = db w \<and>
      start_new (uuid_of E bid) (b_total r) (b_currency r) rec E w1 = (Inr x, w'))"
proof -
  let ?b = "uuid_of E bid" and ?w = "w\<lparr>pc := Suc (pc w)\<rparr>"
  from assms obtain r where r: "owned_booking ?b (uuid_of E user) (db w) = Some r"
    and rest: "(if b_status r = B_PAYMENT_PENDING then start_existing ?b rec
     else
       andthen (ensure (\<not> (b_status r \<noteq> B_HELD \<or> \<not> hold_live (clock E (pc w)) r)) ErrBookingNotHoldable) (\<lambda>_.
       andthen (select (\<lambda>t d. booking_complete ?b t d)) (\<lambda>complete.
       andthen (ensure complete ErrBookingNotHoldable) (\<lambda>_.
       start_new ?b (b_total r) (b_currency r) rec)))) E ?w = (Inr x, w')"
    by (auto simp: start_work_def andthen_Inr select_Inr reading_Inr split: option.splits)
  show ?thesis
  proof (cases "b_status r = B_PAYMENT_PENDING")
    case True
    with rest have "start_existing ?b rec E ?w = (Inr x, w')" by simp
    then obtain p where "find_row (\<lambda>p. p_booking p = ?b) (payments (db w)) = Some p"
      "x = Commit (Inr (payment_of E p))"
      "db w' = (db w)\<lparr>idem_records := idem_records (db w) @ [\<lparr>ir_user = uuid_of E (rec_user rec), ir_route = rec_route rec,
        ir_key = rec_key rec, ir_hash = rec_hash rec, ir_resource = p_id p, ir_response = payment_json (payment_of E p)\<rparr>]\<rparr>"
      by (auto simp: start_existing_def run_simps split: option.splits)
    with r True show ?thesis by (auto dest!: find_row_SomeD)
  next
    case False
    with rest have "b_status r = B_HELD" "hold_live (clock E (pc w)) r" "booking_complete ?b (clock E (Suc (pc w))) (db w)"
      "start_new ?b (b_total r) (b_currency r) rec E (w\<lparr>pc := Suc (Suc (pc w))\<rparr>) = (Inr x, w')"
      by (auto simp: andthen_Inr select_Inr ensure_Inr)
    with r show ?thesis by fastforce
  qed
qed

lemma keeps_ledger_Start: "keeps ledger_ok (Start user bid key)"
  unfolding Start_def
proof (rule keeps_guarded_idem)
  fix rec E w r w'
  assume old: "ledger_ok (db w)" and run: "start_work user bid rec E w = (Inr (Commit r), w')"
  from start_work_Inr [OF run] show "ledger_ok (db w')"
  proof (elim disjE exE conjE)
    fix x w1 n
    assume "owned_booking (uuid_of E bid) (uuid_of E user) (db w) = Some x" "b_status x = B_HELD" "db w1 = db w"
      "start_new (uuid_of E bid) (b_total x) (b_currency x) rec E w1 = (Inr (Commit r), w')"
    with owned_stat [OF old, of "uuid_of E bid" "uuid_of E user" x] old start_new_ledger [of w1] show ?thesis by simp
  qed (use old in simp)
qed

subsection \<open>Apply\<close>

lemma apply_booking_Some:
  assumes "ledger_ok d" and "apply_booking pid d = Some (b, bst)"
  shows "\<exists>p \<in> set (payments d). p_id p = pid \<and> p_booking p = b \<and> bstat d b = Some bst \<and>
    find_row (\<lambda>p. p_id p = pid) (payments d) = Some p"
proof -
  note keys = ledger_keys [OF assms(1)]
  from first_row_Some [OF assms(2) [unfolded apply_booking_def]] obtain r p where rp: "r \<in> set (bookings d)" "p \<in> set (payments d)" "p_booking p = b_id r" "p_id p = pid"
    "b = b_id r" "bst = b_status r" by auto
  have "find_row (\<lambda>p. p_id p = pid) (payments d) = Some p"
  proof (cases "find_row (\<lambda>p. p_id p = pid) (payments d)")
    case None
    with find_row_NoneD [OF None rp(2)] rp(4) show ?thesis by simp
  next
    case (Some q)
    with find_row_SomeD [OF Some] rp keys have "q = p"
      by (auto simp: keys_ok_def intro: distinct_map_same)
    with Some show ?thesis by simp
  qed
  with rp bstat_row [of d r] keys show ?thesis by (auto simp: keys_ok_def)
qed

lemma apply_failed_Inr:
  assumes "apply_failed pid E w = (Inr x, w')"
  shows "x = Commit (Inr ()) \<and> payments (db w') = update_where (\<lambda>p. p_id p = pid)
      (\<lambda>p. p\<lparr>p_status := P_FAILED, p_version := p_version p + 1\<rparr>) (payments (db w)) \<and>
    bookings (db w') = bookings (db w) \<and> seats (db w') = seats (db w) \<and> assignments (db w') = assignments (db w) \<and>
    refunds (db w') = refunds (db w) \<and> webhooks (db w') = webhooks (db w)"
  using assms by (auto simp: apply_failed_def run_simps op_defs)

lemma insert_refund_once_cases:
  assumes "insert_refund_once new p amount d = Inr (u, d')"
  shows "(d' = d \<and> (p \<in> rf_payment ` set (refunds d) \<or> new \<in> rf_id ` set (refunds d))) \<or>
    (p \<notin> rf_payment ` set (refunds d) \<and>
     d' = d\<lparr>refunds := refunds d @ [\<lparr>rf_id = new, rf_payment = p, rf_amount = amount, rf_status = R_PENDING\<rparr>]\<rparr>)"
  using assms
  by (cases "p \<in> rf_payment ` set (refunds d) \<or> new \<in> rf_id ` set (refunds d)") (simp_all add: insert_refund_once_Inr)

lemma apply_late_Inr:
  assumes "apply_late pid reference amount E w = (Inr x, w')"
  shows "x = Commit (Inr ()) \<and> payments (db w') = update_where (\<lambda>p. p_id p = pid)
      (\<lambda>p. p\<lparr>p_status := P_REFUND_PENDING, p_reference := Some reference, p_version := p_version p + 1\<rparr>) (payments (db w)) \<and>
    bookings (db w') = bookings (db w) \<and> seats (db w') = seats (db w) \<and> assignments (db w') = assignments (db w) \<and>
    webhooks (db w') = webhooks (db w) \<and>
    (refunds (db w') = refunds (db w) \<or> pid \<notin> rf_payment ` set (refunds (db w)) \<and>
      (\<exists>new. refunds (db w') = refunds (db w) @ [\<lparr>rf_id = new, rf_payment = pid, rf_amount = amount, rf_status = R_PENDING\<rparr>])) \<and>
    (pid \<in> rf_payment ` set (refunds (db w')) \<or> (\<exists>n. gen_uuid E n 0 \<in> rf_id ` set (refunds (db w)))) \<and>
    (\<exists>e. outbox (db w') = outbox (db w) @ [e] \<and> ob_aggregate e = pid \<and> ob_type e = ''REFUND_REQUESTED'')"
proof -
  let ?f = "\<lambda>p. p\<lparr>p_status := P_REFUND_PENDING, p_reference := Some reference, p_version := p_version p + 1\<rparr>"
  from assms obtain n w1 u w2 v where
    s1: "exec_update_payments (\<lambda>p. p_id p = pid) ?f E w = (Inr n, w1)" and
    s2: "stmt (\<lambda>E w. insert_refund_once (gen_uuid E (pc w) 0) pid amount (db w)) E w1 = (Inr u, w2)" and
    s3: "emit pid ''REFUND_REQUESTED'' E w2 = (Inr v, w')" and x: "x = Commit (Inr ())"
    by (auto simp: apply_late_def andthen_Inr ret_Inr)
  from s1 have d1: "db w1 = (db w)\<lparr>payments := update_where (\<lambda>p. p_id p = pid) ?f (payments (db w))\<rparr>"
    by (auto simp: run_simps op_defs)
  from s2 have d2: "(db w2 = db w1 \<and> (pid \<in> rf_payment ` set (refunds (db w1)) \<or> gen_uuid E (pc w1) 0 \<in> rf_id ` set (refunds (db w1)))) \<or>
      (pid \<notin> rf_payment ` set (refunds (db w1)) \<and> db w2 = (db w1)\<lparr>refunds := refunds (db w1) @
        [\<lparr>rf_id = gen_uuid E (pc w1) 0, rf_payment = pid, rf_amount = amount, rf_status = R_PENDING\<rparr>]\<rparr>)"
    using insert_refund_once_cases by (fastforce simp: stmt_Inr)
  from s3 obtain e where d3: "db w' = (db w2)\<lparr>outbox := outbox (db w2) @ [e]\<rparr>" "ob_aggregate e = pid" "ob_type e = ''REFUND_REQUESTED''"
    by (auto simp: run_simps op_defs)
  from d2 show ?thesis
  proof
    assume "db w2 = db w1 \<and> (pid \<in> rf_payment ` set (refunds (db w1)) \<or> gen_uuid E (pc w1) 0 \<in> rf_id ` set (refunds (db w1)))"
    with d1 d3 x show ?thesis by auto
  next
    assume "pid \<notin> rf_payment ` set (refunds (db w1)) \<and> db w2 = (db w1)\<lparr>refunds := refunds (db w1) @
        [\<lparr>rf_id = gen_uuid E (pc w1) 0, rf_payment = pid, rf_amount = amount, rf_status = R_PENDING\<rparr>]\<rparr>"
    with d1 d3 x show ?thesis by auto
  qed
qed

definition confirmed :: "uuid \<Rightarrow> uuid \<Rightarrow> string \<Rightarrow> database \<Rightarrow> database \<Rightarrow> bool" where
  "confirmed b pid reference d d' \<longleftrightarrow>
     assignments d' = update_where (\<lambda>a. sa_booking a = b \<and> sa_status a = A_HELD) confirm_assignment (assignments d) \<and>
     seats d' = update_where (\<lambda>s. fs_booking s = Some b \<and> fs_state s = SEAT_HELD) book_seat (seats d) \<and>
     bookings d' = update_where (\<lambda>r. b_id r = b)
        (\<lambda>r. r\<lparr>b_status := B_CONFIRMED, b_hold := None, b_version := b_version r + 1\<rparr>) (bookings d) \<and>
     payments d' = update_where (\<lambda>p. p_id p = pid)
        (\<lambda>p. p\<lparr>p_status := P_SUCCEEDED, p_reference := Some reference, p_version := p_version p + 1\<rparr>) (payments d) \<and>
     refunds d' = refunds d \<and> webhooks d' = webhooks d \<and>
     (\<exists>e. outbox d' = outbox d @ [e] \<and> ob_aggregate e = b \<and> ob_type e = ''BOOKING_CONFIRMED'')"

lemma apply_confirm_Inr:
  assumes "apply_confirm b pid reference E w = (Inr x, w')"
  shows "x = Commit (Inr ()) \<and> confirmed b pid reference (db w) (db w')"
  using assms by (auto simp: apply_confirm_def confirmed_def run_simps op_defs)

lemma inventory_cong:
  "seats d' = seats d \<Longrightarrow> assignments d' = assignments d \<Longrightarrow> inventory_ok d' = inventory_ok d"
  by (simp add: inventory_ok_def)

lemma confirmed_inventory:
  assumes "confirmed b pid reference d d'" and "inventory_ok d"
  shows "inventory_ok d'"
proof -
  have "inventory_ok d' = inventory_ok (confirm.after b d)"
    by (rule inventory_cong) (use assms(1) in \<open>simp_all add: confirmed_def confirm.after_def\<close>)
  with confirm.preserves [OF assms(2)] show ?thesis by simp
qed

lemma apply_succeeded_Inr:
  assumes "apply_succeeded b bst pid reference amount E w = (Inr x, w')"
  obtains (late) w1 r n where "db w1 = db w" and "find_row (\<lambda>r. b_id r = b) (bookings (db w)) = Some r"
      and "bst \<noteq> B_PAYMENT_PENDING \<or> \<not> hold_live (clock E n) r"
      and "apply_late pid reference amount E w1 = (Inr x, w')"
  | (confirm) w1 r n where "db w1 = db w" and "find_row (\<lambda>r. b_id r = b) (bookings (db w)) = Some r"
      and "bst = B_PAYMENT_PENDING" and "hold_live (clock E n) r"
      and "count_where (\<lambda>a. sa_booking a = b \<and> sa_status a = A_HELD) (assignments (db w)) =
           count_where (\<lambda>s. fs_booking s = Some b \<and> fs_state s = SEAT_HELD) (seats (db w))"
      and "count_where (\<lambda>s. fs_booking s = Some b \<and> fs_state s = SEAT_HELD) (seats (db w)) \<noteq> 0"
      and "\<not> inconsistent_holds b (db w)"
      and "apply_confirm b pid reference E w1 = (Inr x, w')"
proof -
  let ?w = "w\<lparr>pc := Suc (Suc (pc w))\<rparr>" and ?t = "clock E (Suc (pc w))"
  from assms obtain r where r: "find_row (\<lambda>r. b_id r = b) (bookings (db w)) = Some r"
    and rest: "(if bst \<noteq> B_PAYMENT_PENDING \<or> \<not> hold_live ?t r then apply_late pid reference amount
     else
       andthen (select (\<lambda>t d. (count_where (\<lambda>a. sa_booking a = b \<and> sa_status a = A_HELD) (assignments d),
                               count_where (\<lambda>s. fs_booking s = Some b \<and> fs_state s = SEAT_HELD) (seats d)))) (\<lambda>(held, taken).
       andthen (ensure (\<not> (taken = 0 \<or> taken \<noteq> held)) ErrInventoryConflict) (\<lambda>_.
       andthen (select (\<lambda>t d. inconsistent_holds b d)) (\<lambda>inconsistent.
       andthen (ensure (\<not> inconsistent) ErrInventoryConflict) (\<lambda>_.
       apply_confirm b pid reference))))) E ?w = (Inr x, w')"
    by (auto simp: apply_succeeded_def andthen_Inr select_Inr nop_stmt_Inr split: option.splits)
  show thesis
  proof (cases "bst \<noteq> B_PAYMENT_PENDING \<or> \<not> hold_live ?t r")
    case True
    with rest r show thesis by (intro late [of ?w r]) auto
  next
    case False
    with rest have "count_where (\<lambda>s. fs_booking s = Some b \<and> fs_state s = SEAT_HELD) (seats (db w)) \<noteq> 0"
      "count_where (\<lambda>a. sa_booking a = b \<and> sa_status a = A_HELD) (assignments (db w)) =
           count_where (\<lambda>s. fs_booking s = Some b \<and> fs_state s = SEAT_HELD) (seats (db w))"
      "\<not> inconsistent_holds b (db w)" "apply_confirm b pid reference E (w\<lparr>pc := Suc (Suc (Suc (Suc (pc w))))\<rparr>) = (Inr x, w')"
      by (auto simp: andthen_Inr select_Inr ensure_Inr)
    with False r show thesis by (intro confirm [of "w\<lparr>pc := Suc (Suc (Suc (Suc (pc w))))\<rparr>" r]) auto
  qed
qed

definition webhook_known :: "string \<Rightarrow> string \<Rightarrow> database \<Rightarrow> bool" where
  "webhook_known provider event d \<longleftrightarrow> list_ex (\<lambda>h. wh_provider h = provider \<and> wh_event h = event) (webhooks d)"

lemma apply_body_Inr:
  assumes "apply_body provider event pay result E w = (Inr x, w')" and "ledger_ok (db w)"
  obtains (duplicate) "webhook_known provider event (db w)" and "db w' = db w" and "x = Commit (Inr ())"
  | (recorded) p h where "p \<in> set (payments (db w))" and "p_id p = uuid_of E pay" and "settled (p_status p)"
      and "db w' = (db w)\<lparr>webhooks := webhooks (db w) @ [h]\<rparr>" and "x = Commit (Inr ())"
      and "\<not> webhook_known provider event (db w)" and "wh_provider h = provider \<and> wh_event h = event"
  | (failed) p h w1 where "p \<in> set (payments (db w))" and "p_id p = uuid_of E pay" and "\<not> settled (p_status p)"
      and "Status result = ''FAILED''" and "db w1 = (db w)\<lparr>webhooks := webhooks (db w) @ [h]\<rparr>"
      and "apply_failed (uuid_of E pay) E w1 = (Inr x, w')"
      and "\<not> webhook_known provider event (db w)" and "wh_provider h = provider \<and> wh_event h = event"
  | (succeeded) p h w1 bst where "p \<in> set (payments (db w))" and "p_id p = uuid_of E pay" and "\<not> settled (p_status p)"
      and "Status result \<noteq> ''FAILED''" and "db w1 = (db w)\<lparr>webhooks := webhooks (db w) @ [h]\<rparr>"
      and "bstat (db w) (p_booking p) = Some bst" and "\<not> webhook_known provider event (db w)"
      and "apply_succeeded (p_booking p) bst (uuid_of E pay) (Reference result) (p_amount p) E w1 = (Inr x, w')"
      and "wh_provider h = provider \<and> wh_event h = event"
proof -
  let ?pid = "uuid_of E pay" and ?w = "w\<lparr>pc := Suc (Suc (pc w))\<rparr>"
  from assms(1) obtain b bst where bk: "apply_booking ?pid (db w) = Some (b, bst)"
    by (auto simp: apply_body_def andthen_Inr select_Inr reading_Inr split: option.splits)
  from apply_booking_Some [OF assms(2) bk] obtain p where p: "p \<in> set (payments (db w))" "p_id p = ?pid" "p_booking p = b"
    "bstat (db w) b = Some bst" "find_row (\<lambda>p. p_id p = ?pid) (payments (db w)) = Some p" by blast
  from assms(1) bk p(5) obtain new w1 where
    ins: "stmt (\<lambda>E w. insert_webhook provider event ?pid (Status result) (db w)) E ?w = (Inr new, w1)"
    and rest: "(if \<not> new then ret (Commit (Inr ()))
     else if settled (p_status p) then ret (Commit (Inr ()))
     else if Status result = ''FAILED'' then apply_failed ?pid
     else apply_succeeded b bst ?pid (Reference result) (p_amount p)) E w1 = (Inr x, w')"
    by (auto simp: apply_body_def andthen_Inr select_Inr reading_Inr)
  show thesis
  proof (cases "webhook_known provider event (db w)")
    case True
    with ins have "\<not> new" "db w1 = db w" by (auto simp: stmt_Inr insert_webhook_Inr webhook_known_def)
    with rest True show thesis by (intro duplicate) auto
  next
    case False
    let ?h = "\<lparr>wh_provider = provider, wh_event = event, wh_payment = ?pid, wh_type = Status result\<rparr>"
    from False ins have w1: "new" "db w1 = (db w)\<lparr>webhooks := webhooks (db w) @ [?h]\<rparr>"
      by (auto simp: stmt_Inr insert_webhook_Inr webhook_known_def)
    show thesis
    proof (cases "settled (p_status p)")
      case True
      with rest w1 p False show thesis by (intro recorded [of p ?h]) auto
    next
      case unsettled: False
      show thesis
      proof (cases "Status result = ''FAILED''")
        case True
        with rest w1 p unsettled \<open>\<not> webhook_known provider event (db w)\<close> show thesis
          by (intro failed [of p w1 ?h]) auto
      next
        case False
        with rest w1 p unsettled \<open>\<not> webhook_known provider event (db w)\<close> show thesis
          by (intro succeeded [of p w1 ?h bst]) auto
      qed
    qed
  qed
qed

lemma unsettled_facts:
  assumes "ledger_ok d" and "p \<in> set (payments d)" and "\<not> settled (p_status p)"
  shows "bstat d (p_booking p) \<in> {Some B_PAYMENT_PENDING, Some B_EXPIRED}"
    and "\<And>f. f \<in> set (refunds d) \<Longrightarrow> rf_payment f \<noteq> p_id p"
proof -
  show "bstat d (p_booking p) \<in> {Some B_PAYMENT_PENDING, Some B_EXPIRED}"
    using ledger_payment [OF assms(1,2)] assms(3) by (cases "p_status p") (auto simp: payment_ok_def settled_def)
  show "rf_payment f \<noteq> p_id p" if "f \<in> set (refunds d)" for f
  proof
    assume eq: "rf_payment f = p_id p"
    from ledger_refund [OF assms(1) that] obtain q where q: "q \<in> set (payments d)" "p_id q = rf_payment f"
      "p_status q = P_REFUND_PENDING \<or> p_status q = P_REFUNDED" by (auto simp: refund_ok_def)
    with eq assms(2) ledger_keys [OF assms(1)] have "q = p" by (auto simp: keys_ok_def intro: distinct_map_same)
    with q assms(3) show False by (auto simp: settled_def)
  qed
qed

text \<open>A write to payments alone.\<close>

lemma payment_only_change:
  assumes old: "ledger_ok d" and pre: "pre \<in> set (payments d)"
    and pay: "payments d' = update_where (\<lambda>p. p_id p = p_id pre) f (payments d)"
    and same: "bookings d' = bookings d" "seats d' = seats d" "assignments d' = assignments d"
    and f: "\<And>p. p_id (f p) = p_id p" "\<And>p. p_booking (f p) = p_booking p" "\<And>p. p_amount (f p) = p_amount p"
      "\<And>p. p_status (f p) = st"
    and stat: "bstat d (p_booking pre) \<in> Some ` allowed st" and paid: "\<not> allowed st \<inter> {B_CONFIRMED, B_TICKETED} \<noteq> {}"
    and rkeys: "distinct (map rf_payment (refunds d'))"
    and refs: "\<And>x. x \<in> set (refunds d') \<Longrightarrow>
       (\<exists>y \<in> set (refunds d). rf_payment y = rf_payment x \<and> rf_amount y = rf_amount x) \<or>
       (rf_payment x = p_id pre \<and> rf_amount x = p_amount pre \<and> (st = P_REFUND_PENDING \<or> st = P_REFUNDED))"
    and again: "p_status pre = P_REFUND_PENDING \<or> p_status pre = P_REFUNDED \<Longrightarrow> st = P_REFUND_PENDING \<or> st = P_REFUNDED"
  shows "ledger_ok d'"
proof (rule payment_change [OF old _ _ pre pay f _ _ _ _ rkeys refs again])
  have b: "bstat d' b = bstat d b" for b using same(1) by (simp add: bstat_def)
  show "inventory_ok d'" using ledger_inventory [OF old] inventory_cong same by blast
  show "distinct (map b_id (bookings d'))" using ledger_keys [OF old] same by (simp add: keys_ok_def)
  show "bstat d' b = bstat d b" if "b \<noteq> p_booking pre" for b by (rule b)
  show "bstat d' (p_booking pre) \<in> Some ` allowed st" using stat b by simp
  show "st = P_SUCCEEDED" if "bstat d' (p_booking pre) \<in> {Some B_CONFIRMED, Some B_TICKETED}"
    using that b stat paid by auto
  show "s \<in> set (seats d) \<and> fs_booking s \<noteq> Some (p_booking pre) \<or> seat_status_ok d' s" if "s \<in> set (seats d')" for s
    using ledger_seat [OF old, of s] that same b by (simp add: seat_status_ok_def)
qed auto

lemma apply_body_ledger:
  assumes old: "ledger_ok (db w)" and run: "apply_body provider event pay result E w = (Inr x, w')"
  shows "ledger_ok (db w')"
  using run old
proof (cases rule: apply_body_Inr)
  case duplicate
  with old show ?thesis by simp
next
  case (recorded p h)
  with old show ?thesis by simp
next
  case (failed p h w1)
  note d1 = failed(5)
  from old d1 have old1: "ledger_ok (db w1)" by simp
  note u = unsettled_facts [OF old failed(1,3)]
  note r = apply_failed_Inr [OF failed(6)]
  show ?thesis
  proof (rule payment_only_change [OF old1, where pre = p and st = P_FAILED and
        f = "\<lambda>p. p\<lparr>p_status := P_FAILED, p_version := p_version p + 1\<rparr>"])
    show "distinct (map rf_payment (refunds (db w')))" using r ledger_keys [OF old1] by (simp add: keys_ok_def)
    show "bstat (db w1) (p_booking p) \<in> Some ` allowed P_FAILED" using u(1) d1 by (auto simp: bstat_def)
  qed (use r failed(1-3) d1 in \<open>auto simp: settled_def\<close>)
next
  case (succeeded p h w1 bst)
  note d1 = succeeded(5)
  from old d1 have old1: "ledger_ok (db w1)" by simp
  note u = unsettled_facts [OF old succeeded(1,3)]
  have b1: "bstat (db w1) b = bstat (db w) b" for b using d1 by (simp add: bstat_def)
  from succeeded(8) show ?thesis
  proof (cases rule: apply_succeeded_Inr)
    case (late w2 r n)
    from late(1) old1 have old2: "ledger_ok (db w2)" by simp
    note r = apply_late_Inr [OF late(4)]
    have rf: "refunds (db w2) = refunds (db w)" using late(1) d1 by simp
    show ?thesis
    proof (rule payment_only_change [OF old2, where pre = p and st = P_REFUND_PENDING and
          f = "\<lambda>p. p\<lparr>p_status := P_REFUND_PENDING, p_reference := Some (Reference result), p_version := p_version p + 1\<rparr>"])
      show "distinct (map rf_payment (refunds (db w')))" using r ledger_keys [OF old2] by (auto simp: keys_ok_def)
      show "bstat (db w2) (p_booking p) \<in> Some ` allowed P_REFUND_PENDING" using u(1) d1 late(1) by (auto simp: bstat_def)
      show "(\<exists>y \<in> set (refunds (db w2)). rf_payment y = rf_payment x \<and> rf_amount y = rf_amount x) \<or>
         (rf_payment x = p_id p \<and> rf_amount x = p_amount p \<and> (P_REFUND_PENDING = P_REFUND_PENDING \<or> P_REFUND_PENDING = P_REFUNDED))"
        if x: "x \<in> set (refunds (db w'))" for x
      proof -
        have new: "rf_payment y = p_id p \<and> rf_amount y = p_amount p"
          if "y = \<lparr>rf_id = new, rf_payment = uuid_of E pay, rf_amount = p_amount p, rf_status = R_PENDING\<rparr>" for y new
          using that succeeded(2) by simp
        from r have "x \<in> set (refunds (db w2)) \<or>
            (\<exists>new. x = \<lparr>rf_id = new, rf_payment = uuid_of E pay, rf_amount = p_amount p, rf_status = R_PENDING\<rparr>)"
          using x by (elim conjE disjE) auto
        with new show ?thesis by blast
      qed
    qed (use r succeeded(1-3) d1 late(1) in \<open>auto simp: settled_def\<close>)
  next
    case (confirm w2 r n)
    from confirm(1) old1 have old2: "ledger_ok (db w2)" by simp
    let ?b = "p_booking p"
    let ?f = "\<lambda>r. r\<lparr>b_status := B_CONFIRMED, b_hold := None, b_version := b_version r + 1\<rparr>"
    from apply_confirm_Inr [OF confirm(8)] have c: "confirmed ?b (uuid_of E pay) (Reference result) (db w2) (db w')" by simp
    have bk: "bookings (db w') = update_where (\<lambda>r. b_id r \<in> {?b}) ?f (bookings (db w2))" using c by (simp add: confirmed_def)
    note stat = bstat_update [OF bk, where st = B_CONFIRMED, simplified]
    have before: "bstat (db w2) ?b = Some B_PAYMENT_PENDING" using succeeded(6) confirm(1,3) b1 by (simp add: bstat_def)
    show ?thesis
    proof (rule payment_change [OF old2 confirmed_inventory [OF c ledger_inventory [OF old2]], where pre = p and st = P_SUCCEEDED and
          f = "\<lambda>p. p\<lparr>p_status := P_SUCCEEDED, p_reference := Some (Reference result), p_version := p_version p + 1\<rparr>"])
      show "distinct (map b_id (bookings (db w')))"
        unfolding bk by (rule distinct_map_update_keep) (use ledger_keys [OF old2] in \<open>auto simp: keys_ok_def\<close>)
      show "distinct (map rf_payment (refunds (db w')))" using c ledger_keys [OF old2] by (auto simp: keys_ok_def confirmed_def)
      show "s \<in> set (seats (db w2)) \<and> fs_booking s \<noteq> Some ?b \<or> seat_status_ok (db w') s" if "s \<in> set (seats (db w'))" for s
        using that c ledger_seat [OF old2, of s] before stat [of ?b]
        by (auto simp: confirmed_def set_update_where book_seat_def seat_status_ok_def split: if_splits)
    qed (use c succeeded(1-3) d1 confirm(1) stat before in \<open>auto simp: settled_def confirmed_def\<close>)
  qed
qed

lemma keeps_guarded_tx:
  assumes "\<And>E w r w'. I (db w) \<Longrightarrow> body E w = (Inr (Commit r), w') \<Longrightarrow> I (db w')"
  shows "keeps I (guarded_tx bad e body)"
  unfolding guarded_tx_def by (intro keeps_rules keeps_in_tx) (rule assms)

lemma keeps_ledger_Apply: "keeps ledger_ok (Apply provider event pay result)"
  unfolding Apply_def by (rule keeps_guarded_tx) (rule apply_body_ledger)

lemma decode_payment_json [simp]: "decode_payment (payment_json p) = Some p"
  by (simp add: payment_json_def)

interpretation start_call: idem_work
  "\<lambda>E. \<not> validate_UUID E user \<or> \<not> validate_UUID E bid" ErrInvalidHoldRequest
  user "start_route bid" key "JStr bid" decode_payment "start_work user bid"
  for user bid key
proof
  show "\<exists>resource response. decode_payment response = Some a \<and> idem_records (db w') = idem_records (db w) @
         [\<lparr>ir_user = uuid_of E (rec_user rec), ir_route = rec_route rec, ir_key = rec_key rec,
           ir_hash = rec_hash rec, ir_resource = resource, ir_response = response\<rparr>]"
    if "start_work user bid rec E w = (Inr (Commit (Inr a)), w')" for rec E w a w'
    using start_work_Inr [OF that]
  proof (elim disjE exE conjE)
    fix r p
    assume "Commit (Inr a) = Commit (Inr (payment_of E p))"
      "db w' = (db w)\<lparr>idem_records := idem_records (db w) @ [\<lparr>ir_user = uuid_of E (rec_user rec), ir_route = rec_route rec,
        ir_key = rec_key rec, ir_hash = rec_hash rec, ir_resource = p_id p, ir_response = payment_json (payment_of E p)\<rparr>]\<rparr>"
    then show ?thesis by (intro exI [of _ "p_id p"] exI [of _ "payment_json (payment_of E p)"]) simp
  next
    fix r w1 n
    assume "db w1 = db w" "start_new (uuid_of E bid) (b_total r) (b_currency r) rec E w1 = (Inr (Commit (Inr a)), w')"
    with start_new_Inr [OF this(2)] show ?thesis by fastforce
  qed
  show "start_work user bid rec E w \<noteq> (Inr (Rollback (Inr a)), w')" for rec E w a w'
    using start_work_Inr [of user bid rec E w "Rollback (Inr a)" w'] by (auto dest: start_new_Inr)
qed

lemma apply_body_commits:
  assumes "apply_body provider event pay result E w = (Inr x, w')" and "ledger_ok (db w)"
  shows "x = Commit (Inr ())"
  using assms
proof (cases rule: apply_body_Inr)
  case (failed p h w1)
  then show ?thesis using apply_failed_Inr by blast
next
  case (succeeded p h w1 bst)
  from succeeded(8) show ?thesis
    by (cases rule: apply_succeeded_Inr) (use apply_late_Inr apply_confirm_Inr in blast)+
qed

lemma Apply_Inr:
  assumes "Apply provider event pay result E w = (Inr u, w')" and "ledger_ok (db w)"
  obtains w1 w2 where "apply_body provider event pay result E w1 = (Inr (Commit (Inr ())), w2)"
    and "db w1 = db w" and "db w2 = db w'" and "\<not> apply_invalid E provider event pay result"
proof -
  from assms(1) have ok: "\<not> apply_invalid E provider event pay result"
    and run: "in_tx (apply_body provider event pay result) E w = (Inr u, w')"
    by (auto simp: Apply_def guarded_tx_run split: if_splits)
  from run [unfolded in_tx_def] show thesis
  proof (cases rule: in_tx_with_Inr)
    case (rolled_back w2)
    with apply_body_commits [OF rolled_back(2)] assms(2) show thesis by simp
  next
    case (committed w2)
    with ok show thesis
      by (intro that [of "w\<lparr>pc := Suc (pc w), txn := clock E (pc w)\<rparr>" w2]) auto
  qed
qed

lemma Apply_failed:
  assumes "Apply provider event pay result E w = (Inl e, w')" and "ledger_ok (db w)"
  shows "db w' = db w"
proof (cases "apply_invalid E provider event pay result")
  case True
  with assms(1) show ?thesis by (simp add: Apply_def guarded_tx_run)
next
  case False
  with assms(1) have "in_tx_with (\<lambda>e. e) (\<lambda>e. e) (apply_body provider event pay result) E w = (Inl e, w')"
    by (simp add: Apply_def guarded_tx_run in_tx_def)
  then show ?thesis
  proof (cases rule: in_tx_with_cases)
    case (committed w1 w2)
    from committed(2) assms(2) have "ledger_ok (db w1)" by simp
    from apply_body_commits [OF committed(3) this] have r: "Commit (Inl e) = Commit (Inr ())" by simp
    then show ?thesis by simp
  qed
qed

text \<open>A taken event is on record, and one on record changes nothing.\<close>

lemma apply_body_records:
  assumes "apply_body provider event pay result E w = (Inr x, w')" and "ledger_ok (db w)"
  shows "webhook_known provider event (db w')"
  using assms
proof (cases rule: apply_body_Inr)
  case duplicate
  then show ?thesis by simp
next
  case (recorded p h)
  then show ?thesis by (simp add: webhook_known_def)
next
  case (failed p h w1)
  from failed(5,8) have "webhook_known provider event (db w1)" by (simp add: webhook_known_def)
  with apply_failed_Inr [OF failed(6)] show ?thesis by (simp add: webhook_known_def)
next
  case (succeeded p h w1 bst)
  from succeeded(5,9) have known: "webhook_known provider event (db w1)" by (simp add: webhook_known_def)
  from succeeded(8) show ?thesis
  proof (cases rule: apply_succeeded_Inr)
    case (late w2 r n)
    with apply_late_Inr [OF late(4)] known show ?thesis by (simp add: webhook_known_def)
  next
    case (confirm w2 r n)
    with apply_confirm_Inr [OF confirm(8)] known show ?thesis by (simp add: webhook_known_def confirmed_def)
  qed
qed

lemma apply_body_known:
  assumes "apply_body provider event pay result E w = (Inr x, w')" and "ledger_ok (db w)"
    and "webhook_known provider event (db w)"
  shows "db w' = db w"
  using assms(1,2) by (cases rule: apply_body_Inr) (use assms(3) in auto)

end
