(* ===== verification/LedgerRefund.thy ===== *)
theory LedgerRefund
  imports LedgerPayment
begin

text \<open>Refunds and the dispatchers keep the ledger.\<close>

subsection \<open>RequestRefund\<close>

definition cancelled_paid :: "uuid \<Rightarrow> uuid \<Rightarrow> int \<Rightarrow> database \<Rightarrow> database \<Rightarrow> bool" where
  "cancelled_paid b pid amount d d' \<longleftrightarrow>
     assignments d' = update_where (\<lambda>a. sa_booking a = b \<and> (sa_status a = A_CONFIRMED \<or> sa_status a = A_CHECKED_IN))
        cancel_assignment (assignments d) \<and>
     seats d' = update_where (\<lambda>s. fs_booking s = Some b \<and> fs_state s = BOOKED) free_seat (seats d) \<and>
     bookings d' = update_where (\<lambda>r. b_id r = b) (\<lambda>r. r\<lparr>b_status := B_CANCELLED, b_version := b_version r + 1\<rparr>) (bookings d) \<and>
     payments d' = update_where (\<lambda>p. p_id p = pid)
        (\<lambda>p. p\<lparr>p_status := P_REFUND_PENDING, p_version := p_version p + 1\<rparr>) (payments d) \<and>
     pid \<notin> rf_payment ` set (refunds d) \<and>
     (\<exists>f. refunds d' = refunds d @ [f] \<and> rf_payment f = pid \<and> rf_amount f = amount) \<and>
     (\<exists>e. outbox d' = outbox d @ [e] \<and> ob_aggregate e = pid \<and> ob_type e = ''REFUND_REQUESTED'')"

lemma refund_finish_Inr:
  assumes "refund_finish b pid amount rec E w = (Inr x, w')"
  shows "cancelled_paid b pid amount (db w) (db w') \<and>
    (\<exists>rid. x = Commit (Inr (uuid_text E rid)) \<and>
      idem_records (db w') = idem_records (db w) @ [\<lparr>ir_user = uuid_of E (rec_user rec), ir_route = rec_route rec,
        ir_key = rec_key rec, ir_hash = rec_hash rec, ir_resource = rid, ir_response = JStr (uuid_text E rid)\<rparr>])"
  using assms by (auto simp: refund_finish_def cancelled_paid_def run_simps op_defs)

lemma refund_work_Inr:
  assumes "refund_work user bid rec E w = (Inr x, w')"
  shows "\<exists>r p w1 n. owned_booking (uuid_of E bid) (uuid_of E user) (db w) = Some r \<and>
    (b_status r = B_CONFIRMED \<or> b_status r = B_TICKETED) \<and> booking_refundable (uuid_of E bid) (clock E n) (db w) \<and>
    p \<in> set (payments (db w)) \<and> p_booking p = uuid_of E bid \<and> p_status p = P_SUCCEEDED \<and> db w1 = db w \<and>
    refund_finish (uuid_of E bid) (p_id p) (p_amount p) rec E w1 = (Inr x, w')"
proof -
  let ?w = "w\<lparr>pc := Suc (Suc (Suc (Suc (pc w))))\<rparr>"
  from assms obtain r p where "owned_booking (uuid_of E bid) (uuid_of E user) (db w) = Some r"
    "b_status r = B_CONFIRMED \<or> b_status r = B_TICKETED" "booking_refundable (uuid_of E bid) (clock E (Suc (pc w))) (db w)"
    "find_row (\<lambda>p. p_booking p = uuid_of E bid \<and> p_status p = P_SUCCEEDED) (payments (db w)) = Some p"
    "refund_finish (uuid_of E bid) (p_id p) (p_amount p) rec E ?w = (Inr x, w')"
    by (auto simp: refund_work_def andthen_Inr select_Inr reading_Inr ensure_Inr nop_stmt_Inr split: option.splits)
  with find_row_SomeD show ?thesis by (intro exI [of _ r] exI [of _ p] exI [of _ ?w]) fastforce
qed

lemma cancelled_inventory:
  assumes "cancelled_paid b pid amount d d'" and "inventory_ok d"
  shows "inventory_ok d'"
proof -
  have "inventory_ok d' = inventory_ok (refund.after b d)"
    by (rule inventory_cong) (use assms(1) in \<open>simp_all add: cancelled_paid_def refund.after_def\<close>)
  with refund.preserves [OF assms(2)] show ?thesis by simp
qed

lemma cancelled_ledger:
  assumes old: "ledger_ok d" and c: "cancelled_paid (p_booking p) (p_id p) (p_amount p) d d'"
    and p: "p \<in> set (payments d)" "p_status p = P_SUCCEEDED"
  shows "ledger_ok d'"
proof -
  let ?b = "p_booking p" and ?f = "\<lambda>r. r\<lparr>b_status := B_CANCELLED, b_version := b_version r + 1\<rparr>"
  have bk: "bookings d' = update_where (\<lambda>r. b_id r \<in> {?b}) ?f (bookings d)" using c by (simp add: cancelled_paid_def)
  note stat = bstat_update [OF bk, where st = B_CANCELLED, simplified]
  have before: "bstat d ?b \<in> {Some B_CONFIRMED, Some B_TICKETED}"
    using ledger_payment [OF old p(1)] p(2) by (auto simp: payment_ok_def)
  have "\<exists>f. refunds d' = refunds d @ [f] \<and> rf_payment f = p_id p \<and> rf_amount f = p_amount p"
    using c by (simp add: cancelled_paid_def)
  then obtain f where f: "refunds d' = refunds d @ [f]" "rf_payment f = p_id p" "rf_amount f = p_amount p" by blast
  show ?thesis
  proof (rule payment_change [OF old cancelled_inventory [OF c ledger_inventory [OF old]], where pre = p and
        st = P_REFUND_PENDING and f = "\<lambda>p. p\<lparr>p_status := P_REFUND_PENDING, p_version := p_version p + 1\<rparr>"])
    show "distinct (map b_id (bookings d'))"
      unfolding bk by (rule distinct_map_update_keep) (use ledger_keys [OF old] in \<open>auto simp: keys_ok_def\<close>)
    show "distinct (map rf_payment (refunds d'))"
      using c f ledger_keys [OF old] by (auto simp: keys_ok_def cancelled_paid_def)
    show "bstat d' ?b \<in> Some ` allowed P_REFUND_PENDING" using stat before by auto
    show "P_REFUND_PENDING = P_SUCCEEDED" if "bstat d' ?b \<in> {Some B_CONFIRMED, Some B_TICKETED}"
      using that stat before by auto
    show "s \<in> set (seats d) \<and> fs_booking s \<noteq> Some ?b \<or> seat_status_ok d' s" if "s \<in> set (seats d')" for s
      using that c ledger_seat [OF old, of s] before
      by (auto simp: cancelled_paid_def set_update_where free_seat_def seat_status_ok_def split: if_splits)
  qed (use c p stat f in \<open>auto simp: cancelled_paid_def\<close>)
qed

lemma keeps_ledger_RequestRefund: "keeps ledger_ok (RequestRefund user bid key)"
  unfolding RequestRefund_def
proof (rule keeps_guarded_idem)
  fix rec E w r w'
  assume old: "ledger_ok (db w)" and run: "refund_work user bid rec E w = (Inr (Commit r), w')"
  from refund_work_Inr [OF run] obtain p w1 where p: "p \<in> set (payments (db w))" "p_booking p = uuid_of E bid"
    "p_status p = P_SUCCEEDED" "db w1 = db w"
    and f: "refund_finish (uuid_of E bid) (p_id p) (p_amount p) rec E w1 = (Inr (Commit r), w')" by blast
  from refund_finish_Inr [OF f] p have "cancelled_paid (p_booking p) (p_id p) (p_amount p) (db w) (db w')" by simp
  from cancelled_ledger [OF old this p(1,3)] show "ledger_ok (db w')" .
qed

subsection \<open>DispatchRefund\<close>

text \<open>How the settling transaction ends: the payment was not waiting for its refund, or it is
  marked, with the refund and, when it was cancelled, the booking.\<close>

lemma refund_settle_Inr:
  assumes "refund_settle pay E w = (Inr x, w')" and "ledger_ok (db w)"
  shows "x = Commit (Inr ()) \<and>
    (\<exists>p bst. p \<in> set (payments (db w)) \<and> p_id p = uuid_of E pay \<and> bstat (db w) (p_booking p) = Some bst \<and>
      ((p_status p \<noteq> P_REFUND_PENDING \<and> db w' = db w) \<or>
       (p_status p = P_REFUND_PENDING \<and>
        payments (db w') = update_where (\<lambda>q. p_id q = p_id p)
          (\<lambda>p. p\<lparr>p_status := P_REFUNDED, p_version := p_version p + 1\<rparr>) (payments (db w)) \<and>
        refunds (db w') = update_where (\<lambda>r. rf_payment r = p_id p) (\<lambda>r. r\<lparr>rf_status := R_SUCCEEDED\<rparr>) (refunds (db w)) \<and>
        bookings (db w') = (if bst = B_CANCELLED then update_where (\<lambda>r. b_id r = p_booking p)
          (\<lambda>r. r\<lparr>b_status := B_REFUNDED, b_version := b_version r + 1\<rparr>) (bookings (db w)) else bookings (db w)) \<and>
        seats (db w') = seats (db w) \<and> assignments (db w') = assignments (db w) \<and>
        (\<exists>e. outbox (db w') = outbox (db w) @ [e] \<and> ob_aggregate e = p_id p \<and> ob_type e = ''PAYMENT_REFUNDED''))))"
proof -
  let ?pid = "uuid_of E pay" and ?w = "w\<lparr>pc := Suc (pc w)\<rparr>"
  let ?hit = "\<lambda>p. p_id p = ?pid \<and> p_status p = P_REFUND_PENDING"
  let ?f = "\<lambda>p. p\<lparr>p_status := P_REFUNDED, p_version := p_version p + 1\<rparr>"
  from assms(1) obtain b bst n w1 where bk: "apply_booking ?pid (db w) = Some (b, bst)"
    and s1: "exec_update_payments ?hit ?f E ?w = (Inr n, w1)"
    and rest: "(if n = 0 then ret (Commit (Inr ()))
     else
       andthen (exec_update_refunds (\<lambda>r. rf_payment r = ?pid) (\<lambda>r. r\<lparr>rf_status := R_SUCCEEDED\<rparr>)) (\<lambda>_.
       andthen (if bst = B_CANCELLED
                then andthen (exec_update_bookings (\<lambda>r. b_id r = b)
                        (\<lambda>r. r\<lparr>b_status := B_REFUNDED, b_version := b_version r + 1\<rparr>)) (\<lambda>_. ret ())
                else ret ()) (\<lambda>_.
       andthen (emit ?pid ''PAYMENT_REFUNDED'') (\<lambda>_.
       ret (Commit (Inr ())))))) E w1 = (Inr x, w')"
    by (auto simp: refund_settle_def andthen_Inr select_Inr reading_Inr split: option.splits)
  from apply_booking_Some [OF assms(2) bk] obtain p where p: "p \<in> set (payments (db w))" "p_id p = ?pid"
    "p_booking p = b" "bstat (db w) b = Some bst" by blast
  have only: "q = p" if "q \<in> set (payments (db w))" "p_id q = ?pid" for q
    using that p ledger_keys [OF assms(2)] by (auto simp: keys_ok_def intro: distinct_map_same)
  from s1 have d1: "n = count_where ?hit (payments (db w))" "db w1 = (db w)\<lparr>payments := update_where ?hit ?f (payments (db w))\<rparr>"
    by (auto simp: run_simps op_defs)
  show ?thesis
  proof (cases "p_status p = P_REFUND_PENDING")
    case False
    with only have none: "\<forall>q \<in> set (payments (db w)). \<not> ?hit q" by auto
    then have "n = 0" using d1(1) by (simp add: count_where_0_iff)
    moreover have "update_where ?hit ?f (payments (db w)) = payments (db w)" using none by (rule update_where_id)
    ultimately show ?thesis using rest d1(2) p False by auto
  next
    case True
    then have "n \<noteq> 0" using d1(1) p by (auto simp: count_where_0_iff)
    moreover have "update_where ?hit ?f (payments (db w)) = update_where (\<lambda>q. p_id q = p_id p) ?f (payments (db w))"
      by (rule update_where_cong) (use only True p(2) in auto)
    ultimately show ?thesis
      using rest d1(2) p True
      by (intro conjI exI [of _ p] exI [of _ bst] disjI2; cases "bst = B_CANCELLED")
        (auto simp: run_simps op_defs)
  qed
qed

lemma refund_settle_ledger:
  assumes old: "ledger_ok (db w)" and run: "refund_settle pay E w = (Inr x, w')"
  shows "ledger_ok (db w')"
proof -
  from refund_settle_Inr [OF run old] obtain p bst where p: "p \<in> set (payments (db w))" "bstat (db w) (p_booking p) = Some bst"
    and c: "(p_status p \<noteq> P_REFUND_PENDING \<and> db w' = db w) \<or>
       (p_status p = P_REFUND_PENDING \<and>
        payments (db w') = update_where (\<lambda>q. p_id q = p_id p)
          (\<lambda>p. p\<lparr>p_status := P_REFUNDED, p_version := p_version p + 1\<rparr>) (payments (db w)) \<and>
        refunds (db w') = update_where (\<lambda>r. rf_payment r = p_id p) (\<lambda>r. r\<lparr>rf_status := R_SUCCEEDED\<rparr>) (refunds (db w)) \<and>
        bookings (db w') = (if bst = B_CANCELLED then update_where (\<lambda>r. b_id r = p_booking p)
          (\<lambda>r. r\<lparr>b_status := B_REFUNDED, b_version := b_version r + 1\<rparr>) (bookings (db w)) else bookings (db w)) \<and>
        seats (db w') = seats (db w) \<and> assignments (db w') = assignments (db w))"
    by blast
  from c show ?thesis
  proof
    assume "p_status p \<noteq> P_REFUND_PENDING \<and> db w' = db w"
    with old show ?thesis by simp
  next
    let ?b = "p_booking p" and ?d' = "db w'"
    assume r: "p_status p = P_REFUND_PENDING \<and>
        payments (db w') = update_where (\<lambda>q. p_id q = p_id p)
          (\<lambda>p. p\<lparr>p_status := P_REFUNDED, p_version := p_version p + 1\<rparr>) (payments (db w)) \<and>
        refunds (db w') = update_where (\<lambda>r. rf_payment r = p_id p) (\<lambda>r. r\<lparr>rf_status := R_SUCCEEDED\<rparr>) (refunds (db w)) \<and>
        bookings (db w') = (if bst = B_CANCELLED then update_where (\<lambda>r. b_id r = p_booking p)
          (\<lambda>r. r\<lparr>b_status := B_REFUNDED, b_version := b_version r + 1\<rparr>) (bookings (db w)) else bookings (db w)) \<and>
        seats (db w') = seats (db w) \<and> assignments (db w') = assignments (db w)"
    have bst: "bst \<in> {B_PAYMENT_PENDING, B_EXPIRED, B_CANCELLED}"
      using ledger_payment [OF old p(1)] r p(2) by (auto simp: payment_ok_def)
    have other: "bstat ?d' b = bstat (db w) b" if "b \<noteq> ?b" for b
    proof (cases "bst = B_CANCELLED")
      case True
      with r have "bookings ?d' = update_where (\<lambda>r. b_id r \<in> {?b})
          (\<lambda>r. r\<lparr>b_status := B_REFUNDED, b_version := b_version r + 1\<rparr>) (bookings (db w))" by simp
      from bstat_update [OF this, where st = B_REFUNDED and b = b] that show ?thesis by simp
    next
      case False
      with r show ?thesis by (simp add: bstat_def)
    qed
    have here: "bstat ?d' ?b = Some (if bst = B_CANCELLED then B_REFUNDED else bst)"
    proof (cases "bst = B_CANCELLED")
      case True
      with r have "bookings ?d' = update_where (\<lambda>r. b_id r \<in> {?b})
          (\<lambda>r. r\<lparr>b_status := B_REFUNDED, b_version := b_version r + 1\<rparr>) (bookings (db w))" by simp
      from bstat_update [OF this, where st = B_REFUNDED and b = ?b] p(2) True show ?thesis by simp
    next
      case False
      with r p(2) show ?thesis by (simp add: bstat_def)
    qed
    have inv: "inventory_ok ?d'" using r ledger_inventory [OF old] inventory_cong by blast
    show ?thesis
    proof (rule payment_change [OF old inv, where pre = p and st = P_REFUNDED and
          f = "\<lambda>p. p\<lparr>p_status := P_REFUNDED, p_version := p_version p + 1\<rparr>"])
      show "distinct (map b_id (bookings ?d'))"
        using r ledger_keys [OF old] by (auto simp: keys_ok_def map_update_where_keep)
      show "distinct (map rf_payment (refunds ?d'))"
        using r ledger_keys [OF old] by (auto simp: keys_ok_def map_update_where_keep)
      show "bstat ?d' ?b \<in> Some ` allowed P_REFUNDED" using here bst by auto
      show "P_REFUNDED = P_SUCCEEDED" if "bstat ?d' ?b \<in> {Some B_CONFIRMED, Some B_TICKETED}"
        using that here bst by auto
      show "s \<in> set (seats (db w)) \<and> fs_booking s \<noteq> Some ?b \<or> seat_status_ok ?d' s" if "s \<in> set (seats ?d')" for s
        using that r here bst ledger_seat [OF old, of s] p(2)
        by (cases "fs_booking s = Some ?b") (auto simp: seat_status_ok_def)
    qed (use r p(1) other in \<open>auto simp: set_update_where\<close>)
  qed
qed

subsection \<open>The dispatchers\<close>

lemma reconciled_ledger:
  assumes old: "ledger_ok d"
    and d': "d' = d\<lparr>payments := update_where (\<lambda>p. p_id p = pid \<and>
        (p_status p = P_PENDING \<or> p_status p = P_PROCESSING \<or> p_status p = P_RECONCILIATION_REQUIRED))
        (\<lambda>p. p\<lparr>p_status := P_RECONCILIATION_REQUIRED, p_version := p_version p + 1\<rparr>) (payments d)\<rparr>"
      (is "d' = d\<lparr>payments := update_where ?hit ?f (payments d)\<rparr>")
  shows "ledger_ok d'"
proof (cases "\<exists>p \<in> set (payments d). ?hit p")
  case False
  then have "update_where ?hit ?f (payments d) = payments d" by (intro update_where_id) blast
  with d' old show ?thesis by simp
next
  case True
  then obtain p where p: "p \<in> set (payments d)" "?hit p" by blast
  have only: "q = p" if "q \<in> set (payments d)" "p_id q = p_id p" for q
    using that p ledger_keys [OF old] by (auto simp: keys_ok_def intro: distinct_map_same)
  have "update_where ?hit ?f (payments d) = update_where (\<lambda>q. p_id q = p_id p) ?f (payments d)"
    by (rule update_where_cong) (use only p(2) in auto)
  with d' have pay: "payments d' = update_where (\<lambda>q. p_id q = p_id p) ?f (payments d)" by simp
  have "bstat d (p_booking p) \<in> Some ` allowed P_RECONCILIATION_REQUIRED"
    using ledger_payment [OF old p(1)] p(2) by (auto simp: payment_ok_def)
  then show ?thesis
    by (intro payment_only_change [OF old p(1) pay, where st = P_RECONCILIATION_REQUIRED])
      (use d' p ledger_keys [OF old] in \<open>auto simp: keys_ok_def\<close>)
qed

lemma keeps_ledger_mark: "keeps ledger_ok (mark_reconciliation pay)"
  unfolding mark_reconciliation_def
proof (rule keeps_stmt, goal_cases)
  case (1 E w a d')
  then obtain n d where u: "update_payments (\<lambda>p. p_id p = uuid_of E pay \<and>
        (p_status p = P_PENDING \<or> p_status p = P_PROCESSING \<or> p_status p = P_RECONCILIATION_REQUIRED))
        (\<lambda>p. p\<lparr>p_status := P_RECONCILIATION_REQUIRED, p_version := p_version p + 1\<rparr>) (db w) = Inr (n, d)"
    and rest: "d' = d \<or> (\<exists>t. insert_outbox (gen_uuid E (pc w) 0) (uuid_of E pay) ''PAYMENT_RECONCILIATION_REQUIRED'' t d = Inr (a, d'))"
    by (auto simp: Let_def split: sum.splits prod.splits if_splits)
  from u have "d = (db w)\<lparr>payments := update_where (\<lambda>p. p_id p = uuid_of E pay \<and>
        (p_status p = P_PENDING \<or> p_status p = P_PROCESSING \<or> p_status p = P_RECONCILIATION_REQUIRED))
        (\<lambda>p. p\<lparr>p_status := P_RECONCILIATION_REQUIRED, p_version := p_version p + 1\<rparr>) (payments (db w))\<rparr>"
    by (simp add: update_payments_Inr)
  from reconciled_ledger [OF 1(1) this] have "ledger_ok d" .
  with rest show ?case by (auto simp: run_simps)
qed

lemma keeps_ledger_unknown: "keeps ledger_ok (refund_unknown pay)"
  unfolding refund_unknown_def exec_update_refunds_def
proof (intro keeps_rules keeps_stmt, goal_cases)
  case (1 pid E w a d')
  let ?hit = "\<lambda>r. rf_payment r = pid \<and> rf_status r \<noteq> R_SUCCEEDED" and ?f = "\<lambda>r. r\<lparr>rf_status := R_UNKNOWN\<rparr>"
  from 1 have d': "d' = (db w)\<lparr>refunds := update_where ?hit ?f (refunds (db w))\<rparr>" by simp
  have same: "bookings d' = bookings (db w)" "payments d' = payments (db w)" "seats d' = seats (db w)"
    "assignments d' = assignments (db w)" using d' by simp_all
  note old = 1(1)
  have b: "bstat d' x = bstat (db w) x" for x using same by (simp add: bstat_def)
  show ?case
  proof (rule ledger_okI [OF _ old, where B = "{}"])
    show "inventory_ok d'" using ledger_inventory [OF old] inventory_cong same by blast
    show "keys_ok d'" using ledger_keys [OF old] d' by (auto simp: keys_ok_def map_update_where_keep)
    show "refund_ok d' f" if "f \<in> set (refunds d')" for f
      using that ledger_refund [OF old] d' by (auto simp: set_update_where refund_ok_def split: if_splits)
  qed (use same b in auto)
qed

lemma keeps_ledger_reads: "keeps ledger_ok (dispatch_read pay)" "keeps ledger_ok (refund_read pay)"
  unfolding dispatch_read_def refund_read_def
  by (intro keeps_rules keeps_stmt; auto)+

lemma Dispatch_ledger:
  assumes "ledger_ok (db (snd sw))"
  shows "ledger_ok (db (snd (snd (Dispatch provider pay E sw))))"
proof -
  obtain s w where sw: "sw = (s, w)" by (cases sw)
  obtain r w1 where read: "dispatch_read pay E w = (r, w1)" by (cases "dispatch_read pay E w")
  with keeps_ledger_reads(1) assms sw have old: "ledger_ok (db w1)" by (auto dest: keepsD)
  have mark: "ledger_ok (db w2)" if "mark_reconciliation pay E w1 = (x, w2)" for x w2
    using keepsD [OF keeps_ledger_mark that old] .
  have applied: "ledger_ok (db w2)" if "Apply p e i v E w1 = (x, w2)" for p e i v x w2
    using keepsD [OF keeps_ledger_Apply that old] .
  show ?thesis
    using read sw assms old mark applied
    by (auto simp: Dispatch_def split: option.splits prod.splits sum.splits)
qed

lemma DispatchRefund_ledger:
  assumes "ledger_ok (db (snd sw))"
  shows "ledger_ok (db (snd (snd (DispatchRefund provider pay E sw))))"
proof -
  obtain s w where sw: "sw = (s, w)" by (cases sw)
  obtain r w1 where read: "refund_read pay E w = (r, w1)" by (cases "refund_read pay E w")
  with keeps_ledger_reads(2) assms sw have old: "ledger_ok (db w1)" by (auto dest: keepsD)
  have unknown: "ledger_ok (db (snd (refund_unknown pay E w1)))"
    using keeps_ledger_unknown old by (auto simp: keeps_def)
  have "keeps ledger_ok (in_tx (refund_settle pay))"
    by (rule keeps_in_tx) (rule refund_settle_ledger)
  then have settle: "ledger_ok (db w2)" if "in_tx (refund_settle pay) E w1 = (x, w2)" for x w2
    using that old by (auto dest: keepsD)
  show ?thesis
    using read sw assms old unknown settle
    by (auto simp: DispatchRefund_def split: option.splits prod.splits sum.splits)
qed

interpretation refund_call: idem_work
  "\<lambda>E. \<not> validate_UUID E user \<or> \<not> validate_UUID E bid" ErrInvalidHoldRequest
  user "refund_route bid" key "JStr bid" decode_text "refund_work user bid"
  for user bid key
proof
  show "\<exists>resource response. decode_text response = Some a \<and> idem_records (db w') = idem_records (db w) @
         [\<lparr>ir_user = uuid_of E (rec_user rec), ir_route = rec_route rec, ir_key = rec_key rec,
           ir_hash = rec_hash rec, ir_resource = resource, ir_response = response\<rparr>]"
    if "refund_work user bid rec E w = (Inr (Commit (Inr a)), w')" for rec E w a w'
    using refund_work_Inr [OF that] by (auto dest!: refund_finish_Inr)
  show "refund_work user bid rec E w \<noteq> (Inr (Rollback (Inr a)), w')" for rec E w a w'
    using refund_work_Inr [of user bid rec E w "Rollback (Inr a)" w'] by (auto dest: refund_finish_Inr)
qed

text \<open>What a settling transaction makes of the payment and its refund.\<close>

lemma settled_refund:
  assumes "refund_settle pay E w = (Inr x, w')" and "ledger_ok (db w)"
    and p: "p \<in> set (payments (db w))" "p_id p = uuid_of E pay"
    and f: "f \<in> set (refunds (db w))" "rf_payment f = p_id p"
  shows "p_status p = P_REFUNDED \<and> db w' = db w \<or>
      p_status p = P_REFUND_PENDING \<and>
      p\<lparr>p_status := P_REFUNDED, p_version := p_version p + 1\<rparr> \<in> set (payments (db w')) \<and>
      f\<lparr>rf_status := R_SUCCEEDED\<rparr> \<in> set (refunds (db w')) \<and>
      (bstat (db w) (p_booking p) = Some B_CANCELLED \<longrightarrow> bstat (db w') (p_booking p) = Some B_REFUNDED)"
proof -
  note keys = ledger_keys [OF assms(2)]
  from refund_settle_Inr [OF assms(1,2)] obtain q bst where q: "q \<in> set (payments (db w))" "p_id q = uuid_of E pay"
    "bstat (db w) (p_booking q) = Some bst" and c: "(p_status q \<noteq> P_REFUND_PENDING \<and> db w' = db w) \<or>
       (p_status q = P_REFUND_PENDING \<and>
        payments (db w') = update_where (\<lambda>r. p_id r = p_id q)
          (\<lambda>p. p\<lparr>p_status := P_REFUNDED, p_version := p_version p + 1\<rparr>) (payments (db w)) \<and>
        refunds (db w') = update_where (\<lambda>r. rf_payment r = p_id q) (\<lambda>r. r\<lparr>rf_status := R_SUCCEEDED\<rparr>) (refunds (db w)) \<and>
        bookings (db w') = (if bst = B_CANCELLED then update_where (\<lambda>r. b_id r = p_booking q)
          (\<lambda>r. r\<lparr>b_status := B_REFUNDED, b_version := b_version r + 1\<rparr>) (bookings (db w)) else bookings (db w)))"
    by blast
  have eq: "q = p" using q(1,2) p keys by (auto simp: keys_ok_def intro: distinct_map_same)
  from ledger_refund [OF assms(2) f(1)] obtain r where r: "r \<in> set (payments (db w))" "p_id r = rf_payment f"
    "p_status r = P_REFUND_PENDING \<or> p_status r = P_REFUNDED" by (auto simp: refund_ok_def)
  have "r = p" using r(1,2) p(1) f(2) keys by (auto simp: keys_ok_def intro: distinct_map_same)
  with r(3) have st: "p_status p = P_REFUND_PENDING \<or> p_status p = P_REFUNDED" by simp
  from c [unfolded eq] show ?thesis
  proof (elim disjE conjE)
    assume "p_status p \<noteq> P_REFUND_PENDING" "db w' = db w"
    with st show ?thesis by simp
  next
    let ?f = "\<lambda>r. r\<lparr>b_status := B_REFUNDED, b_version := b_version r + 1\<rparr>"
    assume u: "p_status p = P_REFUND_PENDING"
      "payments (db w') = update_where (\<lambda>r. p_id r = p_id p) (\<lambda>p. p\<lparr>p_status := P_REFUNDED, p_version := p_version p + 1\<rparr>) (payments (db w))"
      "refunds (db w') = update_where (\<lambda>r. rf_payment r = p_id p) (\<lambda>r. r\<lparr>rf_status := R_SUCCEEDED\<rparr>) (refunds (db w))"
      "bookings (db w') = (if bst = B_CANCELLED then update_where (\<lambda>r. b_id r = p_booking p) ?f (bookings (db w)) else bookings (db w))"
    have "f\<lparr>rf_status := R_SUCCEEDED\<rparr> \<in> set (refunds (db w'))"
      unfolding u(3) using in_update_where [of f "refunds (db w)" "\<lambda>r. rf_payment r = p_id p" "\<lambda>r. r\<lparr>rf_status := R_SUCCEEDED\<rparr>"] f by simp
    moreover have "bstat (db w') (p_booking p) = Some B_REFUNDED" if "bstat (db w) (p_booking p) = Some B_CANCELLED"
    proof -
      from that q(3) eq have "bst = B_CANCELLED" by simp
      with u(4) have bk: "bookings (db w') = update_where (\<lambda>r. b_id r \<in> {p_booking p}) ?f (bookings (db w))" by simp
      from bstat_update [OF bk, where st = B_REFUNDED and b = "p_booking p"] that show ?thesis by simp
    qed
    ultimately show ?thesis
      using u(1) updated_payment [OF p(1) u(2)] by blast
  qed
qed

text \<open>A fresh payment or refund request that commits has succeeded.\<close>

lemma start_work_commits: "start_work user bid rec E w = (Inr (Commit q), w') \<Longrightarrow> \<exists>a. q = Inr a"
  by (auto dest!: start_work_Inr dest: start_new_Inr)

lemma refund_work_commits: "refund_work user bid rec E w = (Inr (Commit q), w') \<Longrightarrow> \<exists>a. q = Inr a"
  by (auto dest!: refund_work_Inr refund_finish_Inr)

end
