(* ===== verification/DemoLedger.thy ===== *)
theory DemoLedger
  imports LedgerRefund Demo
begin

text \<open>
  The databases of the payment witnesses, and that they satisfy the ledger: booking 2 waits for
  payment 61, whose attempt 62 has the provider key 63.
\<close>

definition demo_payment :: "payment_status \<Rightarrow> payment_row" where
  "demo_payment st = \<lparr>p_id = 61, p_booking = 2, p_amount = 5000, p_currency = ''EGP'', p_status = st,
     p_reference = None, p_version = 1\<rparr>"

definition demo_paying :: "ts \<Rightarrow> database" where
  "demo_paying h = (demo_held B_PAYMENT_PENDING h)\<lparr>
     payments := [demo_payment P_PENDING],
     attempts := [\<lparr>pa_id = 62, pa_payment = 61, pa_key = 63, pa_status = PA_PENDING, pa_created = 0\<rparr>]\<rparr>"

lemmas demo_rows = demo_db_def empty_db_def demo_held_def demo_held_seat_def demo_held_assignment_def
  demo_held_booking_def demo_seat_def demo_booking_def

lemma demo_held_inventory: "inventory_ok (demo_held st h)"
  by (simp add: inventory_ok_def demo_rows seat_ok_def taken_def active_at_def active_def seat_matches_def seat_check_def
      active_unique_def)

lemma demo_held_ledger: "ledger_ok (demo_held B_HELD h)"
  using demo_held_inventory
  by (simp add: ledger_ok_def) (auto simp: demo_rows keys_ok_def seat_status_ok_def confirmed_paid_def bstat_def)

lemma demo_paying_ledger: "ledger_ok (demo_paying h)"
proof -
  have "inventory_ok (demo_paying h)"
    using demo_held_inventory [of B_PAYMENT_PENDING h] by (simp add: demo_paying_def inventory_ok_def)
  then show ?thesis
    by (simp add: ledger_ok_def)
      (auto simp: demo_paying_def demo_payment_def demo_rows keys_ok_def seat_status_ok_def payment_ok_def confirmed_paid_def bstat_def)
qed
text \<open>Booking 2 paid for and confirmed, with its seats booked.\<close>

definition demo_paid :: database where
  "demo_paid = (demo_paying 0)\<lparr>
     bookings := [(demo_held_booking B_CONFIRMED 0)\<lparr>b_hold := None\<rparr>, demo_booking 22 21 42 ''BBBBBBBB''],
     segments := [(demo_segment 3 2 4)\<lparr>bs_status := S_CONFIRMED\<rparr>, demo_segment 23 22 4],
     seats := [(demo_held_seat 11 31 0)\<lparr>fs_state := BOOKED, fs_hold := None\<rparr>,
       (demo_held_seat 12 32 0)\<lparr>fs_state := BOOKED, fs_hold := None\<rparr>, demo_seat 13 33 BLOCKED],
     assignments := [(demo_held_assignment 51 5 12 0)\<lparr>sa_status := A_CONFIRMED, sa_hold := None\<rparr>,
       (demo_held_assignment 52 6 11 0)\<lparr>sa_status := A_CONFIRMED, sa_hold := None\<rparr>],
     payments := [demo_payment P_SUCCEEDED]\<rparr>"

lemma demo_paid_ledger: "ledger_ok demo_paid"
proof -
  have "inventory_ok demo_paid"
    by (simp add: demo_paid_def demo_paying_def inventory_ok_def demo_rows seat_ok_def taken_def active_at_def active_def
        seat_matches_def seat_check_def active_unique_def)
  then show ?thesis
    by (simp add: ledger_ok_def)
      (auto simp: demo_paid_def demo_paying_def demo_payment_def demo_rows keys_ok_def seat_status_ok_def payment_ok_def
        confirmed_paid_def bstat_def)
qed

text \<open>The same booking cancelled, with refund 71 under way.\<close>

definition demo_refunding :: database where
  "demo_refunding = (demo_paying 0)\<lparr>
     bookings := [(demo_held_booking B_CANCELLED 0)\<lparr>b_hold := None\<rparr>, demo_booking 22 21 42 ''BBBBBBBB''],
     seats := [demo_seat 11 31 AVAILABLE, demo_seat 12 32 AVAILABLE, demo_seat 13 33 BLOCKED],
     assignments := [], payments := [demo_payment P_REFUND_PENDING],
     refunds := [\<lparr>rf_id = 71, rf_payment = 61, rf_amount = 5000, rf_status = R_PENDING\<rparr>]\<rparr>"

lemma demo_refunding_ledger: "ledger_ok demo_refunding"
proof -
  have "inventory_ok demo_refunding"
    by (simp add: demo_refunding_def demo_paying_def inventory_ok_def demo_rows seat_ok_def taken_def active_at_def active_def
        seat_check_def active_unique_def)
  then show ?thesis
    by (simp add: ledger_ok_def)
      (auto simp: demo_refunding_def demo_paying_def demo_payment_def demo_rows keys_ok_def seat_status_ok_def payment_ok_def
        confirmed_paid_def refund_ok_def bstat_def)
qed

end
