(* ===== verification/PaymentProps.thy ===== *)
theory PaymentProps
  imports DemoLedger
begin

text \<open>
  The properties of payments and refunds: what an accepted signature proves, one charge per
  payment, what a provider result does to the booking, and that neither a repeated event nor a
  repeated request does anything twice.
\<close>

subsection \<open>Signatures\<close>

lemma digits_value_chars:
  "digits_value cs acc = Some n \<Longrightarrow> c \<in> set cs \<Longrightarrow> 48 \<le> byte c \<and> byte c \<le> 57"
  by (induction cs arbitrary: acc) (auto split: if_splits)

lemma timestamp_has_no_dot:
  assumes "ParseInt64 ts = Some u"
  shows "CHR ''.'' \<notin> set ts"
proof
  assume dot: "CHR ''.'' \<in> set ts"
  have nodigit: "\<not> 48 \<le> byte (CHR ''.'')" by code_simp
  let ?body = "case ts of c # cs \<Rightarrow> if c = CHR ''-'' \<or> c = CHR ''+'' then cs else ts | [] \<Rightarrow> []"
  from assms obtain n where b: "digits_value ?body 0 = Some n"
    by (simp add: ParseInt64_def Let_def split: if_split_asm option.split_asm)
  from dot have "CHR ''.'' \<in> set ?body" by (cases ts) auto
  with digits_value_chars [OF b] nodigit show False by blast
qed

lemma message_injective:
  assumes "ParseInt64 ts = Some u" and "ParseInt64 ts' = Some u'"
    and "ts @ ''.'' @ body = ts' @ ''.'' @ body'"
  shows "ts = ts' \<and> body = body'"
proof -
  have split: "takeWhile (\<lambda>c. c \<noteq> CHR ''.'') (t @ ''.'' @ b) = t" if "ParseInt64 t = Some v" for t b v
    using timestamp_has_no_dot [OF that] by (induction t) auto
  from split [OF assms(1), of body] split [OF assms(2), of body'] assms(3) have "ts = ts'" by simp
  with assms(3) show ?thesis by simp
qed

lemma VerifySignature_D:
  assumes "VerifySignature mac secret body ts sig now"
  shows "\<exists>u. ParseInt64 ts = Some u \<and> hex_decode sig = Some (mac secret (ts @ ''.'' @ body)) \<and>
    now - 5 * minute \<le> u * second \<and> u * second \<le> now + minute"
  using assms by (auto simp: VerifySignature_def Let_def split: if_splits option.splits)

lemma VerifySignature_signed:
  assumes "32 \<le> length secret" and "\<And>m. length (mac secret m) = 32" and "ParseInt64 ts = Some u"
  shows "VerifySignature mac secret body ts (hex_encode (mac secret (ts @ ''.'' @ body))) now \<longleftrightarrow>
    u * second - minute \<le> now \<and> now \<le> u * second + 5 * minute"
  using assms by (auto simp: VerifySignature_def Let_def hex_decode_encode)

text \<open>C28. A signature binds its timestamp and its body: the same signature accepted for another
  timestamp or body, at whatever time, exhibits two different messages with the same MAC.\<close>

theorem signature_binds:
  assumes "VerifySignature mac secret body ts sig now" and "VerifySignature mac secret body' ts' sig now'"
    and "ts \<noteq> ts' \<or> body \<noteq> body'"
  shows "ts @ ''.'' @ body \<noteq> ts' @ ''.'' @ body' \<and>
    mac secret (ts @ ''.'' @ body) = mac secret (ts' @ ''.'' @ body')"
proof -
  from VerifySignature_D [OF assms(1)] VerifySignature_D [OF assms(2)] obtain u u' where
    v: "ParseInt64 ts = Some u" "hex_decode sig = Some (mac secret (ts @ ''.'' @ body))"
      "ParseInt64 ts' = Some u'" "hex_decode sig = Some (mac secret (ts' @ ''.'' @ body'))" by blast
  from message_injective [OF v(1,3)] assms(3) v(2,4) show ?thesis by auto
qed

definition demo_mac :: "string \<Rightarrow> string \<Rightarrow> string" where
  "demo_mac secret m = replicate 32 (CHR ''m'')"

definition demo_secret :: string where
  "demo_secret = replicate 32 (CHR ''k'')"

theorem signature_binds_witness:
  "demo_mac demo_secret (''1000'' @ ''.'' @ ''ab'') = demo_mac demo_secret (''1000'' @ ''.'' @ ''cd'')"
proof -
  have "ParseInt64 ''1000'' = Some 1000" by code_simp
  note signed = VerifySignature_signed [of demo_secret demo_mac, OF _ _ this, where now = "1100 * second"]
  have "VerifySignature demo_mac demo_secret ''ab'' ''1000'' (hex_encode (replicate 32 (CHR ''m''))) (1100 * second)"
    "VerifySignature demo_mac demo_secret ''cd'' ''1000'' (hex_encode (replicate 32 (CHR ''m''))) (1100 * second)"
    using signed [of "''ab''"] signed [of "''cd''"]
    by (simp_all add: demo_secret_def demo_mac_def second_def minute_def)
  from signature_binds [OF this] show ?thesis by simp
qed

text \<open>The signature the sender computes for a parsable timestamp is accepted exactly from one
  minute before the timestamp until five minutes after it.\<close>

theorem signature_window:
  assumes "32 \<le> length secret" and "\<And>m. length (mac secret m) = 32" and "ParseInt64 ts = Some u"
  shows "VerifySignature mac secret body ts (hex_encode (mac secret (ts @ ''.'' @ body))) now \<longleftrightarrow>
    u * second - minute \<le> now \<and> now \<le> u * second + 5 * minute"
  using VerifySignature_signed [of secret mac, OF assms] .

theorem signature_window_witness:
  "VerifySignature demo_mac demo_secret ''ab'' ''1000'' (hex_encode (demo_mac demo_secret ''1000.ab'')) (1300 * second) \<and>
   \<not> VerifySignature demo_mac demo_secret ''ab'' ''1000'' (hex_encode (demo_mac demo_secret ''1000.ab'')) (1301 * second)"
proof -
  have "ParseInt64 ''1000'' = Some 1000" by code_simp
  from signature_window [of demo_secret demo_mac, OF _ _ this, where body = "''ab''"] show ?thesis
    by (simp add: demo_secret_def demo_mac_def second_def minute_def)
qed

subsection \<open>Charging\<close>

context payment_provider
begin

lemma settled_known:
  "settle r s = (Inr v, s') \<Longrightarrow> prov_lookup prov (Key r) s' = Inr v"
  using charged [of r s v s'] by (auto simp: settle_def split: sum.splits)

text \<open>The provider's state after a dispatch is the one settling leaves, whatever becomes of the
  database work that follows.\<close>

lemma Dispatch_state:
  assumes "dispatch_read pay E w = (Inr (Some req), w0)"
  shows "fst (snd (Dispatch (Some prov) pay E (s, w))) = snd (settle req s)"
  using assms by (auto simp: Dispatch_def settle_def split: sum.splits prod.splits)

end

text \<open>C8. The same payment dispatched again charges nothing: once a dispatch has reached the
  provider, however its own database work ended (the ambiguous timeout), a later dispatch with the
  same provider key leaves the provider exactly as it was, even when its context is cancelled and
  whatever was charged or refunded in between.\<close>

theorem dispatch_charges_once:
  assumes "dispatch_read pay E w = (Inr (Some req), w0)"
    and "Dispatch (Some (FakeProvider None)) pay E (s, w) = (r, s1, w1)"
    and "map_of (results s1) \<subseteq>\<^sub>m map_of (results s2)"
    and "dispatch_read pay E' w2 = (Inr (Some req'), w3)" and "Key req' = Key req"
    and "Dispatch (Some (FakeProvider ctx)) pay E' (s2, w2) = (r', s3, w4)"
  shows "s3 = s2"
proof -
  have "fst (fake.settle None req s) \<noteq> Inl e" for e
    unfolding fake.settle_def
    by (auto simp: FakeProvider_def fake_Charge_def fake_Lookup_def Let_def split: option.splits)
  with fake.Dispatch_state [OF assms(1), of None s] assms(2) obtain v where "fake.settle None req s = (Inr v, s1)"
    by (cases "fake.settle None req s"; cases "fst (fake.settle None req s)") auto
  from fake.settled_known [OF this] have "map_of (results s1) (Key req) = Some v"
    by (simp add: FakeProvider_def fake_Lookup_def split: option.splits)
  with assms(3,5) have known: "map_of (results s2) (Key req') = Some v"
    by (auto simp: map_le_def dom_def)
  have "snd (fake.settle ctx req' s2) = s2"
    using known unfolding fake.settle_def
    by (cases ctx) (simp_all add: FakeProvider_def fake_Charge_def fake_Lookup_def)
  with fake.Dispatch_state [OF assms(4), of ctx s2] assms(6) show ?thesis by simp
qed

definition demo_request :: pay_request where
  "demo_request = \<lparr>Key = demo_text 63, PaymentID = demo_text 61, Currency = ''EGP'', AmountMinor = 5000\<rparr>"

lemma demo_dispatch_facts:
  "case dispatch_read (demo_text 61) demo_env (demo_world (demo_paying (1900 * second))) of (r, w) \<Rightarrow> r = Inr (Some demo_request)"
  by code_simp

theorem dispatch_charges_once_witness:
  "\<exists>s1. fst (snd (Dispatch (Some (FakeProvider None)) (demo_text 61) demo_env
       (\<lparr>results = [], Calls = 0\<rparr>, demo_world (demo_paying (1900 * second))))) = s1 \<and>
     fst (snd (Dispatch (Some (FakeProvider (Some ErrNoRows))) (demo_text 61) demo_env
       (s1, demo_world (demo_paying (1900 * second))))) = s1"
proof -
  let ?w = "demo_world (demo_paying (1900 * second))"
  obtain w0 where r: "dispatch_read (demo_text 61) demo_env ?w = (Inr (Some demo_request), w0)"
    using demo_dispatch_facts by (auto split: prod.splits)
  obtain x s1 w1 where d: "Dispatch (Some (FakeProvider None)) (demo_text 61) demo_env (\<lparr>results = [], Calls = 0\<rparr>, ?w) = (x, s1, w1)"
    by (cases "Dispatch (Some (FakeProvider None)) (demo_text 61) demo_env (\<lparr>results = [], Calls = 0\<rparr>, ?w)") auto
  obtain y s3 w3 where d': "Dispatch (Some (FakeProvider (Some ErrNoRows))) (demo_text 61) demo_env (s1, ?w) = (y, s3, w3)"
    by (cases "Dispatch (Some (FakeProvider (Some ErrNoRows))) (demo_text 61) demo_env (s1, ?w)") auto
  from dispatch_charges_once [OF r d map_le_refl r refl d'] d d' show ?thesis by simp
qed

subsection \<open>Starting a payment\<close>

lemma only_payment:
  assumes "ledger_ok d" and "p \<in> set (payments d)" and "q \<in> set (payments d)" and "p_booking q = p_booking p"
  shows "q = p"
  using assms ledger_keys [OF assms(1)] by (auto simp: keys_ok_def intro: distinct_map_same)

text \<open>C27. A start that wrote gives the owner the booking's one payment and leaves the booking in
  PAYMENT_PENDING: either the payment that was already there, or, for a HELD booking whose hold
  was live and whose segments all had a live hold for every passenger, a new PENDING payment of
  exactly the booking's total with one new attempt.\<close>

theorem start_effect:
  assumes run: "Start user bid key E w = (Inr p, w')" and new: "db w' \<noteq> db w" and old: "ledger_ok (db w)"
  shows "\<exists>r q. owned_booking (uuid_of E bid) (uuid_of E user) (db w) = Some r \<and>
    q \<in> set (payments (db w')) \<and> p_booking q = uuid_of E bid \<and> p = payment_of E q \<and>
    (\<forall>q' \<in> set (payments (db w')). p_booking q' = uuid_of E bid \<longrightarrow> q' = q) \<and>
    bstat (db w') (uuid_of E bid) = Some B_PAYMENT_PENDING \<and> seats (db w') = seats (db w) \<and>
    (b_status r = B_PAYMENT_PENDING \<and> payments (db w') = payments (db w) \<and> attempts (db w') = attempts (db w) \<or>
     b_status r = B_HELD \<and> (\<exists>n. hold_live (clock E n) r \<and> booking_complete (uuid_of E bid) (clock E (Suc n)) (db w)) \<and>
       p_amount q = b_total r \<and> p_currency q = b_currency r \<and> p_status q = P_PENDING \<and>
       payments (db w') = payments (db w) @ [q] \<and>
       (\<exists>a. attempts (db w') = attempts (db w) @ [a] \<and> pa_payment a = p_id q))"
proof -
  let ?b = "uuid_of E bid"
  have ok: "ledger_ok (db w')" using keepsD [OF keeps_ledger_Start run old] .
  from run [unfolded Start_def] show ?thesis
  proof (cases rule: start_call.success)
    case (replayed r)
    with new show ?thesis by simp
  next
    case (fresh rec w1 w2)
    from start_work_Inr [OF fresh(5)] show ?thesis
    proof (elim disjE exE conjE)
      fix r q
      assume r: "owned_booking ?b (uuid_of E user) (db w1) = Some r" "b_status r = B_PAYMENT_PENDING"
        and q: "q \<in> set (payments (db w1))" "p_booking q = ?b" "Commit (Inr p) = Commit (Inr (payment_of E q))"
        and d: "db w2 = (db w1)\<lparr>idem_records := idem_records (db w1) @ [\<lparr>ir_user = uuid_of E (rec_user rec), ir_route = rec_route rec,
          ir_key = rec_key rec, ir_hash = rec_hash rec, ir_resource = p_id q, ir_response = payment_json (payment_of E q)\<rparr>]\<rparr>"
      have same: "payments (db w') = payments (db w)" "attempts (db w') = attempts (db w)" "seats (db w') = seats (db w)"
        "bookings (db w') = bookings (db w)"
        by (simp_all add: fresh(8) [symmetric] d fresh(6))
      have "bstat (db w') ?b = Some B_PAYMENT_PENDING"
        using owned_stat [OF old, of ?b "uuid_of E user" r] r same(4) by (simp add: bstat_def fresh(6))
      moreover have q': "q \<in> set (payments (db w))" using q(1) by (simp add: fresh(6))
      moreover have "\<forall>q' \<in> set (payments (db w)). p_booking q' = ?b \<longrightarrow> q' = q"
        using only_payment [OF old q'] q(2) by simp
      moreover have "p = payment_of E q" using q(3) by simp
      moreover have "owned_booking ?b (uuid_of E user) (db w) = Some r" using r(1) by (simp add: fresh(6))
      ultimately show ?thesis
        unfolding same using r(2) q(2) by blast
    next
      fix r w3 n
      assume r: "owned_booking ?b (uuid_of E user) (db w1) = Some r" "b_status r = B_HELD" "hold_live (clock E n) r"
          "booking_complete ?b (clock E (Suc n)) (db w1)" "db w3 = db w1"
        and s: "start_new ?b (b_total r) (b_currency r) rec E w3 = (Inr (Commit (Inr p)), w2)"
      from start_new_Inr [OF s] obtain pid where n: "p = \<lparr>pay_id = uuid_text E pid, pay_status = ''PENDING'',
          pay_currency = b_currency r, pay_amount = b_total r\<rparr>" "?b \<notin> p_booking ` set (payments (db w3))"
        "payments (db w2) = payments (db w3) @ [\<lparr>p_id = pid, p_booking = ?b, p_amount = b_total r, p_currency = b_currency r,
          p_status = P_PENDING, p_reference = None, p_version = 1\<rparr>]"
        "bookings (db w2) = update_where (\<lambda>r. b_id r \<in> {?b})
          (\<lambda>r. r\<lparr>b_status := B_PAYMENT_PENDING, b_version := b_version r + 1\<rparr>) (bookings (db w3))"
        "seats (db w2) = seats (db w3)" "\<exists>a. attempts (db w2) = attempts (db w3) @ [a] \<and> pa_payment a = pid"
        by auto
      let ?q = "\<lparr>p_id = pid, p_booking = ?b, p_amount = b_total r, p_currency = b_currency r,
          p_status = P_PENDING, p_reference = None, p_version = 1\<rparr>"
      have "bstat (db w2) ?b = Some B_PAYMENT_PENDING"
        using bstat_update [OF n(4), where st = B_PAYMENT_PENDING and b = ?b]
          owned_stat [OF old, of ?b "uuid_of E user" r] r fresh(6) by simp
      moreover have "\<forall>q' \<in> set (payments (db w2)). p_booking q' = ?b \<longrightarrow> q' = ?q" using n(2,3) by (auto simp: image_iff)
      moreover have "p = payment_of E ?q" using n(1) by (simp add: payment_of_def)
      moreover have "?q \<in> set (payments (db w2))" "p_booking ?q = ?b" "p_amount ?q = b_total r"
        "p_currency ?q = b_currency r" "p_status ?q = P_PENDING" using n(3) by simp_all
      moreover have "payments (db w2) = payments (db w) @ [?q]" "seats (db w2) = seats (db w)"
        "\<exists>a. attempts (db w2) = attempts (db w) @ [a] \<and> pa_payment a = p_id ?q"
        using n(3,5,6) r(5) by (simp_all add: fresh(6))
      ultimately show ?thesis
        using r(1-4) unfolding fresh(6,8) by blast
    qed
  qed
qed

lemma demo_start_facts:
  "case Start (demo_text 1) (demo_text 2) ''0123456789abcdef'' demo_env (demo_world (demo_held B_HELD (1900 * second)))
   of (r, w) \<Rightarrow> map_sum id pay_amount r = Inr 5000 \<and> payments (db w) \<noteq> []"
  by code_simp

definition demo_started :: "payment \<times> database world" where
  "demo_started = (case Start (demo_text 1) (demo_text 2) ''0123456789abcdef'' demo_env
     (demo_world (demo_held B_HELD (1900 * second))) of (r, w) \<Rightarrow> (projr r, w))"

lemma demo_start_run:
  "Start (demo_text 1) (demo_text 2) ''0123456789abcdef'' demo_env (demo_world (demo_held B_HELD (1900 * second)))
     = (Inr (fst demo_started), snd demo_started)"
  using demo_start_facts
  by (cases "fst (Start (demo_text 1) (demo_text 2) ''0123456789abcdef'' demo_env (demo_world (demo_held B_HELD (1900 * second))))")
    (auto simp: demo_started_def split: prod.splits)

lemma demo_start_new: "payments (db (snd demo_started)) \<noteq> []"
  using demo_start_facts by (auto simp: demo_started_def split: prod.splits)

theorem start_effect_witness:
  "bstat (db (snd demo_started)) 2 = Some B_PAYMENT_PENDING \<and> (\<exists>q. payments (db (snd demo_started)) = [q] \<and> p_amount q = 5000)"
proof -
  have d: "payments (demo_held B_HELD (1900 * second)) = []" by (simp add: demo_rows)
  then have "db (snd demo_started) \<noteq> db (demo_world (demo_held B_HELD (1900 * second)))"
    using demo_start_new by (auto simp: demo_world_def)
  moreover have "uuid_of demo_env (demo_text 2) = 2" "uuid_of demo_env (demo_text 1) = 1" by code_simp+
  moreover have "owned_booking 2 1 (demo_held B_HELD (1900 * second)) = Some (demo_held_booking B_HELD (1900 * second))"
    by (simp add: owned_booking_def demo_rows)
  ultimately show ?thesis
    using start_effect [OF demo_start_run] demo_held_ledger [of "1900 * second"] d
    by (auto simp: demo_world_def demo_held_booking_def demo_booking_def)
qed

text \<open>A retried start, at any later time, returns the first payment and writes nothing: a
  second attempt, and so a second provider key, never comes from a retry.\<close>

theorem start_retry:
  assumes "Start user bid key E w = (Inr p, w')" and "idem_extends (db w') (db v)" and "\<And>n. fault E n = None"
  shows "\<exists>v'. Start user bid key E v = (Inr p, v') \<and> db v' = db v"
  using start_call.retry [OF assms(1) [unfolded Start_def] assms(2,3)] by (simp add: Start_def)

theorem start_retry_witness:
  "\<exists>v'. Start (demo_text 1) (demo_text 2) ''0123456789abcdef'' demo_env (snd demo_started) =
     (Inr (fst demo_started), v') \<and> db v' = db (snd demo_started)"
  by (rule start_retry [OF demo_start_run]) simp_all

subsection \<open>Results of the provider\<close>

text \<open>What became of a payment that a success reached.\<close>

definition paid_up :: "payment_row \<Rightarrow> string \<Rightarrow> database \<Rightarrow> database \<Rightarrow> bool" where
  "paid_up p reference d d' \<longleftrightarrow>
     bstat d' (p_booking p) = Some B_CONFIRMED \<and>
     (\<exists>s \<in> set (seats d). fs_booking s = Some (p_booking p) \<and> fs_state s = SEAT_HELD) \<and>
     (\<forall>s \<in> set (seats d). fs_booking s = Some (p_booking p) \<and> fs_state s = SEAT_HELD \<longrightarrow> book_seat s \<in> set (seats d')) \<and>
     (\<exists>p' \<in> set (payments d'). p_id p' = p_id p \<and> p_amount p' = p_amount p \<and> p_status p' = P_SUCCEEDED \<and>
        p_reference p' = Some reference)"

definition sent_back :: "payment_row \<Rightarrow> string \<Rightarrow> database \<Rightarrow> database \<Rightarrow> bool" where
  "sent_back p reference d d' \<longleftrightarrow>
     seats d' = seats d \<and> bookings d' = bookings d \<and>
     (\<exists>f \<in> set (refunds d'). rf_payment f = p_id p \<and> rf_amount f = p_amount p) \<and>
     (\<exists>p' \<in> set (payments d'). p_id p' = p_id p \<and> p_amount p' = p_amount p \<and> p_status p' = P_REFUND_PENDING \<and>
        p_reference p' = Some reference)"

lemma apply_late_sends_back:
  assumes run: "apply_late (p_id p) reference (p_amount p) E w = (Inr x, w')" and p: "p \<in> set (payments (db w))"
    and none: "\<And>f. f \<in> set (refunds (db w)) \<Longrightarrow> rf_payment f \<noteq> p_id p"
    and fresh: "\<And>n. gen_uuid E n 0 \<notin> rf_id ` set (refunds (db w))"
  shows "sent_back p reference (db w) (db w')"
proof -
  note r = apply_late_Inr [OF run]
  have "refunds (db w') \<noteq> refunds (db w)"
  proof
    assume "refunds (db w') = refunds (db w)"
    with r have "p_id p \<in> rf_payment ` set (refunds (db w)) \<or> (\<exists>n. gen_uuid E n 0 \<in> rf_id ` set (refunds (db w)))" by simp
    with fresh have "p_id p \<in> rf_payment ` set (refunds (db w))" by simp
    with none show False by force
  qed
  with r have "\<exists>new. refunds (db w') = refunds (db w) @ [\<lparr>rf_id = new, rf_payment = p_id p, rf_amount = p_amount p, rf_status = R_PENDING\<rparr>]"
    by blast
  then have "\<exists>f \<in> set (refunds (db w')). rf_payment f = p_id p \<and> rf_amount f = p_amount p" by auto
  moreover have "p\<lparr>p_status := P_REFUND_PENDING, p_reference := Some reference, p_version := p_version p + 1\<rparr> \<in> set (payments (db w'))"
    using updated_payment [OF p, where f = "\<lambda>p. p\<lparr>p_status := P_REFUND_PENDING, p_reference := Some reference, p_version := p_version p + 1\<rparr>"] r
    by blast
  then have "\<exists>p' \<in> set (payments (db w')). p_id p' = p_id p \<and> p_amount p' = p_amount p \<and> p_status p' = P_REFUND_PENDING \<and>
        p_reference p' = Some reference"
    by (rule bexI [rotated]) simp
  ultimately show ?thesis using r by (simp add: sent_back_def)
qed

lemma confirmed_pays_up:
  assumes c: "confirmed (p_booking p) (p_id p) reference d d'" and p: "p \<in> set (payments d)"
    and st: "bstat d (p_booking p) = Some B_PAYMENT_PENDING"
    and some: "count_where (\<lambda>s. fs_booking s = Some (p_booking p) \<and> fs_state s = SEAT_HELD) (seats d) \<noteq> 0"
  shows "paid_up p reference d d'"
proof -
  have bk: "bookings d' = update_where (\<lambda>r. b_id r \<in> {p_booking p})
      (\<lambda>r. r\<lparr>b_status := B_CONFIRMED, b_hold := None, b_version := b_version r + 1\<rparr>) (bookings d)"
    using c by (simp add: confirmed_def)
  have "bstat d' (p_booking p) = Some B_CONFIRMED"
    using bstat_update [OF bk, where st = B_CONFIRMED and b = "p_booking p"] st by simp
  moreover have "\<exists>s \<in> set (seats d). fs_booking s = Some (p_booking p) \<and> fs_state s = SEAT_HELD"
    using some by (auto simp: count_where_0_iff)
  moreover have "\<forall>s \<in> set (seats d). fs_booking s = Some (p_booking p) \<and> fs_state s = SEAT_HELD \<longrightarrow> book_seat s \<in> set (seats d')"
    using c by (simp add: confirmed_def in_update_where)
  moreover have "p\<lparr>p_status := P_SUCCEEDED, p_reference := Some reference, p_version := p_version p + 1\<rparr> \<in> set (payments d')"
    using updated_payment [OF p, where f = "\<lambda>p. p\<lparr>p_status := P_SUCCEEDED, p_reference := Some reference, p_version := p_version p + 1\<rparr>"] c
    unfolding confirmed_def by blast
  then have "\<exists>p' \<in> set (payments d'). p_id p' = p_id p \<and> p_amount p' = p_amount p \<and> p_status p' = P_SUCCEEDED \<and>
        p_reference p' = Some reference"
    by (rule bexI [rotated]) simp
  ultimately show ?thesis by (simp add: paid_up_def)
qed

text \<open>C6. A success that the store takes settles the payment, so no charge is lost: either it was
  settled before and nothing but the event is recorded; or the booking is CONFIRMED, its payment
  SUCCEEDED with the provider's reference, and every seat it held (at least one) is BOOKED; or,
  when the hold was gone, the payment is on its way back, with a refund of exactly its amount, and
  no seat and no booking changes.\<close>

theorem apply_success_settles:
  assumes run: "Apply provider event pay result E w = (Inr u, w')" and old: "ledger_ok (db w)"
    and status: "Status result = ''SUCCEEDED''" and new: "\<not> webhook_known provider event (db w)"
    and fresh: "\<And>n. gen_uuid E n 0 \<notin> rf_id ` set (refunds (db w))"
  shows "\<exists>p \<in> set (payments (db w)). p_id p = uuid_of E pay \<and>
    (if settled (p_status p)
     then payments (db w') = payments (db w) \<and> seats (db w') = seats (db w) \<and> bookings (db w') = bookings (db w)
     else paid_up p (Reference result) (db w) (db w') \<or> sent_back p (Reference result) (db w) (db w'))"
proof -
  from Apply_Inr [OF run old] obtain v1 v2 where body: "apply_body provider event pay result E v1 = (Inr (Commit (Inr ())), v2)"
    and v: "db v1 = db w" "db v2 = db w'" by blast
  have old1: "ledger_ok (db v1)" using old v by simp
  from body old1 show ?thesis
  proof (cases rule: apply_body_Inr)
    case duplicate
    with new v show ?thesis by simp
  next
    case (recorded p h)
    then show ?thesis using v by (intro bexI [of _ p]) auto
  next
    case (failed p h w1)
    with status show ?thesis by simp
  next
    case (succeeded p h w1 bst)
    note u = unsettled_facts [OF old1 succeeded(1,3)]
    have f1: "payments (db w1) = payments (db w)" "refunds (db w1) = refunds (db w)" "seats (db w1) = seats (db w)"
      "bookings (db w1) = bookings (db w)" using succeeded(5) v by simp_all
    from succeeded(8) have "paid_up p (Reference result) (db w1) (db w') \<or> sent_back p (Reference result) (db w1) (db w')"
    proof (cases rule: apply_succeeded_Inr)
      case (late w2 r n)
      have "sent_back p (Reference result) (db w2) (db v2)"
        by (rule apply_late_sends_back [of p _ E w2]) (use late succeeded(1,2) u(2) f1 v fresh in auto)
      with late(1) v show ?thesis by simp
    next
      case (confirm w2 r n)
      have "paid_up p (Reference result) (db w2) (db v2)"
        by (rule confirmed_pays_up)
          (use apply_confirm_Inr [OF confirm(8)] confirm(1,3,6) succeeded(1,2,5,6) v f1 in \<open>simp_all add: bstat_def\<close>)
      with confirm(1) v show ?thesis by simp
    qed
    then have "paid_up p (Reference result) (db w) (db w') \<or> sent_back p (Reference result) (db w) (db w')"
      using f1 by (simp add: paid_up_def sent_back_def)
    with succeeded(1-3) v show ?thesis by (intro bexI [of _ p]) auto
  qed
qed

definition demo_result :: pay_result where
  "demo_result = \<lparr>Reference = ''ref'', Status = ''SUCCEEDED''\<rparr>"

lemma demo_apply_facts:
  "case Apply ''fake'' ''e1'' (demo_text 61) demo_result demo_env (demo_world (demo_paying (1900 * second))) of (r, w) \<Rightarrow> r = Inr ()"
  by code_simp

definition demo_applied :: "database world" where
  "demo_applied = snd (Apply ''fake'' ''e1'' (demo_text 61) demo_result demo_env (demo_world (demo_paying (1900 * second))))"

lemma demo_apply_run:
  "Apply ''fake'' ''e1'' (demo_text 61) demo_result demo_env (demo_world (demo_paying (1900 * second))) = (Inr (), demo_applied)"
  using demo_apply_facts by (auto simp: demo_applied_def split: prod.splits)

theorem apply_success_settles_witness:
  "paid_up (demo_payment P_PENDING) ''ref'' (demo_paying (1900 * second)) (db demo_applied) \<or>
   sent_back (demo_payment P_PENDING) ''ref'' (demo_paying (1900 * second)) (db demo_applied)"
proof -
  have d: "db (demo_world (demo_paying (1900 * second))) = demo_paying (1900 * second)" by (simp add: demo_world_def)
  have "webhooks (demo_paying (1900 * second)) = []" "refunds (demo_paying (1900 * second)) = []"
    "payments (demo_paying (1900 * second)) = [demo_payment P_PENDING]"
    by (simp_all add: demo_paying_def demo_rows)
  then show ?thesis
    using apply_success_settles [OF demo_apply_run] demo_paying_ledger [of "1900 * second"] unfolding d
    by (simp add: demo_result_def webhook_known_def settled_def demo_payment_def)
qed

text \<open>C7. An event takes effect once: after an event was taken, delivering it again, at any later
  time and with whatever content, leaves the database as it is.\<close>

theorem apply_once:
  assumes run: "Apply provider event pay result E w = (Inr u, w')" and old: "ledger_ok (db w)"
    and later: "set (webhooks (db w')) \<subseteq> set (webhooks (db v))" and ok: "ledger_ok (db v)"
  shows "db (snd (Apply provider event pay' result' E' v)) = db v"
proof -
  from Apply_Inr [OF run old] obtain v1 v2 where body: "apply_body provider event pay result E v1 = (Inr (Commit (Inr ())), v2)"
    and v: "db v1 = db w" "db v2 = db w'" by blast
  have "ledger_ok (db v1)" using old v(1) by simp
  from apply_body_records [OF body this] v(2) later have known: "webhook_known provider event (db v)"
    by (auto simp: webhook_known_def list_ex_iff)
  obtain r v' where r: "Apply provider event pay' result' E' v = (r, v')" by (cases "Apply provider event pay' result' E' v")
  show ?thesis
  proof (cases r)
    case (Inl e)
    with r Apply_failed [of provider event pay' result' E' v e v'] ok show ?thesis by simp
  next
    case (Inr x)
    with r Apply_Inr [of provider event pay' result' E' v x v'] ok obtain w1 w2 where
      b: "apply_body provider event pay' result' E' w1 = (Inr (Commit (Inr ())), w2)" "db w1 = db v" "db w2 = db v'" by blast
    with apply_body_known [OF b(1)] known ok r show ?thesis by simp
  qed
qed

theorem apply_once_witness:
  "db (snd (Apply ''fake'' ''e1'' (demo_text 61) \<lparr>Reference = ''x'', Status = ''FAILED''\<rparr> demo_env demo_applied)) = db demo_applied"
proof (rule apply_once [OF demo_apply_run _ subset_refl])
  show "ledger_ok (db (demo_world (demo_paying (1900 * second))))" using demo_paying_ledger by (simp add: demo_world_def)
  then show "ledger_ok (db demo_applied)" using keepsD [OF keeps_ledger_Apply demo_apply_run] by blast
qed

end
