(* ===== verification/RefundProps.thy ===== *)
theory RefundProps
  imports DemoLedger
begin

text \<open>
  The properties of refunds: what a refund request gives back and frees, that errors of payments
  and refunds write nothing, and how the dispatch of a refund ends.
\<close>

subsection \<open>Errors\<close>

text \<open>A payment or refund operation that returns an error has written nothing: no payment
  without its attempt, no confirmed seat without its payment, no freed seat without its refund.\<close>

theorem payment_error_writes_nothing:
  assumes "ledger_ok (db w)"
  shows "(Start user bid key E w = (Inl e, w1) \<longrightarrow> db w1 = db w) \<and>
    (Apply provider event pay result E w = (Inl e, w2) \<longrightarrow> db w2 = db w) \<and>
    (RequestRefund user bid key E w = (Inl e, w3) \<longrightarrow> db w3 = db w)"
proof (intro conjI impI)
  assume "Start user bid key E w = (Inl e, w1)"
  then show "db w1 = db w" unfolding Start_def by (rule guarded_idem_failed) (rule start_work_commits)
next
  assume "Apply provider event pay result E w = (Inl e, w2)"
  then show "db w2 = db w" using assms by (rule Apply_failed)
next
  assume "RequestRefund user bid key E w = (Inl e, w3)"
  then show "db w3 = db w" unfolding RequestRefund_def by (rule guarded_idem_failed) (rule refund_work_commits)
qed

text \<open>An event for a booking whose seats do not carry its expiry: the confirmation is refused.\<close>

definition demo_split :: database where
  "demo_split = (demo_paying (1900 * second))\<lparr>
     bookings := [demo_held_booking B_PAYMENT_PENDING (1700 * second), demo_booking 22 21 42 ''BBBBBBBB'']\<rparr>"

lemma demo_split_ledger: "ledger_ok demo_split"
proof -
  have "inventory_ok demo_split"
    using demo_held_inventory [of B_PAYMENT_PENDING "1900 * second"]
    by (simp add: demo_split_def demo_paying_def inventory_ok_def)
  then show ?thesis
    by (simp add: ledger_ok_def)
      (auto simp: demo_split_def demo_paying_def demo_payment_def demo_rows keys_ok_def seat_status_ok_def payment_ok_def
        confirmed_paid_def bstat_def)
qed

lemma demo_split_facts:
  "case Apply ''fake'' ''e1'' (demo_text 61) \<lparr>Reference = ''ref'', Status = ''SUCCEEDED''\<rparr> demo_env (demo_world demo_split)
   of (r, w) \<Rightarrow> r = Inl ErrInventoryConflict"
  by code_simp

theorem payment_error_writes_nothing_witness:
  "\<exists>w'. Apply ''fake'' ''e1'' (demo_text 61) \<lparr>Reference = ''ref'', Status = ''SUCCEEDED''\<rparr> demo_env (demo_world demo_split)
     = (Inl ErrInventoryConflict, w') \<and> db w' = demo_split"
proof -
  have "ledger_ok (db (demo_world demo_split))" using demo_split_ledger by (simp add: demo_world_def)
  from payment_error_writes_nothing [OF this] demo_split_facts show ?thesis
    by (auto simp: demo_world_def split: prod.splits)
qed

subsection \<open>Requesting a refund\<close>

text \<open>C29. A refund request that wrote was the owner's, for a CONFIRMED or TICKETED booking all of
  whose segments were refundable and still to depart; it cancelled the booking, moved its payment
  to REFUND_PENDING with one refund of exactly the paid amount, and freed every seat the booking
  had, touching no seat of another booking.\<close>

theorem refund_effect:
  assumes run: "RequestRefund user bid key E w = (Inr x, w')" and new: "db w' \<noteq> db w" and old: "ledger_ok (db w)"
  shows "\<exists>r p f n. owned_booking (uuid_of E bid) (uuid_of E user) (db w) = Some r \<and>
    (b_status r = B_CONFIRMED \<or> b_status r = B_TICKETED) \<and> booking_refundable (uuid_of E bid) (clock E n) (db w) \<and>
    bstat (db w') (uuid_of E bid) = Some B_CANCELLED \<and>
    p \<in> set (payments (db w)) \<and> p_booking p = uuid_of E bid \<and> p_status p = P_SUCCEEDED \<and>
    p\<lparr>p_status := P_REFUND_PENDING, p_version := p_version p + 1\<rparr> \<in> set (payments (db w')) \<and>
    refunds (db w') = refunds (db w) @ [f] \<and> rf_payment f = p_id p \<and> rf_amount f = p_amount p \<and>
    (\<forall>s \<in> set (seats (db w')). fs_booking s \<noteq> Some (uuid_of E bid)) \<and>
    (\<forall>s \<in> set (seats (db w)). fs_booking s = Some (uuid_of E bid) \<longrightarrow> free_seat s \<in> set (seats (db w'))) \<and>
    (\<forall>s \<in> set (seats (db w)). fs_booking s \<noteq> Some (uuid_of E bid) \<longrightarrow> s \<in> set (seats (db w')))"
proof -
  let ?b = "uuid_of E bid"
  from run [unfolded RequestRefund_def] show ?thesis
  proof (cases rule: refund_call.success)
    case (replayed r)
    with new show ?thesis by simp
  next
    case (fresh rec w1 w2)
    from refund_work_Inr [OF fresh(5)] obtain r p v n where r: "owned_booking ?b (uuid_of E user) (db w) = Some r"
      "b_status r = B_CONFIRMED \<or> b_status r = B_TICKETED" "booking_refundable ?b (clock E n) (db w)"
      and p: "p \<in> set (payments (db w))" "p_booking p = ?b" "p_status p = P_SUCCEEDED" and v: "db v = db w"
      and fin: "refund_finish ?b (p_id p) (p_amount p) rec E v = (Inr (Commit (Inr x)), w2)"
      unfolding fresh(6) by blast
    from refund_finish_Inr [OF fin] have c: "cancelled_paid ?b (p_id p) (p_amount p) (db w) (db w')"
      unfolding v fresh(8) by blast
    have seat: "fs_state s = BOOKED" if s: "s \<in> set (seats (db w))" "fs_booking s = Some ?b" for s
    proof -
      have "seat_check s" using inventory_seat_check [OF ledger_inventory [OF old] s(1)] .
      moreover have "fs_state s \<noteq> SEAT_HELD"
        using ledger_seat [OF old s(1)] owned_stat [OF old r(1)] r(2) s(2) by (auto simp: seat_status_ok_def)
      ultimately show ?thesis using s(2) by (cases "fs_state s") (auto simp: seat_check_def)
    qed
    have bk: "bookings (db w') = update_where (\<lambda>r. b_id r \<in> {?b}) (\<lambda>r. r\<lparr>b_status := B_CANCELLED, b_version := b_version r + 1\<rparr>) (bookings (db w))"
      using c by (simp add: cancelled_paid_def)
    have "bstat (db w') ?b = Some B_CANCELLED"
      using bstat_update [OF bk, where st = B_CANCELLED and b = ?b] owned_stat [OF old r(1)] by simp
    moreover have "p\<lparr>p_status := P_REFUND_PENDING, p_version := p_version p + 1\<rparr> \<in> set (payments (db w'))"
      using updated_payment [OF p(1), where f = "\<lambda>p. p\<lparr>p_status := P_REFUND_PENDING, p_version := p_version p + 1\<rparr>"] c
      unfolding cancelled_paid_def by blast
    moreover from c obtain f where "refunds (db w') = refunds (db w) @ [f]" "rf_payment f = p_id p" "rf_amount f = p_amount p"
      by (auto simp: cancelled_paid_def)
    moreover have st: "seats (db w') = update_where (\<lambda>s. fs_booking s = Some ?b \<and> fs_state s = BOOKED) free_seat (seats (db w))"
      using c by (simp add: cancelled_paid_def)
    have "\<forall>s \<in> set (seats (db w')). fs_booking s \<noteq> Some ?b"
      unfolding st using seat by (auto simp: set_update_where free_seat_def)
    moreover have "\<forall>s \<in> set (seats (db w)). fs_booking s = Some ?b \<longrightarrow> free_seat s \<in> set (seats (db w'))"
      unfolding st using seat by (simp add: in_update_where)
    moreover have "\<forall>s \<in> set (seats (db w)). fs_booking s \<noteq> Some ?b \<longrightarrow> s \<in> set (seats (db w'))"
      unfolding st by (simp add: in_update_where_same)
    ultimately show ?thesis using r p by blast
  qed
qed

lemma demo_refund_facts:
  "case RequestRefund (demo_text 1) (demo_text 2) ''0123456789abcdef'' demo_env (demo_world demo_paid) of (r, w) \<Rightarrow>
     isl r = False \<and> refunds (db w) \<noteq> []"
  by code_simp

definition demo_refunded :: "string \<times> database world" where
  "demo_refunded = (case RequestRefund (demo_text 1) (demo_text 2) ''0123456789abcdef'' demo_env (demo_world demo_paid) of (r, w) \<Rightarrow> (projr r, w))"

lemma demo_refund_run:
  "RequestRefund (demo_text 1) (demo_text 2) ''0123456789abcdef'' demo_env (demo_world demo_paid)
     = (Inr (fst demo_refunded), snd demo_refunded)"
  and demo_refund_new: "db (snd demo_refunded) \<noteq> demo_paid"
proof -
  show "RequestRefund (demo_text 1) (demo_text 2) ''0123456789abcdef'' demo_env (demo_world demo_paid)
     = (Inr (fst demo_refunded), snd demo_refunded)"
    using demo_refund_facts by (auto simp: demo_refunded_def split: prod.splits)
  have "refunds (db (snd demo_refunded)) \<noteq> []"
    using demo_refund_facts by (auto simp: demo_refunded_def split: prod.splits)
  then show "db (snd demo_refunded) \<noteq> demo_paid" by (auto simp: demo_paid_def demo_paying_def demo_rows)
qed

theorem refund_effect_witness:
  "\<exists>f. refunds (db (snd demo_refunded)) = [f] \<and> rf_payment f = 61 \<and> rf_amount f = 5000"
proof -
  have "db (snd demo_refunded) \<noteq> db (demo_world demo_paid)" "ledger_ok (db (demo_world demo_paid))"
    using demo_refund_new demo_paid_ledger by (simp_all add: demo_world_def)
  from refund_effect [OF demo_refund_run this] show ?thesis
    by (auto simp: demo_world_def demo_paid_def demo_payment_def demo_paying_def demo_rows)
qed

text \<open>A retried refund request returns the refund of the first one and writes nothing.\<close>

theorem refund_retry:
  assumes "RequestRefund user bid key E w = (Inr x, w')" and "idem_extends (db w') (db v)" and "\<And>n. fault E n = None"
  shows "\<exists>v'. RequestRefund user bid key E v = (Inr x, v') \<and> db v' = db v"
  using refund_call.retry [OF assms(1) [unfolded RequestRefund_def] assms(2,3)] by (simp add: RequestRefund_def)

theorem refund_retry_witness:
  "\<exists>v'. RequestRefund (demo_text 1) (demo_text 2) ''0123456789abcdef'' demo_env (snd demo_refunded) =
     (Inr (fst demo_refunded), v') \<and> db v' = db (snd demo_refunded)"
  by (rule refund_retry [OF demo_refund_run]) simp_all

subsection \<open>Dispatching a refund\<close>

lemma refund_read_Some:
  assumes "refund_read pay E w = (Inr q, w1)" and "ledger_ok (db w)"
  shows "db w1 = db w \<and> (\<exists>p f. p \<in> set (payments (db w)) \<and> p_id p = uuid_of E pay \<and> f \<in> set (refunds (db w)) \<and>
    rf_payment f = p_id p \<and> rf_amount f = p_amount p \<and>
    q = (if rf_status f = R_SUCCEEDED then None
         else Some \<lparr>Key = uuid_text E (rf_id f), PaymentID = pay, Currency = p_currency p, AmountMinor = p_amount p\<rparr>))"
proof -
  from assms(1) obtain row where row: "refund_row_of (uuid_of E pay) (db w) = Some row" and w1: "db w1 = db w"
    and q: "q = (if snd (snd (snd row)) = R_SUCCEEDED then None
         else Some \<lparr>Key = uuid_text E (fst row), PaymentID = pay, Currency = fst (snd (snd row)), AmountMinor = fst (snd row)\<rparr>)"
    by (auto simp: refund_read_def andthen_Inr reading_Inr stmt_Inr split: if_splits option.splits)
  from first_row_Some [OF row [unfolded refund_row_of_def]] obtain f p where fp: "f \<in> set (refunds (db w))" "p \<in> set (payments (db w))"
    "p_id p = rf_payment f" "p_id p = uuid_of E pay" "row = (rf_id f, rf_amount f, p_currency p, rf_status f)" by auto
  from ledger_refund [OF assms(2) fp(1)] obtain p1 where p1: "p1 \<in> set (payments (db w))" "p_id p1 = rf_payment f"
    "p_amount p1 = rf_amount f" by (auto simp: refund_ok_def)
  have "p1 = p" using p1 fp ledger_keys [OF assms(2)] by (auto simp: keys_ok_def intro: distinct_map_same)
  with p1 fp q w1 show ?thesis by (intro conjI exI [of _ p] exI [of _ f]) auto
qed

text \<open>C30. A refund dispatch that succeeds has either found the refund settled and done nothing, or
  asked the provider, under the refund's own key, for exactly what the payment took, and the
  payment is REFUNDED: it was already, or it is marked now with its refund, and a CANCELLED
  booking becomes REFUNDED.\<close>

theorem refund_dispatch_settles:
  assumes run: "DispatchRefund (Some prov) pay E (s, w) = (Inr u, s', w')" and old: "ledger_ok (db w)"
  shows "\<exists>p f. p \<in> set (payments (db w)) \<and> p_id p = uuid_of E pay \<and> f \<in> set (refunds (db w)) \<and>
    rf_payment f = p_id p \<and> rf_amount f = p_amount p \<and>
    (rf_status f = R_SUCCEEDED \<and> s' = s \<and> db w' = db w \<or>
     (\<exists>v. prov_refund prov \<lparr>Key = uuid_text E (rf_id f), PaymentID = pay, Currency = p_currency p,
          AmountMinor = p_amount p\<rparr> s = (Inr v, s') \<and> Status v = ''SUCCEEDED'') \<and>
     (p_status p = P_REFUNDED \<and> db w' = db w \<or>
      p_status p = P_REFUND_PENDING \<and>
      p\<lparr>p_status := P_REFUNDED, p_version := p_version p + 1\<rparr> \<in> set (payments (db w')) \<and>
      f\<lparr>rf_status := R_SUCCEEDED\<rparr> \<in> set (refunds (db w')) \<and>
      (bstat (db w) (p_booking p) = Some B_CANCELLED \<longrightarrow> bstat (db w') (p_booking p) = Some B_REFUNDED)))"
proof -
  obtain r w1 where read: "refund_read pay E w = (r, w1)" by (cases "refund_read pay E w")
  with run obtain q where q: "r = Inr q" by (cases r) (auto simp: DispatchRefund_def)
  from refund_read_Some [OF read [unfolded q] old] obtain p f where w1: "db w1 = db w"
    and p: "p \<in> set (payments (db w))" "p_id p = uuid_of E pay" and f: "f \<in> set (refunds (db w))" "rf_payment f = p_id p" "rf_amount f = p_amount p"
    and req: "q = (if rf_status f = R_SUCCEEDED then None
         else Some \<lparr>Key = uuid_text E (rf_id f), PaymentID = pay, Currency = p_currency p, AmountMinor = p_amount p\<rparr>)" by blast
  show ?thesis
  proof (cases "rf_status f = R_SUCCEEDED")
    case True
    with run read q req w1 have "s' = s" "db w' = db w" by (auto simp: DispatchRefund_def)
    with p f True show ?thesis by blast
  next
    case False
    with run read q req obtain v where v: "prov_refund prov \<lparr>Key = uuid_text E (rf_id f), PaymentID = pay,
        Currency = p_currency p, AmountMinor = p_amount p\<rparr> s = (Inr v, s')" "Status v = ''SUCCEEDED''"
      and tx: "in_tx (refund_settle pay) E w1 = (Inr u, w')"
      by (auto simp: DispatchRefund_def split: prod.splits sum.splits if_splits)
    from tx [unfolded in_tx_def] have "p_status p = P_REFUNDED \<and> db w' = db w \<or>
      p_status p = P_REFUND_PENDING \<and>
      p\<lparr>p_status := P_REFUNDED, p_version := p_version p + 1\<rparr> \<in> set (payments (db w')) \<and>
      f\<lparr>rf_status := R_SUCCEEDED\<rparr> \<in> set (refunds (db w')) \<and>
      (bstat (db w) (p_booking p) = Some B_CANCELLED \<longrightarrow> bstat (db w') (p_booking p) = Some B_REFUNDED)"
    proof (cases rule: in_tx_with_Inr)
      case (rolled_back w2)
      from refund_settle_Inr [OF rolled_back(2)] old w1 show ?thesis by simp
    next
      case (committed w2)
      let ?w = "w1\<lparr>pc := Suc (pc w1), txn := clock E (pc w1)\<rparr>"
      have same: "db ?w = db w" "db w' = db w2" using w1 committed(4) by simp_all
      have "ledger_ok (db ?w)" using old same by simp
      from settled_refund [OF committed(2) this] p f show ?thesis unfolding same by blast
    qed
    with p f v show ?thesis by blast
  qed
qed

theorem refund_dispatch_settles_witness:
  "\<exists>s' w'. DispatchRefund (Some (FakeProvider None)) (demo_text 61) demo_env (\<lparr>results = [], Calls = 0\<rparr>, demo_world demo_refunding)
     = (Inr (), s', w') \<and> bstat (db w') 2 = Some B_REFUNDED"
proof -
  let ?run = "DispatchRefund (Some (FakeProvider None)) (demo_text 61) demo_env (\<lparr>results = [], Calls = 0\<rparr>, demo_world demo_refunding)"
  have facts: "case ?run of (r, s, w) \<Rightarrow> r = Inr () \<and> Calls s = 1" by code_simp
  then obtain s' w' where run: "?run = (Inr (), s', w')" and calls: "Calls s' = 1" by (cases ?run) auto
  have d: "db (demo_world demo_refunding) = demo_refunding" by (simp add: demo_world_def)
  have "ledger_ok (db (demo_world demo_refunding))" using demo_refunding_ledger d by simp
  from refund_dispatch_settles [OF run this, unfolded d] run calls show ?thesis
    by (auto simp: demo_refunding_def demo_paying_def demo_payment_def demo_rows bstat_def)
qed

end
