(* ===== verification/Quote.thy ===== *)
theory Quote
  imports Schema Encoding "HOL-Library.Signed_Division"
begin

text \<open>
  \<^verbatim>\<open>internal/quote/store.go\<close>: \<open>quote_Create\<close> prices up to four fares for a number of passengers in
  one transaction and keeps the prices as the rows of the quote.  \<^verbatim>\<open>int64\<close> arithmetic wraps; the
  overflow tests of the source are modelled with it.
\<close>

subsection \<open>int64\<close>

definition wrap64 :: "int \<Rightarrow> int" where
  "wrap64 x = (x + 2 ^ 63) mod 2 ^ 64 - 2 ^ 63"

definition MaxInt64 :: int where
  "MaxInt64 = 2 ^ 63 - 1"

lemma wrap64_id: "- (2 ^ 63) \<le> x \<Longrightarrow> x < 2 ^ 63 \<Longrightarrow> wrap64 x = x"
  by (simp add: wrap64_def)

subsection \<open>The request\<close>

record selection =
  FareOfferID :: string
  PassengerCount :: int

record quote =
  q_id :: string
  q_currency :: string
  q_total :: int
  q_expires :: ts

record fare =
  f_id :: string
  f_flight :: string
  f_currency :: string
  f_count :: int
  f_price :: int
  f_taxes :: int
  f_refundable :: bool

text \<open>The loop over the sorted items, which compares each with the previous and the first one.\<close>

fun selections_ok :: "env \<Rightarrow> int \<Rightarrow> selection option \<Rightarrow> selection list \<Rightarrow> bool" where
  "selections_ok E count prev [] = True"
| "selections_ok E count prev (v # vs) =
     (if \<not> validate_UUID E (FareOfferID v) \<or> PassengerCount v < 1 \<or> PassengerCount v > 9 \<or>
         (case prev of None \<Rightarrow> False | Some p \<Rightarrow> FareOfferID p = FareOfferID v \<or> count \<noteq> PassengerCount v)
      then False
      else selections_ok E (if prev = None then PassengerCount v else count) (Some v) vs)"

definition sort_selections :: "selection list \<Rightarrow> selection list" where
  "sort_selections = sort_by (\<lambda>a b. str_less (FareOfferID a) (FareOfferID b))"

subsection \<open>Pricing\<close>

text \<open>An offer that can be sold at time \<open>t\<close>, on a flight that still accepts bookings.\<close>

definition sellable :: "ts \<Rightarrow> fare_offer \<Rightarrow> flight_instance \<Rightarrow> bool" where
  "sellable t fo fi \<longleftrightarrow>
     fo_active fo \<and> fo_from fo \<le> t \<and> (case fo_until fo of None \<Rightarrow> True | Some u \<Rightarrow> u > t) \<and>
     (fi_status fi = SCHEDULED \<or> fi_status fi = DELAYED) \<and> fi_departure fi > t"

definition fare_row :: "uuid \<Rightarrow> ts \<Rightarrow> database \<Rightarrow> fare_offer option" where
  "fare_row u t d =
     first_row [fo. fo \<leftarrow> fares d, fi \<leftarrow> flights d, fi_id fi = fo_flight fo \<and> fo_id fo = u \<and> sellable t fo fi]"

definition fare_of :: "env \<Rightarrow> selection \<Rightarrow> fare_offer \<Rightarrow> fare" where
  "fare_of E v fo = \<lparr>f_id = FareOfferID v, f_flight = uuid_text E (fo_flight fo), f_currency = fo_currency fo,
     f_count = PassengerCount v, f_price = fo_price fo, f_taxes = fo_taxes fo, f_refundable = fo_refundable fo\<rparr>"

definition overflows :: "int \<Rightarrow> fare \<Rightarrow> bool" where
  "overflows due f \<longleftrightarrow>
     f_price f > wrap64 (MaxInt64 - f_taxes f) \<or>
     wrap64 (f_price f + f_taxes f) > wrap64 (MaxInt64 - due) sdiv f_count f"

definition fare_total :: "fare \<Rightarrow> int" where
  "fare_total f = wrap64 (wrap64 (f_price f + f_taxes f) * f_count f)"

text \<open>The loop's state: the currency and amount so far and the fares taken.\<close>

fun price_items :: "selection list \<Rightarrow> string \<times> int \<times> fare list \<Rightarrow> (string \<times> int \<times> fare list) dbact" where
  "price_items [] acc = ret acc"
| "price_items (v # vs) (currency, due, taken) =
     andthen (stmt (\<lambda>E w. Inr (map_option (fare_of E v) (fare_row (uuid_of E (FareOfferID v)) (clock E (pc w)) (db w)), db w))) (\<lambda>row.
     case row of None \<Rightarrow> fail QuoteErrUnavailable | Some f \<Rightarrow>
     andthen (ensure (\<not> (f_flight f \<in> f_flight ` set taken \<or> (currency \<noteq> [] \<and> currency \<noteq> f_currency f))) QuoteErrInvalid) (\<lambda>_.
     andthen (ensure (\<not> overflows due f) QuoteErrUnavailable) (\<lambda>_.
     price_items vs (f_currency f, wrap64 (due + fare_total f), taken @ [f]))))"

subsection \<open>Writing the quote\<close>

definition hash_ok :: "string \<Rightarrow> bool" where
  "hash_ok h \<longleftrightarrow> length h = 64 \<and> list_all (\<lambda>c. (97 \<le> byte c \<and> byte c \<le> 102) \<or> (48 \<le> byte c \<and> byte c \<le> 57)) h"

definition insert_quote ::
  "uuid \<Rightarrow> uuid \<Rightarrow> string \<Rightarrow> int \<Rightarrow> string \<Rightarrow> ts \<Rightarrow> ts \<Rightarrow> database \<Rightarrow> gerr + (uuid \<times> ts) \<times> database" where
  "insert_quote new u hash due currency current created d =
     (let expires = current + 10 * minute in
      guarded
        [(check_violation, hash_ok hash), (check_violation, 0 \<le> due), (check_violation, currency_ok currency),
         (check_violation, expires > created),
         (unique_violation, new \<notin> pq_id ` set (quotes d)),
         (foreign_key_violation, u \<in> set (users d))]
        ((new, expires), d\<lparr>quotes := quotes d @ [\<lparr>pq_id = new, pq_user = Some u, pq_hash = hash, pq_status = Q_ACTIVE,
           pq_total = due, pq_currency = currency, pq_expires = expires\<rparr>]\<rparr>))"

definition insert_quote_item :: "quote_item \<Rightarrow> database \<Rightarrow> gerr + unit \<times> database" where
  "insert_quote_item i d =
     guarded
       [(check_violation, 1 \<le> qi_count i \<and> qi_count i \<le> 9), (check_violation, 0 \<le> qi_unit_price i),
        (check_violation, 0 \<le> qi_taxes i), (check_violation, 0 \<le> qi_total i), (check_violation, currency_ok (qi_currency i)),
        (unique_violation, (qi_quote i, qi_flight i) \<notin> (\<lambda>r. (qi_quote r, qi_flight r)) ` set (quote_items d)),
        (foreign_key_violation, qi_quote i \<in> pq_id ` set (quotes d)),
        (foreign_key_violation, (qi_flight i, qi_fare i) \<in> (\<lambda>r. (fo_flight r, fo_id r)) ` set (fares d))]
       ((), d\<lparr>quote_items := quote_items d @ [i]\<rparr>)"

definition item_of :: "env \<Rightarrow> uuid \<Rightarrow> fare \<Rightarrow> quote_item" where
  "item_of E q f = \<lparr>qi_quote = q, qi_flight = uuid_of E (f_flight f), qi_fare = uuid_of E (f_id f), qi_count = nat (f_count f),
     qi_unit_price = f_price f, qi_taxes = f_taxes f, qi_total = fare_total f, qi_currency = f_currency f,
     qi_refundable = f_refundable f\<rparr>"

definition quote_selection_json :: "selection \<Rightarrow> jval" where
  "quote_selection_json v = JObj [(''FareOfferID'', JStr (FareOfferID v)), (''PassengerCount'', JNum (PassengerCount v))]"

text \<open>\<^verbatim>\<open>sha256\<close> of the environment yields the 32 bytes of the sum.\<close>

definition quote_hash :: "env \<Rightarrow> selection list \<Rightarrow> string" where
  "quote_hash E items = hex_encode (sha256 E (marshal E (JArr (map quote_selection_json items))))"

definition quote_body :: "string \<Rightarrow> selection list \<Rightarrow> quote tx_end dbact" where
  "quote_body user items =
     andthen (price_items items ([], 0, [])) (\<lambda>(currency, due, taken).
     andthen (stmt (\<lambda>E w. insert_quote (gen_uuid E (pc w) 0) (uuid_of E user) (quote_hash E items) due currency
        (clock E (pc w)) (txn w) (db w))) (\<lambda>(q, expires).
     andthen (for_each taken (\<lambda>f. stmt (\<lambda>E w. insert_quote_item (item_of E q f) (db w)))) (\<lambda>_.
     andthen (reading (\<lambda>E. uuid_text E q)) (\<lambda>i.
     ret (Commit (Inr \<lparr>q_id = i, q_currency = currency, q_total = due, q_expires = expires\<rparr>))))))"

definition quote_Create :: "string \<Rightarrow> selection list \<Rightarrow> quote dbact" where
  "quote_Create user items =
     andthen (reading (\<lambda>E. \<not> validate_UUID E user \<or> length items < 1 \<or> length items > 4)) (\<lambda>invalid.
     if invalid then fail QuoteErrInvalid else
     andthen (reading (\<lambda>E. selections_ok E 0 None (sort_selections items))) (\<lambda>ok.
     if \<not> ok then fail QuoteErrInvalid else
     in_tx (quote_body user (sort_selections items))))"

end
