(* ===== verification/Calendar.thy ===== *)
theory Calendar
  imports Validate
begin

text \<open>
  The calendar dates of the \<^verbatim>\<open>time\<close> package, in UTC: \<^verbatim>\<open>AddDate\<close> on years and days, and
  \<^verbatim>\<open>time.Parse\<close> and \<^verbatim>\<open>Format\<close> with the layout \<^verbatim>\<open>2006-01-02\<close>.  Days count from 1970-01-01 and
  years start in March, so that the leap day is the last day of its year.
\<close>

definition day :: ts where
  "day = 86400 * second"

subsection \<open>Days and civil dates\<close>

definition leap_year :: "int \<Rightarrow> bool" where
  "leap_year y \<longleftrightarrow> y mod 4 = 0 \<and> (y mod 100 \<noteq> 0 \<or> y mod 400 = 0)"

definition days_in_month :: "int \<Rightarrow> int \<Rightarrow> int" where
  "days_in_month y m =
     (if m = 2 then (if leap_year y then 29 else 28)
      else if m = 4 \<or> m = 6 \<or> m = 9 \<or> m = 11 then 30 else 31)"

definition valid_date :: "int \<Rightarrow> int \<Rightarrow> int \<Rightarrow> bool" where
  "valid_date y m d \<longleftrightarrow> 1 \<le> m \<and> m \<le> 12 \<and> 1 \<le> d \<and> d \<le> days_in_month y m"

definition days_of_date :: "int \<Rightarrow> int \<Rightarrow> int \<Rightarrow> int" where
  "days_of_date y m d =
     (let yy = (if m \<le> 2 then y - 1 else y); mm = (if m \<le> 2 then m + 9 else m - 3) in
      365 * yy + yy div 4 - yy div 100 + yy div 400 + (153 * mm + 2) div 5 + d - 1 - 719468)"

definition date_of_days :: "int \<Rightarrow> int \<times> int \<times> int" where
  "date_of_days n =
     (let z = n + 719468;
          a = z div 146097; r = z mod 146097;
          b = min 3 (r div 36524); r1 = r - 36524 * b;
          c = r1 div 1461; r2 = r1 mod 1461;
          e = min 3 (r2 div 365); doy = r2 - 365 * e;
          yy = 400 * a + 100 * b + 4 * c + e; mm = (5 * doy + 2) div 153;
          d = doy - (153 * mm + 2) div 5 + 1 in
      if mm < 10 then (yy, mm + 3, d) else (yy + 1, mm - 9, d))"

definition AddDate :: "int \<Rightarrow> int \<Rightarrow> int \<Rightarrow> ts \<Rightarrow> ts" where
  "AddDate years months ds t =
     (case date_of_days (t div day) of (y, m, d) \<Rightarrow>
        let mm = m - 1 + months in
        (days_of_date (y + years + mm div 12) (mm mod 12 + 1) 1 + d - 1 + ds) * day + t mod day)"

subsection \<open>The layout 2006-01-02\<close>

definition digit_at :: "char \<Rightarrow> int option" where
  "digit_at c = (if 48 \<le> byte c \<and> byte c \<le> 57 then Some (int (byte c) - 48) else None)"

definition ParseDate :: "string \<Rightarrow> ts option" where
  "ParseDate s =
     (if length s \<noteq> 10 \<or> s ! 4 \<noteq> CHR ''-'' \<or> s ! 7 \<noteq> CHR ''-'' then None
      else case (digit_at (s ! 0), digit_at (s ! 1), digit_at (s ! 2), digit_at (s ! 3),
                 digit_at (s ! 5), digit_at (s ! 6), digit_at (s ! 8), digit_at (s ! 9)) of
        (Some y3, Some y2, Some y1, Some y0, Some m1, Some m0, Some d1, Some d0) \<Rightarrow>
          (let y = 1000 * y3 + 100 * y2 + 10 * y1 + y0; m = 10 * m1 + m0; d = 10 * d1 + d0 in
           if valid_date y m d then Some (days_of_date y m d * day) else None)
      | _ \<Rightarrow> None)"

definition digit_text :: "int \<Rightarrow> char" where
  "digit_text n = char_of (48 + nat n)"

text \<open>For the years 0 to 9999, which are all that \<open>ParseDate\<close> produces.\<close>

definition FormatDate :: "ts \<Rightarrow> string" where
  "FormatDate t =
     (case date_of_days (t div day) of (y, m, d) \<Rightarrow>
        [digit_text (y div 1000), digit_text (y div 100 mod 10), digit_text (y div 10 mod 10), digit_text (y mod 10), CHR ''-'',
         digit_text (m div 10), digit_text (m mod 10), CHR ''-'', digit_text (d div 10), digit_text (d mod 10)])"

subsection \<open>Dates and days round trip\<close>

text \<open>A year in its 400-year cycle, centuries, four-year groups.\<close>

lemma year_parts:
  fixes y :: int
  obtains a b c e where "y = 400 * a + 100 * b + 4 * c + e" and "0 \<le> b" and "b \<le> 3" and "0 \<le> c" and "c \<le> 24" and "0 \<le> e" and "e \<le> 3"
proof (rule that)
  let ?r = "y mod 400" and ?s = "y mod 400 mod 100"
  have r: "0 \<le> ?r" "?r < 400" "0 \<le> ?s" "?s < 100" "0 \<le> ?s mod 4" "?s mod 4 < 4" by simp_all
  have e: "400 * (y div 400) + ?r = y" "100 * (?r div 100) + ?s = ?r" "4 * (?s div 4) + ?s mod 4 = ?s" by simp_all
  show "y = 400 * (y div 400) + 100 * (?r div 100) + 4 * (?s div 4) + ?s mod 4" using e by linarith
  show "0 \<le> ?r div 100" "?r div 100 \<le> 3" using e(2) r by linarith+
  show "0 \<le> ?s div 4" "?s div 4 \<le> 24" using e(3) r by linarith+
  show "0 \<le> ?s mod 4" "?s mod 4 \<le> 3" using r by linarith+
qed

lemma days_before_year:
  fixes y :: int
  assumes "y = 400 * a + 100 * b + 4 * c + e" and "0 \<le> b" "b \<le> 3" "0 \<le> c" "c \<le> 24" "0 \<le> e" "e \<le> 3"
  shows "365 * y + y div 4 - y div 100 + y div 400 = 146097 * a + 36524 * b + 1461 * c + 365 * e"
proof -
  have "y div 4 = 100 * a + 25 * b + c" by (rule int_div_pos_eq [where r = e]) (use assms in auto)
  moreover have "y div 100 = 4 * a + b" by (rule int_div_pos_eq [where r = "4 * c + e"]) (use assms in auto)
  moreover have "y div 400 = a" by (rule int_div_pos_eq [where r = "100 * b + 4 * c + e"]) (use assms in auto)
  ultimately show ?thesis using assms(1) by simp
qed

lemma split_days:
  fixes z :: int
  assumes "z = 146097 * a + 36524 * b + 1461 * c + 365 * e + doy" and "0 \<le> b" "b \<le> 3" "0 \<le> c" "c \<le> 24" "0 \<le> e" "e \<le> 3"
    and "0 \<le> doy" "doy \<le> 365" and last_day: "doy = 365 \<longrightarrow> e = 3 \<and> (c < 24 \<or> b = 3)"
  shows "z div 146097 = a"
    and "min 3 (z mod 146097 div 36524) = b"
    and "(z mod 146097 - 36524 * b) div 1461 = c"
    and "min 3 ((z mod 146097 - 36524 * b) mod 1461 div 365) = e"
    and "(z mod 146097 - 36524 * b) mod 1461 - 365 * e = doy"
proof -
  let ?s = "1461 * c + 365 * e + doy" and ?u = "365 * e + doy"
  have last: "doy = 365 \<Longrightarrow> e = 3 \<and> (c < 24 \<or> b = 3)" using last_day by simp
  have u: "0 \<le> ?u" "?u < 1461" using assms last by linarith+
  have s: "0 \<le> ?s" "?s \<le> 36524" "?s = 36524 \<Longrightarrow> b = 3" using assms last by linarith+
  have r: "0 \<le> 36524 * b + ?s" "36524 * b + ?s < 146097" using s assms by linarith+
  have z: "z = (36524 * b + ?s) + 146097 * a" using assms(1) by simp
  show za: "z div 146097 = a" unfolding z using r by (simp add: div_pos_pos_trivial)
  have m: "z mod 146097 = 36524 * b + ?s" unfolding z using r by (simp add: mod_pos_pos_trivial)
  show "min 3 (z mod 146097 div 36524) = b"
  proof (cases "?s = 36524")
    case True
    with s(3) m show ?thesis by simp
  next
    case False
    with s have "0 \<le> ?s" "?s < 36524" by simp_all
    then have "(36524 * b + ?s) div 36524 = b" by (simp add: div_pos_pos_trivial)
    with m assms(3) show ?thesis by simp
  qed
  have d: "z mod 146097 - 36524 * b = ?u + 1461 * c" using m by simp
  show "(z mod 146097 - 36524 * b) div 1461 = c" unfolding d using u by (simp add: div_pos_pos_trivial)
  have d2: "(z mod 146097 - 36524 * b) mod 1461 = ?u" unfolding d using u by (simp add: mod_pos_pos_trivial)
  have "min 3 (?u div 365) = e"
  proof (cases "doy = 365")
    case True
    with last show ?thesis by simp
  next
    case False
    with assms have "?u div 365 = e" by (simp add: div_pos_pos_trivial)
    with assms show ?thesis by simp
  qed
  then show "min 3 ((z mod 146097 - 36524 * b) mod 1461 div 365) = e"
    and "(z mod 146097 - 36524 * b) mod 1461 - 365 * e = doy" using d2 by simp_all
qed

text \<open>The months of a year that starts in March.\<close>

lemma month_days:
  fixes mm d :: int
  assumes "0 \<le> mm" "mm \<le> 11" "1 \<le> d" "d \<le> 31"
    and "mm \<in> {1, 3, 6, 8} \<Longrightarrow> d \<le> 30" and "mm = 11 \<Longrightarrow> d \<le> 29"
  shows "(5 * ((153 * mm + 2) div 5 + d - 1) + 2) div 153 = mm"
    and "0 \<le> (153 * mm + 2) div 5 + d - 1" and "(153 * mm + 2) div 5 + d - 1 \<le> 365"
    and "(153 * mm + 2) div 5 + d - 1 = 365 \<Longrightarrow> mm = 11 \<and> d = 29"
proof -
  let ?n = "(153 * mm + 2) div 5 + d - 1"
  have "mm = 0 \<or> mm = 1 \<or> mm = 2 \<or> mm = 3 \<or> mm = 4 \<or> mm = 5 \<or> mm = 6 \<or> mm = 7 \<or> mm = 8 \<or> mm = 9 \<or> mm = 10 \<or> mm = 11"
    using assms(1,2) by presburger
  then have b: "0 \<le> 5 * ?n + 2 - 153 * mm \<and> 5 * ?n + 2 - 153 * mm < 153 \<and> 0 \<le> ?n \<and> ?n \<le> 365 \<and> (?n = 365 \<longrightarrow> mm = 11 \<and> d = 29)"
    by (elim disjE) (use assms in simp_all)
  show "(5 * ?n + 2) div 153 = mm"
    by (rule int_div_pos_eq [where r = "5 * ?n + 2 - 153 * mm"]) (use b in simp_all)
  from b show "0 \<le> ?n" "?n \<le> 365" "?n = 365 \<Longrightarrow> mm = 11 \<and> d = 29" by simp_all
qed

lemma leap_parts:
  assumes "y = 400 * a + 100 * b + 4 * c + e" and "0 \<le> b" "b \<le> 3" "0 \<le> c" "c \<le> 24" "0 \<le> e" "e \<le> 3"
    and "leap_year (y + 1)"
  shows "e = 3 \<and> (c < 24 \<or> b = 3)"
proof -
  have "y + 1 = e + 1 + 4 * (100 * a + 25 * b + c)" using assms(1) by simp
  then have "(e + 1) mod 4 = (y + 1) mod 4" by (simp only: mod_mult_self2)
  moreover have "(y + 1) mod 4 = 0" using assms(8) by (simp only: leap_year_def)
  ultimately have "(e + 1) mod 4 = 0" by simp
  moreover from assms(6,7) have "e = 0 \<or> e = 1 \<or> e = 2 \<or> e = 3" by presburger
  ultimately have e: "e = 3" by (elim disjE) simp_all
  have "c < 24 \<or> b = 3"
  proof (rule ccontr)
    assume "\<not> (c < 24 \<or> b = 3)"
    with assms have "c = 24" "b < 3" by auto
    with e assms(1) have y: "y + 1 = 100 * (4 * a + b + 1)" by simp
    then have "(y + 1) mod 100 = 0" by simp
    with assms(8) have "(y + 1) mod 400 = 0" by (simp add: leap_year_def)
    moreover have "y + 1 = 100 * (b + 1) + 400 * a" using y by simp
    ultimately have "(100 * (b + 1)) mod 400 = 0" by (simp only: mod_mult_self2)
    moreover have "0 < 100 * (b + 1)" "100 * (b + 1) < 400" using \<open>b < 3\<close> assms(2) by simp_all
    ultimately show False by (simp add: mod_pos_pos_trivial)
  qed
  with e show ?thesis by simp
qed

text \<open>Every valid date is read back from its day number.\<close>

lemma date_of_days_of_date:
  assumes "valid_date y m d"
  shows "date_of_days (days_of_date y m d) = (y, m, d)"
proof -
  define yy where "yy = (if m \<le> 2 then y - 1 else y)"
  define mm where "mm = (if m \<le> 2 then m + 9 else m - 3)"
  define doy where "doy = (153 * mm + 2) div 5 + d - 1"
  note v = assms [unfolded valid_date_def]
  have m: "0 \<le> mm" "mm \<le> 11" using v by (auto simp: mm_def)
  have "d \<le> 31" "mm \<in> {1, 3, 6, 8} \<Longrightarrow> d \<le> 30" "mm = 11 \<Longrightarrow> d \<le> 29"
    using v by (auto simp: mm_def days_in_month_def split: if_splits)
  note month = month_days [OF m _ this, folded doy_def]
  obtain a b c e where p: "yy = 400 * a + 100 * b + 4 * c + e" "0 \<le> b" "b \<le> 3" "0 \<le> c" "c \<le> 24" "0 \<le> e" "e \<le> 3"
    by (rule year_parts)
  have last: "doy = 365 \<longrightarrow> e = 3 \<and> (c < 24 \<or> b = 3)"
  proof (intro impI leap_parts [OF p])
    assume "doy = 365"
    with month(4) v have "mm = 11" "d = 29" by auto
    with v have "m = 2" "leap_year y" by (auto simp: mm_def days_in_month_def split: if_splits)
    then show "leap_year (yy + 1)" by (simp add: yy_def)
  qed
  have "days_of_date y m d + 719468 = 146097 * a + 36524 * b + 1461 * c + 365 * e + doy"
    using days_before_year [OF p] by (simp add: days_of_date_def Let_def yy_def [symmetric] mm_def [symmetric] doy_def)
  note s = split_days [OF this p(2-) _ _ last]
  have "0 \<le> doy" "doy \<le> 365" using month(2,3) v by auto
  note s = s [OF this]
  have mm: "(5 * doy + 2) div 153 = mm" using month(1) v by auto
  have d: "doy - (153 * mm + 2) div 5 + 1 = d" by (simp add: doy_def)
  have "(if mm < 10 then (yy, mm + 3, d) else (yy + 1, mm - 9, d)) = (y, m, d)"
    using v(1) by (simp add: mm_def yy_def)
  then show ?thesis
    unfolding date_of_days_def Let_def s p(1) [symmetric] mm d .
qed

text \<open>A date as written is read back: \<open>ParseDate\<close> undoes \<open>FormatDate\<close> on midnight of the years 0 to 9999.\<close>

lemma digit_at_text [simp]: "0 \<le> n \<Longrightarrow> n < 10 \<Longrightarrow> digit_at (digit_text n) = Some n"
  by (simp add: digit_at_def digit_text_def byte_def)

lemma four_digits:
  fixes y :: int
  assumes "0 \<le> y" "y < 10000"
  shows "1000 * (y div 1000) + 100 * (y div 100 mod 10) + 10 * (y div 10 mod 10) + y mod 10 = y"
    and "0 \<le> y div 1000" "y div 1000 < 10"
proof -
  have t: "y div 100 = y div 10 div 10" "y div 1000 = y div 10 div 10 div 10"
    using zdiv_zmult2_eq [of 10 y 10] zdiv_zmult2_eq [of 10 "y div 10" 10] zdiv_zmult2_eq [of 100 y 10] by simp_all
  have "1000 * q3 + 100 * r2 + 10 * r1 + r0 = y"
    if "10 * q1 + r0 = y" "10 * q2 + r1 = q1" "10 * q3 + r2 = q2" for q1 q2 q3 r0 r1 r2 :: int
    using that by simp
  from this [OF mult_div_mod_eq mult_div_mod_eq mult_div_mod_eq]
  show "1000 * (y div 1000) + 100 * (y div 100 mod 10) + 10 * (y div 10 mod 10) + y mod 10 = y"
    unfolding t .
  show "0 \<le> y div 1000" "y div 1000 < 10" using assms by linarith+
qed

lemma two_digits:
  fixes n :: int
  assumes "0 \<le> n" "n < 100"
  shows "10 * (n div 10) + n mod 10 = n" "0 \<le> n div 10" "n div 10 < 10"
proof -
  show e: "10 * (n div 10) + n mod 10 = n" by simp
  show "0 \<le> n div 10" "n div 10 < 10" using assms by linarith+
qed

lemma ParseDate_FormatDate:
  assumes "valid_date y m d" and "0 \<le> y" and "y \<le> 9999"
  shows "ParseDate (FormatDate (days_of_date y m d * day)) = Some (days_of_date y m d * day)"
proof -
  have day: "days_of_date y m d * day div day = days_of_date y m d" by (simp add: day_def second_def)
  have "1 \<le> m" "m \<le> 12" "1 \<le> d" "d \<le> 31"
    using assms(1) by (auto simp: valid_date_def days_in_month_def split: if_splits)
  then have m: "0 \<le> m" "m < 100" and d: "0 \<le> d" "d < 100" by simp_all
  have y: "0 \<le> y" "y < 10000" using assms by simp_all
  show ?thesis
    using assms(1)
    by (simp add: FormatDate_def ParseDate_def day date_of_days_of_date [OF assms(1)] Let_def
        four_digits [OF y] two_digits [OF m] two_digits [OF d])
qed

end
