(* ===== verification/Bookings.thy ===== *)
theory Bookings
  imports Lifecycle Quote Calendar
begin

text \<open>
  \<^verbatim>\<open>internal/booking/create.go\<close>, \<^verbatim>\<open>list.go\<close> and \<^verbatim>\<open>Seats\<close> of \<^verbatim>\<open>lifecycle.go\<close>: \<open>Create\<close> turns a live
  quote into a DRAFT booking with its segments, \<open>SavePassenger\<close> adds or changes a passenger of
  a DRAFT booking, and \<open>Get\<close>, \<open>booking_List\<close> and \<open>booking_Seats\<close> read what a user owns.
\<close>

subsection \<open>Results\<close>

record summary =
  sm_id :: string
  sm_pnr :: string
  sm_status :: string
  sm_currency :: string
  sm_total :: int
  sm_version :: int
  sm_hold :: "ts option"

record passenger =
  pg_id :: string
  pg_type :: string
  pg_first :: string
  pg_last :: string
  pg_dob :: "ts option"

record segment =
  sg_id :: string
  sg_flight :: string
  sg_status :: string
  sg_cabin :: string

record details =
  dt_summary :: summary
  dt_count :: nat
  dt_passengers :: "passenger list"
  dt_segments :: "segment list"

record assigned_seat =
  as_seat :: string
  as_passenger :: string
  as_segment :: string
  as_status :: string

primrec segment_text :: "segment_status \<Rightarrow> string" where
  "segment_text S_DRAFT = ''DRAFT''"
| "segment_text S_HELD = ''HELD''"
| "segment_text S_CONFIRMED = ''CONFIRMED''"
| "segment_text S_FLOWN = ''FLOWN''"
| "segment_text S_CANCELLED = ''CANCELLED''"

primrec assignment_text :: "assignment_status \<Rightarrow> string" where
  "assignment_text A_HELD = ''HELD''"
| "assignment_text A_CONFIRMED = ''CONFIRMED''"
| "assignment_text A_CHECKED_IN = ''CHECKED_IN''"
| "assignment_text A_CANCELLED = ''CANCELLED''"
| "assignment_text A_EXPIRED = ''EXPIRED''"

primrec cabin_text :: "cabin \<Rightarrow> string" where
  "cabin_text ECONOMY = ''ECONOMY''"
| "cabin_text PREMIUM_ECONOMY = ''PREMIUM_ECONOMY''"
| "cabin_text BUSINESS = ''BUSINESS''"
| "cabin_text FIRST = ''FIRST''"

subsection \<open>JSON\<close>

definition time_json :: "ts option \<Rightarrow> jval" where
  "time_json t = (case t of None \<Rightarrow> JNull | Some x \<Rightarrow> JTime x)"

text \<open>\<^verbatim>\<open>json.Unmarshal\<close> of one field: an absent or null field leaves the zero value, a value of
  another type is an error.\<close>

definition json_field :: "(jval \<Rightarrow> 'a option) \<Rightarrow> 'a \<Rightarrow> string \<Rightarrow> jval \<Rightarrow> 'a option" where
  "json_field get zero k j =
     (case j of JObj kvs \<Rightarrow> (case map_of kvs k of None \<Rightarrow> Some zero | Some JNull \<Rightarrow> Some zero | Some v \<Rightarrow> get v) | _ \<Rightarrow> None)"

fun json_string :: "jval \<Rightarrow> string option" where
  "json_string (JStr s) = Some s"
| "json_string _ = None"

fun json_number :: "jval \<Rightarrow> int option" where
  "json_number (JNum n) = Some n"
| "json_number _ = None"

fun json_time :: "jval \<Rightarrow> ts option option" where
  "json_time (JTime t) = Some (Some t)"
| "json_time _ = None"

definition summary_json :: "summary \<Rightarrow> jval" where
  "summary_json s = JObj [(''ID'', JStr (sm_id s)), (''PNR'', JStr (sm_pnr s)), (''Status'', JStr (sm_status s)),
     (''Currency'', JStr (sm_currency s)), (''TotalMinor'', JNum (sm_total s)), (''Version'', JNum (sm_version s)),
     (''HoldExpiresAt'', time_json (sm_hold s))]"

definition decode_summary :: "jval \<Rightarrow> summary option" where
  "decode_summary j =
     (let text = (\<lambda>k. json_field json_string [] k j); number = (\<lambda>k. json_field json_number 0 k j) in
      Option.bind (text ''ID'') (\<lambda>i. Option.bind (text ''PNR'') (\<lambda>p. Option.bind (text ''Status'') (\<lambda>s.
      Option.bind (text ''Currency'') (\<lambda>c. Option.bind (number ''TotalMinor'') (\<lambda>t. Option.bind (number ''Version'') (\<lambda>v.
      Option.bind (json_field json_time None ''HoldExpiresAt'' j) (\<lambda>h.
      Some \<lparr>sm_id = i, sm_pnr = p, sm_status = s, sm_currency = c, sm_total = t, sm_version = v, sm_hold = h\<rparr>))))))))"

definition passenger_json :: "passenger \<Rightarrow> jval" where
  "passenger_json p = JObj [(''ID'', JStr (pg_id p)), (''Type'', JStr (pg_type p)), (''FirstName'', JStr (pg_first p)),
     (''LastName'', JStr (pg_last p)), (''DateOfBirth'', time_json (pg_dob p))]"

definition decode_passenger :: "jval \<Rightarrow> passenger option" where
  "decode_passenger j =
     (let text = (\<lambda>k. json_field json_string [] k j) in
      Option.bind (text ''ID'') (\<lambda>i. Option.bind (text ''Type'') (\<lambda>t. Option.bind (text ''FirstName'') (\<lambda>f.
      Option.bind (text ''LastName'') (\<lambda>l. Option.bind (json_field json_time None ''DateOfBirth'' j) (\<lambda>d.
      Some \<lparr>pg_id = i, pg_type = t, pg_first = f, pg_last = l, pg_dob = d\<rparr>))))))"

lemma decode_summary_json [simp]: "decode_summary (summary_json s) = Some s"
  by (cases "sm_hold s") (simp_all add: decode_summary_def summary_json_def json_field_def time_json_def)

lemma decode_passenger_json [simp]: "decode_passenger (passenger_json p) = Some p"
  by (cases "pg_dob p") (simp_all add: decode_passenger_def passenger_json_def json_field_def time_json_def)

subsection \<open>Statements\<close>

text \<open>The quote items whose fare or flight can no longer be sold.\<close>

definition stale_items :: "uuid \<Rightarrow> ts \<Rightarrow> database \<Rightarrow> quote_item list" where
  "stale_items q t d =
     [qi. qi \<leftarrow> quote_items d, fo \<leftarrow> fares d, fi \<leftarrow> flights d,
          fo_id fo = qi_fare qi \<and> fi_id fi = qi_flight qi \<and> qi_quote qi = q \<and> \<not> sellable t fo fi]"

definition new_booking :: "uuid \<Rightarrow> uuid \<Rightarrow> uuid \<Rightarrow> string \<Rightarrow> int \<Rightarrow> string \<Rightarrow> ts \<Rightarrow> booking_row" where
  "new_booking new u q pnr amount currency created =
     \<lparr>b_id = new, b_user = Some u, b_quote = q, b_pnr = pnr, b_status = B_DRAFT, b_total = amount,
      b_currency = currency, b_hold = None, b_version = 1, b_created = created\<rparr>"

text \<open>\<^verbatim>\<open>INSERT INTO bookings ... ON CONFLICT(pnr) DO NOTHING RETURNING id,status,version\<close>: no row when
  the locator is taken.\<close>

definition insert_booking :: "booking_row \<Rightarrow> database \<Rightarrow> gerr + booking_row option \<times> database" where
  "insert_booking r d =
     (if \<not> booking_check r then Inl (PgError check_violation)
      else if b_pnr r \<in> b_pnr ` set (bookings d) then Inr (None, d)
      else guarded
        [(unique_violation, b_id r \<notin> b_id ` set (bookings d)),
         (unique_violation, b_quote r \<notin> b_quote ` set (bookings d)),
         (foreign_key_violation, b_user r \<in> Some ` set (users d)),
         (foreign_key_violation, b_quote r \<in> pq_id ` set (quotes d))]
        (Some r, d\<lparr>bookings := bookings d @ [r]\<rparr>))"

text \<open>The locator attempts; \<open>None\<close> when all were taken.\<close>

fun insert_attempts :: "nat \<Rightarrow> uuid \<Rightarrow> uuid \<Rightarrow> int \<Rightarrow> string \<Rightarrow> booking_row option dbact" where
  "insert_attempts 0 u q amount currency = ret None"
| "insert_attempts (Suc n) u q amount currency =
     andthen (draw_bytes 5) (\<lambda>raw.
     andthen (stmt (\<lambda>E w. insert_booking
        (new_booking (gen_uuid E (pc w) 0) u q (base32_block raw) amount currency (txn w)) (db w))) (\<lambda>row.
     case row of Some r \<Rightarrow> ret (Some r) | None \<Rightarrow> insert_attempts n u q amount currency))"

definition segment_of :: "(nat \<Rightarrow> uuid) \<Rightarrow> uuid \<Rightarrow> nat \<Rightarrow> quote_item \<Rightarrow> segment_row" where
  "segment_of ids b k i = \<lparr>bs_id = ids k, bs_booking = b, bs_flight = qi_flight i, bs_fare = qi_fare i, bs_status = S_DRAFT,
     bs_price = qi_unit_price i * int (qi_count i), bs_taxes = qi_taxes i * int (qi_count i),
     bs_currency = qi_currency i, bs_refundable = qi_refundable i\<rparr>"

definition new_segments :: "(nat \<Rightarrow> uuid) \<Rightarrow> uuid \<Rightarrow> uuid \<Rightarrow> database \<Rightarrow> segment_row list" where
  "new_segments ids b q d =
     (let items = filter (\<lambda>i. qi_quote i = q) (quote_items d) in map2 (segment_of ids b) [0..<length items] items)"

definition insert_segments :: "segment_row list \<Rightarrow> database \<Rightarrow> gerr + nat \<times> database" where
  "insert_segments rows d =
     guarded
       [(out_of_range, list_all (\<lambda>s. bs_price s \<le> MaxInt64 \<and> bs_taxes s \<le> MaxInt64) rows),
        (check_violation, list_all (\<lambda>s. 0 \<le> bs_price s \<and> 0 \<le> bs_taxes s \<and> currency_ok (bs_currency s)) rows),
        (unique_violation, distinct (map bs_id (segments d @ rows))),
        (unique_violation, distinct (map (\<lambda>s. (bs_booking s, bs_flight s)) (segments d @ rows))),
        (foreign_key_violation, list_all (\<lambda>s. bs_booking s \<in> b_id ` set (bookings d)) rows),
        (foreign_key_violation, list_all (\<lambda>s. (bs_flight s, bs_fare s) \<in> (\<lambda>f. (fo_flight f, fo_id f)) ` set (fares d)) rows)]
       (length rows, d\<lparr>segments := segments d @ rows\<rparr>)"

definition use_quote :: "uuid \<Rightarrow> unit dbact" where
  "use_quote q = stmt (\<lambda>E w. Inr ((), (db w)\<lparr>quotes := update_where (\<lambda>r. pq_id r = q) (\<lambda>r. r\<lparr>pq_status := Q_USED\<rparr>) (quotes (db w))\<rparr>))"

subsection \<open>Create\<close>

definition create_rest :: "idem_record \<Rightarrow> uuid \<Rightarrow> int \<Rightarrow> string \<Rightarrow> booking_row \<Rightarrow> summary tx_end dbact" where
  "create_rest rec q amount currency r =
     andthen (stmt (\<lambda>E w. insert_segments (new_segments (gen_uuid E (pc w)) (b_id r) q (db w)) (db w))) (\<lambda>n.
     andthen (ensure (\<not> (n < 1 \<or> n > 4)) ErrBookingNotHoldable) (\<lambda>_.
     andthen (use_quote q) (\<lambda>_.
     andthen (emit (b_id r) ''BOOKING_CREATED'') (\<lambda>_.
     andthen (reading (\<lambda>E. \<lparr>sm_id = uuid_text E (b_id r), sm_pnr = b_pnr r, sm_status = booking_text (b_status r),
        sm_currency = currency, sm_total = amount, sm_version = b_version r, sm_hold = None\<rparr>)) (\<lambda>result.
     andthen (idem_save rec (b_id r) (summary_json result)) (\<lambda>_.
     ret (Commit (Inr result))))))))"

definition create_write :: "idem_record \<Rightarrow> uuid \<Rightarrow> uuid \<Rightarrow> int \<Rightarrow> string \<Rightarrow> summary tx_end dbact" where
  "create_write rec u q amount currency =
     andthen (insert_attempts 5 u q amount currency) (\<lambda>row.
     case row of None \<Rightarrow> fail ErrInventoryConflict | Some r \<Rightarrow> create_rest rec q amount currency r)"

definition create_work :: "string \<Rightarrow> string \<Rightarrow> idem_record \<Rightarrow> summary tx_end dbact" where
  "create_work user quoteID rec =
     andthen (reading (\<lambda>E. (uuid_of E quoteID, uuid_of E user))) (\<lambda>(q, u).
     andthen (select (\<lambda>t d. map_option (\<lambda>r. (pq_status r, pq_expires r > t, pq_total r, pq_currency r))
        (find_row (\<lambda>r. pq_id r = q \<and> pq_user r = Some u) (quotes d)))) (\<lambda>row.
     case row of None \<Rightarrow> fail ErrBookingNotFound | Some (status, live, amount, currency) \<Rightarrow>
     andthen (ensure (\<not> (status \<noteq> Q_ACTIVE \<or> \<not> live)) ErrBookingNotHoldable) (\<lambda>_.
     andthen nop_stmt (\<lambda>_.
     andthen (select (\<lambda>t d. map_option (\<lambda>r. pq_expires r > t) (find_row (\<lambda>r. pq_id r = q) (quotes d)))) (\<lambda>again.
     case again of None \<Rightarrow> fail ErrNoRows | Some still \<Rightarrow>
     andthen (ensure still ErrBookingNotHoldable) (\<lambda>_.
     andthen (select (\<lambda>t d. length (stale_items q t d))) (\<lambda>invalid.
     andthen (ensure (invalid = 0) ErrBookingNotHoldable) (\<lambda>_.
     create_write rec u q amount currency))))))))"

definition Create :: "string \<Rightarrow> string \<Rightarrow> string \<Rightarrow> summary dbact" where
  "Create user quoteID key =
     guarded_tx (\<lambda>E. \<not> validate_UUID E user \<or> \<not> validate_UUID E quoteID) ErrInvalidHoldRequest
       (idem_tx user ''POST /v1/bookings'' key (JStr quoteID) decode_summary (create_work user quoteID))"

subsection \<open>Reading bookings\<close>

definition summary_of :: "env \<Rightarrow> booking_row \<Rightarrow> summary" where
  "summary_of E b = \<lparr>sm_id = uuid_text E (b_id b), sm_pnr = b_pnr b, sm_status = booking_text (b_status b),
     sm_currency = b_currency b, sm_total = b_total b, sm_version = b_version b, sm_hold = b_hold b\<rparr>"

text \<open>\<^verbatim>\<open>COALESCE(min(passenger_count),0)\<close> over the items of a quote.\<close>

definition expected_count :: "uuid \<Rightarrow> database \<Rightarrow> nat" where
  "expected_count q d =
     (case map qi_count (filter (\<lambda>i. qi_quote i = q) (quote_items d)) of [] \<Rightarrow> 0 | n # ns \<Rightarrow> foldl min n ns)"

definition passenger_rows :: "uuid \<Rightarrow> uuid \<Rightarrow> database \<Rightarrow> passenger_row list" where
  "passenger_rows b u d =
     take 9 (sort_by (\<lambda>x y. bp_id x < bp_id y)
       [p. p \<leftarrow> passengers d, bk \<leftarrow> bookings d, b_id bk = bp_booking p \<and> b_id bk = b \<and> b_user bk = Some u])"

definition passenger_of :: "env \<Rightarrow> passenger_row \<Rightarrow> passenger" where
  "passenger_of E p = \<lparr>pg_id = uuid_text E (bp_id p), pg_type = bp_type p, pg_first = bp_first p, pg_last = bp_last p,
     pg_dob = bp_dob p\<rparr>"

definition segment_rows :: "uuid \<Rightarrow> uuid \<Rightarrow> database \<Rightarrow> (segment_row \<times> cabin) list" where
  "segment_rows b u d =
     take 4 (sort_by (\<lambda>x y. bs_id (fst x) < bs_id (fst y))
       [(s, fo_cabin fo). s \<leftarrow> segments d, bk \<leftarrow> bookings d, fo \<leftarrow> fares d,
          b_id bk = bs_booking s \<and> fo_id fo = bs_fare s \<and> b_id bk = b \<and> b_user bk = Some u])"

definition segment_view :: "env \<Rightarrow> segment_row \<times> cabin \<Rightarrow> segment" where
  "segment_view E sc = \<lparr>sg_id = uuid_text E (bs_id (fst sc)), sg_flight = uuid_text E (bs_flight (fst sc)),
     sg_status = segment_text (bs_status (fst sc)), sg_cabin = cabin_text (snd sc)\<rparr>"

definition Get :: "string \<Rightarrow> string \<Rightarrow> details dbact" where
  "Get user i =
     andthen (reading (\<lambda>E. \<not> validate_UUID E user \<or> \<not> validate_UUID E i)) (\<lambda>invalid.
     if invalid then fail ErrInvalidHoldRequest else
     andthen (reading (\<lambda>E. (uuid_of E i, uuid_of E user))) (\<lambda>(b, u).
     andthen (select (\<lambda>t d. map_option (\<lambda>r. (r, expected_count (b_quote r) d)) (owned_booking b u d))) (\<lambda>row.
     case row of None \<Rightarrow> fail ErrBookingNotFound | Some (r, count) \<Rightarrow>
     andthen (select (\<lambda>t d. passenger_rows b u d)) (\<lambda>ps.
     andthen (select (\<lambda>t d. segment_rows b u d)) (\<lambda>ss.
     reading (\<lambda>E. \<lparr>dt_summary = summary_of E r, dt_count = count, dt_passengers = map (passenger_of E) ps,
                    dt_segments = map (segment_view E) ss\<rparr>))))))"

text \<open>\<^verbatim>\<open>(created_at,id)<(SELECT ... WHERE id=$2 AND user_id=$1)\<close>: no row of the cursor makes the
  comparison NULL.\<close>

definition older :: "booking_row \<Rightarrow> booking_row \<Rightarrow> bool" where
  "older a b \<longleftrightarrow> b_created a < b_created b \<or> (b_created a = b_created b \<and> b_id a < b_id b)"

definition list_rows :: "uuid \<Rightarrow> uuid option \<Rightarrow> nat \<Rightarrow> database \<Rightarrow> booking_row list" where
  "list_rows u cursor limit d =
     take limit (sort_by (\<lambda>a b. older b a)
       (filter (\<lambda>r. b_user r = Some u \<and>
          (case cursor of None \<Rightarrow> True | Some c \<Rightarrow>
             (case owned_booking c u d of None \<Rightarrow> False | Some r0 \<Rightarrow> older r r0))) (bookings d)))"

definition booking_List :: "string \<Rightarrow> string \<Rightarrow> int \<Rightarrow> summary list dbact" where
  "booking_List user after limit =
     andthen (reading (\<lambda>E. \<not> validate_UUID E user \<or> limit < 1 \<or> limit > 50 \<or> (after \<noteq> [] \<and> \<not> validate_UUID E after))) (\<lambda>invalid.
     if invalid then fail ErrInvalidHoldRequest else
     andthen (reading (\<lambda>E. (uuid_of E user, if after = [] then None else Some (uuid_of E after)))) (\<lambda>(u, cursor).
     andthen (select (\<lambda>t d. list_rows u cursor (nat limit) d)) (\<lambda>rows.
     reading (\<lambda>E. map (summary_of E) rows))))"

text \<open>An assignment as a client sees it at time \<open>t\<close>.\<close>

definition seat_view :: "env \<Rightarrow> ts \<Rightarrow> assignment_row \<Rightarrow> assigned_seat" where
  "seat_view E t a = \<lparr>as_seat = uuid_text E (sa_seat a), as_passenger = uuid_text E (sa_passenger a),
     as_segment = uuid_text E (sa_segment a),
     as_status = (if sa_status a = A_HELD \<and> (case sa_hold a of None \<Rightarrow> False | Some h \<Rightarrow> h \<le> t) then ''EXPIRED''
                  else assignment_text (sa_status a))\<rparr>"

definition assigned_rows :: "uuid \<Rightarrow> uuid \<Rightarrow> database \<Rightarrow> assignment_row list" where
  "assigned_rows b u d =
     take 36 (sort_by (\<lambda>x y. sa_seat x < sa_seat y)
       [a. a \<leftarrow> assignments d, bk \<leftarrow> bookings d, b_id bk = sa_booking a \<and> b_id bk = b \<and> b_user bk = Some u \<and> active a])"

definition booking_Seats :: "string \<Rightarrow> string \<Rightarrow> assigned_seat list dbact" where
  "booking_Seats user i =
     andthen (Get user i) (\<lambda>_.
     andthen (reading (\<lambda>E. (uuid_of E i, uuid_of E user))) (\<lambda>(b, u).
     andthen (select (\<lambda>t d. (t, assigned_rows b u d))) (\<lambda>(t, rows).
     reading (\<lambda>E. map (seat_view E t) rows))))"

subsection \<open>SavePassenger\<close>

definition passenger_type_ok :: "string \<Rightarrow> bool" where
  "passenger_type_ok s \<longleftrightarrow> s = ''ADULT'' \<or> s = ''CHILD'' \<or> s = ''INFANT''"

text \<open>The \<^verbatim>\<open>DATE\<close> column keeps the day.\<close>

definition to_date :: "ts \<Rightarrow> ts" where
  "to_date t = t div day * day"

definition insert_passenger :: "uuid \<Rightarrow> uuid \<Rightarrow> passenger \<Rightarrow> database \<Rightarrow> gerr + uuid \<times> database" where
  "insert_passenger new b p d =
     guarded
       [(check_violation, passenger_type_ok (pg_type p)),
        (unique_violation, new \<notin> bp_id ` set (passengers d)),
        (foreign_key_violation, b \<in> b_id ` set (bookings d))]
       (new, d\<lparr>passengers := passengers d @ [\<lparr>bp_id = new, bp_booking = b, bp_type = pg_type p, bp_first = pg_first p,
          bp_last = pg_last p, bp_dob = map_option to_date (pg_dob p)\<rparr>]\<rparr>)"

text \<open>\<^verbatim>\<open>UPDATE booking_passengers ... RETURNING id\<close>: whether a row was changed.\<close>

definition update_passenger :: "uuid \<Rightarrow> uuid \<Rightarrow> passenger \<Rightarrow> database \<Rightarrow> gerr + bool \<times> database" where
  "update_passenger b i p d =
     (let hit = (\<lambda>r. bp_booking r = b \<and> bp_id r = i) in
      guarded [(check_violation, passenger_type_ok (pg_type p) \<or> count_where hit (passengers d) = 0)]
        (count_where hit (passengers d) \<noteq> 0, d\<lparr>passengers := update_where hit
           (\<lambda>r. r\<lparr>bp_type := pg_type p, bp_first := pg_first p, bp_last := pg_last p,
                  bp_dob := map_option to_date (pg_dob p)\<rparr>) (passengers d)\<rparr>))"

definition passenger_invalid :: "env \<Rightarrow> string \<Rightarrow> string \<Rightarrow> passenger \<Rightarrow> bool" where
  "passenger_invalid E user bid p \<longleftrightarrow>
     \<not> validate_UUID E user \<or> \<not> validate_UUID E bid \<or> (pg_id p \<noteq> [] \<and> \<not> validate_UUID E (pg_id p)) \<or>
     \<not> validate_Name (pg_first p) \<or> \<not> validate_Name (pg_last p) \<or>
     (pg_type p \<noteq> ''ADULT'' \<and> pg_type p \<noteq> ''CHILD'' \<and> pg_type p \<noteq> ''INFANT'')"

definition birth_invalid :: "ts \<Rightarrow> passenger \<Rightarrow> bool" where
  "birth_invalid current p \<longleftrightarrow>
     (case pg_dob p of None \<Rightarrow> False | Some t \<Rightarrow> t > current \<or> t < AddDate (- 130) 0 0 current)"

definition passenger_route :: "string \<Rightarrow> passenger \<Rightarrow> string" where
  "passenger_route bid p = ''PASSENGER '' @ bid @ ''/'' @ pg_id p"

text \<open>Adding or changing the row; the id of the passenger as the response shows it.\<close>

definition store_passenger :: "uuid \<Rightarrow> passenger \<Rightarrow> string dbact" where
  "store_passenger b p =
     (if pg_id p = [] then
        andthen (select (\<lambda>t d. (count_where (\<lambda>r. bp_booking r = b) (passengers d),
           case find_row (\<lambda>r. b_id r = b) (bookings d) of None \<Rightarrow> 0 | Some r \<Rightarrow> expected_count (b_quote r) d))) (\<lambda>(count, expected).
        andthen (ensure (\<not> (count \<ge> expected \<or> count \<ge> 9)) ErrInvalidHoldRequest) (\<lambda>_.
        andthen (stmt (\<lambda>E w. insert_passenger (gen_uuid E (pc w) 0) b p (db w))) (\<lambda>new.
        reading (\<lambda>E. uuid_text E new))))
      else
        andthen (stmt (\<lambda>E w. update_passenger b (uuid_of E (pg_id p)) p (db w))) (\<lambda>found.
        andthen (ensure found ErrBookingNotFound) (\<lambda>_.
        ret (pg_id p))))"

definition passenger_work :: "string \<Rightarrow> string \<Rightarrow> passenger \<Rightarrow> idem_record \<Rightarrow> passenger tx_end dbact" where
  "passenger_work user bid p rec =
     andthen (reading (\<lambda>E. (uuid_of E bid, uuid_of E user))) (\<lambda>(b, u).
     andthen (select (\<lambda>t d. map_option b_status (owned_booking b u d))) (\<lambda>row.
     case row of None \<Rightarrow> fail ErrBookingNotFound | Some status \<Rightarrow>
     andthen (ensure (\<not> status \<noteq> B_DRAFT) ErrBookingNotHoldable) (\<lambda>_.
     andthen (store_passenger b p) (\<lambda>i.
     andthen (reading (\<lambda>E. uuid_of E i)) (\<lambda>resource.
     andthen (idem_save rec resource (passenger_json (p\<lparr>pg_id := i\<rparr>))) (\<lambda>_.
     ret (Commit (Inr (p\<lparr>pg_id := i\<rparr>)))))))))"

definition SavePassenger :: "string \<Rightarrow> string \<Rightarrow> string \<Rightarrow> passenger \<Rightarrow> passenger dbact" where
  "SavePassenger user bid key p =
     andthen (reading (\<lambda>E. passenger_invalid E user bid p)) (\<lambda>invalid.
     if invalid then fail ErrInvalidHoldRequest else
     andthen now_wall (\<lambda>current.
     if birth_invalid current p then fail ErrInvalidHoldRequest else
     in_tx (idem_tx user (passenger_route bid p) key (passenger_json p) decode_passenger (passenger_work user bid p))))"

end
