(* ===== verification/BookingRun.thy ===== *)
theory BookingRun
  imports Bookings
begin

text \<open>How the operations of \<open>Bookings\<close> run: what a success wrote, and that a failure wrote
  nothing.\<close>

subsection \<open>Locators\<close>

lemma pnr_ok_base32: "pnr_ok (base32_block raw)"
proof -
  have "pnr_char (base32_char n)" if "n < 32" for n
    using that by (simp add: pnr_char_def byte_base32)
  moreover have "n < 32" if "n \<in> set (digits 32 8 m)" for n m
    using that by (rule digits_less [rotated]) simp
  ultimately show ?thesis by (auto simp: pnr_ok_def list_all_iff base32_block_def)
qed

lemma insert_booking_Inr [run_simps]:
  "insert_booking r d = Inr (row, d') \<longleftrightarrow> booking_check r \<and>
     (if b_pnr r \<in> b_pnr ` set (bookings d) then row = None \<and> d' = d
      else row = Some r \<and> d' = d\<lparr>bookings := bookings d @ [r]\<rparr> \<and> b_id r \<notin> b_id ` set (bookings d) \<and>
           b_quote r \<notin> b_quote ` set (bookings d) \<and> b_user r \<in> Some ` set (users d) \<and> b_quote r \<in> pq_id ` set (quotes d))"
  by (auto simp: insert_booking_def guarded_Inr)

text \<open>A locator attempt that ended: with a row, which is then new in every key, or with every
  locator drawn already taken.\<close>

definition fresh_booking :: "uuid \<Rightarrow> uuid \<Rightarrow> int \<Rightarrow> string \<Rightarrow> database \<Rightarrow> booking_row \<Rightarrow> bool" where
  "fresh_booking u q amount currency d r \<longleftrightarrow>
     r = new_booking (b_id r) u q (b_pnr r) amount currency (b_created r) \<and> booking_check r \<and>
     (\<exists>raw. b_pnr r = base32_block raw) \<and>
     b_pnr r \<notin> b_pnr ` set (bookings d) \<and> b_id r \<notin> b_id ` set (bookings d) \<and> q \<notin> b_quote ` set (bookings d) \<and>
     u \<in> set (users d) \<and> q \<in> pq_id ` set (quotes d)"

lemma insert_attempts_Inr:
  assumes "insert_attempts n u q amount currency E w = (Inr row, w')"
  shows "txn w' = txn w \<and>
    (case row of None \<Rightarrow> db w' = db w \<and>
        (\<forall>k < n. \<exists>raw. rand_read E (draws w + k) 5 = Inr raw \<and> base32_block raw \<in> b_pnr ` set (bookings (db w)))
      | Some r \<Rightarrow> fresh_booking u q amount currency (db w) r \<and> b_created r = txn w \<and> db w' = (db w)\<lparr>bookings := bookings (db w) @ [r]\<rparr>)"
  using assms
proof (induction n arbitrary: w)
  case 0
  then show ?case by simp
next
  case (Suc n)
  from Suc.prems obtain raw w0 x w2 where run: "draw_bytes 5 E w = (Inr raw, w0)"
    "stmt (\<lambda>E w. insert_booking (new_booking (gen_uuid E (pc w) 0) u q (base32_block raw) amount currency (txn w)) (db w)) E w0 = (Inr x, w2)"
    "(case x of Some r \<Rightarrow> ret (Some r) | None \<Rightarrow> insert_attempts n u q amount currency) E w2 = (Inr row, w')"
    unfolding insert_attempts.simps andthen_Inr by blast
  from run(1) have w0: "rand_read E (draws w) 5 = Inr raw" "db w0 = db w" "txn w0 = txn w" "draws w0 = Suc (draws w)"
    by (auto simp: draw_bytes_Inr)
  from run(2) w0 have r: "txn w2 = txn w" "draws w2 = Suc (draws w)"
    "insert_booking (new_booking (gen_uuid E (pc w0) 0) u q (base32_block raw) amount currency (txn w)) (db w) = Inr (x, db w2)"
    by (auto simp: stmt_Inr)
  note r = w0(1) r run(3)
  show ?case
  proof (cases x)
    case None
    with r(4) have same: "db w2 = db w" "base32_block raw \<in> b_pnr ` set (bookings (db w))"
      by (auto simp: insert_booking_Inr new_booking_def split: if_splits)
    from None r(5) have "insert_attempts n u q amount currency E w2 = (Inr row, w')" by simp
    note ih = Suc.IH [OF this]
    have "\<exists>raw. rand_read E (draws w + k) 5 = Inr raw \<and> base32_block raw \<in> b_pnr ` set (bookings (db w))"
      if "row = None" "k < Suc n" for k
      using that ih r(1,3) same by (cases k) auto
    with ih same r(2) show ?thesis by (cases row) auto
  next
    case (Some b)
    with r show ?thesis by (auto simp: insert_booking_Inr fresh_booking_def new_booking_def split: if_splits)
  qed
qed

subsection \<open>Create\<close>

lemma insert_segments_Inr [run_simps]:
  "insert_segments rows d = Inr (n, d') \<longleftrightarrow>
     n = length rows \<and> d' = d\<lparr>segments := segments d @ rows\<rparr> \<and>
     (\<forall>s \<in> set rows. bs_price s \<le> MaxInt64 \<and> bs_taxes s \<le> MaxInt64 \<and> 0 \<le> bs_price s \<and> 0 \<le> bs_taxes s \<and>
        currency_ok (bs_currency s) \<and> bs_booking s \<in> b_id ` set (bookings d) \<and>
        (bs_flight s, bs_fare s) \<in> (\<lambda>f. (fo_flight f, fo_id f)) ` set (fares d)) \<and>
     distinct (map bs_id (segments d @ rows)) \<and> distinct (map (\<lambda>s. (bs_booking s, bs_flight s)) (segments d @ rows))"
  by (auto simp: insert_segments_def guarded_Inr list_all_iff)

lemma use_quote_Inr [run_simps]:
  "use_quote q E w = (Inr v, w') \<longleftrightarrow> fault E (pc w) = None \<and>
     w' = w\<lparr>pc := Suc (pc w), db := (db w)\<lparr>quotes := update_where (\<lambda>r. pq_id r = q) (\<lambda>r. r\<lparr>pq_status := Q_USED\<rparr>) (quotes (db w))\<rparr>\<rparr>"
  by (auto simp: use_quote_def run_simps)

text \<open>What a \<open>Create\<close> that wrote did to the database.\<close>

definition created :: "env \<Rightarrow> uuid \<Rightarrow> price_quote \<Rightarrow> database \<Rightarrow> summary \<Rightarrow> database \<Rightarrow> bool" where
  "created E u pq d s d' \<longleftrightarrow>
     pq \<in> set (quotes d) \<and> pq_user pq = Some u \<and> pq_status pq = Q_ACTIVE \<and>
     (\<exists>r ids segs ob ir.
        fresh_booking u (pq_id pq) (pq_total pq) (pq_currency pq) d r \<and> s = summary_of E r \<and>
        segs = new_segments ids (b_id r) (pq_id pq) d \<and> 1 \<le> length segs \<and> length segs \<le> 4 \<and>
        distinct (map bs_id (segments d @ segs)) \<and> distinct (map (\<lambda>s. (bs_booking s, bs_flight s)) (segments d @ segs)) \<and>
        d' = d\<lparr>bookings := bookings d @ [r], segments := segments d @ segs,
               quotes := update_where (\<lambda>x. pq_id x = pq_id pq) (\<lambda>x. x\<lparr>pq_status := Q_USED\<rparr>) (quotes d),
               outbox := ob, idem_records := ir\<rparr>)"

lemma create_write_Inr:
  assumes run: "create_write rec u (pq_id pq) (pq_total pq) (pq_currency pq) E w = (Inr t, w')"
    and pq: "pq \<in> set (quotes (db w))" "pq_user pq = Some u" "pq_status pq = Q_ACTIVE"
  shows "\<exists>s. t = Commit (Inr s) \<and> created E u pq (db w) s (db w') \<and>
    (\<exists>resource. idem_records (db w') = idem_records (db w) @
       [\<lparr>ir_user = uuid_of E (rec_user rec), ir_route = rec_route rec, ir_key = rec_key rec,
         ir_hash = rec_hash rec, ir_resource = resource, ir_response = summary_json s\<rparr>])"
proof -
  let ?q = "pq_id pq"
  from run obtain row w1 where a: "insert_attempts 5 u ?q (pq_total pq) (pq_currency pq) E w = (Inr row, w1)"
    "(case row of None \<Rightarrow> fail ErrInventoryConflict | Some r \<Rightarrow> create_rest rec ?q (pq_total pq) (pq_currency pq) r) E w1 = (Inr t, w')"
    unfolding create_write_def andthen_Inr by blast
  then obtain r where row: "row = Some r" by (cases row) auto
  from insert_attempts_Inr [OF a(1)] row have r: "fresh_booking u (pq_id pq) (pq_total pq) (pq_currency pq) (db w) r"
    "db w1 = (db w)\<lparr>bookings := bookings (db w) @ [r]\<rparr>" by simp_all
  then have n: "r = new_booking (b_id r) u (pq_id pq) (b_pnr r) (pq_total pq) (pq_currency pq) (b_created r)"
    by (simp add: fresh_booking_def)
  have sum: "summary_of E r = \<lparr>sm_id = uuid_text E (b_id r), sm_pnr = b_pnr r, sm_status = booking_text (b_status r),
        sm_currency = pq_currency pq, sm_total = pq_total pq, sm_version = b_version r, sm_hold = None\<rparr>"
  proof -
    have "b_status r = B_DRAFT \<and> b_currency r = pq_currency pq \<and> b_total r = pq_total pq \<and> b_hold r = None"
      by (subst n, subst n, subst n, subst n) (simp add: new_booking_def)
    then show ?thesis by (simp add: summary_of_def)
  qed
  from a(2) row obtain n w2 w3 w4 w5 where run: 
    "stmt (\<lambda>E w. insert_segments (new_segments (gen_uuid E (pc w)) (b_id r) ?q (db w)) (db w)) E w1 = (Inr n, w2)" "\<not> (n < 1 \<or> n > 4)"
    "use_quote ?q E w2 = (Inr (), w3)" "emit (b_id r) ''BOOKING_CREATED'' E w3 = (Inr (), w4)"
    "idem_save rec (b_id r) (summary_json (summary_of E r)) E w4 = (Inr (), w')" "t = Commit (Inr (summary_of E r))"
    by (auto simp: create_rest_def andthen_Inr ensure_Inr reading_Inr ret_Inr sum)
  let ?segs = "new_segments (gen_uuid E (pc w1)) (b_id r) ?q (db w)"
  have "new_segments (gen_uuid E (pc w1)) (b_id r) ?q (db w1) = ?segs" by (simp add: r(2) new_segments_def)
  with run(1) r(2) have segs: "n = length ?segs" "db w2 = (db w)\<lparr>bookings := bookings (db w) @ [r], segments := segments (db w) @ ?segs\<rparr>"
    "distinct (map bs_id (segments (db w) @ ?segs))" "distinct (map (\<lambda>s. (bs_booking s, bs_flight s)) (segments (db w) @ ?segs))"
    by (auto simp: stmt_Inr insert_segments_Inr)
  from run(3) have "db w3 = (db w2)\<lparr>quotes := update_where (\<lambda>x. pq_id x = ?q) (\<lambda>x. x\<lparr>pq_status := Q_USED\<rparr>) (quotes (db w2))\<rparr>"
    by (simp add: use_quote_Inr)
  moreover from run(4) obtain ob where "db w4 = (db w3)\<lparr>outbox := ob\<rparr>" by (auto simp: op_defs run_simps)
  moreover from run(5) obtain ir where "db w' = (db w4)\<lparr>idem_records := ir\<rparr>" "ir = idem_records (db w4) @
       [\<lparr>ir_user = uuid_of E (rec_user rec), ir_route = rec_route rec, ir_key = rec_key rec,
         ir_hash = rec_hash rec, ir_resource = b_id r, ir_response = summary_json (summary_of E r)\<rparr>]"
    by (auto simp: idem_save_Inr)
  ultimately have d': "db w' = (db w)\<lparr>bookings := bookings (db w) @ [r], segments := segments (db w) @ ?segs,
      quotes := update_where (\<lambda>x. pq_id x = ?q) (\<lambda>x. x\<lparr>pq_status := Q_USED\<rparr>) (quotes (db w)), outbox := ob, idem_records := ir\<rparr>"
    "ir = idem_records (db w) @
       [\<lparr>ir_user = uuid_of E (rec_user rec), ir_route = rec_route rec, ir_key = rec_key rec,
         ir_hash = rec_hash rec, ir_resource = b_id r, ir_response = summary_json (summary_of E r)\<rparr>]"
    using segs(2) by simp_all
  have "1 \<le> length ?segs" "length ?segs \<le> 4" using run(2) unfolding segs(1) by linarith+
  then have "created E u pq (db w) (summary_of E r) (db w')"
    unfolding created_def using pq r(1) segs(3,4) d'(1) by (intro conjI exI [of _ r] exI [of _ "gen_uuid E (pc w1)"] exI [of _ ?segs] exI [of _ ob] exI [of _ ir]) auto
  moreover have "idem_records (db w') = ir" using d'(1) by simp
  ultimately show ?thesis using run(6) d'(2) by blast
qed

lemma create_work_Inr:
  assumes "create_work user quoteID rec E w = (Inr t, w')"
  shows "\<exists>s pq n. t = Commit (Inr s) \<and> pq_id pq = uuid_of E quoteID \<and> pq_expires pq > clock E n \<and> stale_items (pq_id pq) (clock E (n + 3)) (db w) = [] \<and>
    created E (uuid_of E user) pq (db w) s (db w') \<and>
    (\<exists>resource. idem_records (db w') = idem_records (db w) @
       [\<lparr>ir_user = uuid_of E (rec_user rec), ir_route = rec_route rec, ir_key = rec_key rec,
         ir_hash = rec_hash rec, ir_resource = resource, ir_response = summary_json s\<rparr>])"
proof -
  from assms obtain pq w1 where p: "find_row (\<lambda>r. pq_id r = uuid_of E quoteID \<and> pq_user r = Some (uuid_of E user)) (quotes (db w)) = Some pq"
    "pq_status pq = Q_ACTIVE" "pq_expires pq > clock E (pc w)" "stale_items (uuid_of E quoteID) (clock E (pc w + 3)) (db w) = []"
    "create_write rec (uuid_of E user) (uuid_of E quoteID) (pq_total pq) (pq_currency pq) E w1 = (Inr t, w')" "db w1 = db w"
    by (auto simp: create_work_def run_simps split: option.splits prod.splits) (use that in \<open>force simp: numeral_3_eq_3\<close>)
  from find_row_SomeD [OF p(1)] have pq: "pq \<in> set (quotes (db w))" "pq_id pq = uuid_of E quoteID" "pq_user pq = Some (uuid_of E user)"
    by simp_all
  with create_write_Inr [of rec "uuid_of E user" pq E w1 t w'] p show ?thesis by fastforce
qed

interpretation create_call: idem_work "\<lambda>E. \<not> validate_UUID E user \<or> \<not> validate_UUID E quoteID" ErrInvalidHoldRequest
  user "''POST /v1/bookings''" key "JStr quoteID" decode_summary "create_work user quoteID"
  for user quoteID key
proof
  show "\<exists>resource response. decode_summary response = Some a \<and> idem_records (db w') = idem_records (db w) @
         [\<lparr>ir_user = uuid_of E (rec_user rec), ir_route = rec_route rec, ir_key = rec_key rec,
           ir_hash = rec_hash rec, ir_resource = resource, ir_response = response\<rparr>]"
    if "create_work user quoteID rec E w = (Inr (Commit (Inr a)), w')" for rec E w a w'
    using create_work_Inr [OF that] by (auto intro: decode_summary_json)
  show "create_work user quoteID rec E w \<noteq> (Inr (Rollback (Inr a)), w')" for rec E w a w'
    using create_work_Inr [of user quoteID rec E w "Rollback (Inr a)" w'] by auto
qed

text \<open>What a successful call did.\<close>

lemma Create_Inr:
  assumes "Create user quoteID key E w = (Inr s, w')"
  obtains (replayed) "db w' = db w"
  | (fresh) pq n where "pq_id pq = uuid_of E quoteID" and "pq_expires pq > clock E n"
      and "stale_items (pq_id pq) (clock E (n + 3)) (db w) = []"
      and "created E (uuid_of E user) pq (db w) s (db w')"
proof -
  from assms [unfolded Create_def] show thesis
  proof (cases rule: create_call.success)
    case (replayed r)
    then show thesis by (intro that(1))
  next
    case (fresh rec w1 w2)
    with create_work_Inr [OF fresh(5)] show thesis by (auto intro: that(2))
  qed
qed

lemma Create_failed:
  assumes "Create user quoteID key E w = (Inl e, w')"
  shows "db w' = db w"
proof (rule guarded_idem_failed [OF assms [unfolded Create_def]])
  show "\<exists>a. q = Inr a" if "create_work user quoteID rec E w = (Inr (Commit q), w')" for rec E w q w'
    using create_work_Inr [OF that] by auto
qed

text \<open>A predicate kept by every creation is kept by \<open>Create\<close>.\<close>

lemma keeps_Create:
  assumes "\<And>E u pq d s d'. I d \<Longrightarrow> created E u pq d s d' \<Longrightarrow> I d'"
  shows "keeps I (Create user quoteID key)"
proof (rule keepsI)
  fix E w r w'
  assume I: "I (db w)" and run: "Create user quoteID key E w = (r, w')"
  show "I (db w')"
  proof (cases r)
    case (Inl e)
    with run I Create_failed [of user quoteID key E w e w'] show ?thesis by simp
  next
    case (Inr s)
    from run [unfolded Inr] show ?thesis
    proof (cases rule: Create_Inr)
      case replayed
      with I show ?thesis by simp
    next
      case (fresh pq n)
      with I assms show ?thesis by blast
    qed
  qed
qed

subsection \<open>SavePassenger\<close>

text \<open>What adding or changing a passenger did.\<close>

definition saved_passenger :: "env \<Rightarrow> uuid \<Rightarrow> passenger \<Rightarrow> database \<Rightarrow> passenger \<Rightarrow> database \<Rightarrow> bool" where
  "saved_passenger E b p d p' d' \<longleftrightarrow>
     (\<exists>new t i ob. p' = p\<lparr>pg_id := i\<rparr> \<and> d' = d\<lparr>passengers := t, idem_records := ob\<rparr> \<and>
       (if pg_id p = [] then
          i = uuid_text E new \<and> new \<notin> bp_id ` set (passengers d) \<and> b \<in> b_id ` set (bookings d) \<and>
          t = passengers d @ [\<lparr>bp_id = new, bp_booking = b, bp_type = pg_type p, bp_first = pg_first p,
                               bp_last = pg_last p, bp_dob = map_option to_date (pg_dob p)\<rparr>] \<and>
          count_where (\<lambda>r. bp_booking r = b) (passengers d) < 9 \<and>
          (\<exists>r \<in> set (bookings d). b_id r = b \<and> count_where (\<lambda>r. bp_booking r = b) (passengers d) < expected_count (b_quote r) d)
        else
          i = pg_id p \<and> new = uuid_of E i \<and> (\<exists>r \<in> set (passengers d). bp_booking r = b \<and> bp_id r = new) \<and>
          t = update_where (\<lambda>r. bp_booking r = b \<and> bp_id r = new)
                (\<lambda>r. r\<lparr>bp_type := pg_type p, bp_first := pg_first p, bp_last := pg_last p,
                       bp_dob := map_option to_date (pg_dob p)\<rparr>) (passengers d)))"

lemma insert_passenger_Inr [run_simps]:
  "insert_passenger new b p d = Inr (x, d') \<longleftrightarrow> x = new \<and> passenger_type_ok (pg_type p) \<and> new \<notin> bp_id ` set (passengers d) \<and>
     b \<in> b_id ` set (bookings d) \<and>
     d' = d\<lparr>passengers := passengers d @ [\<lparr>bp_id = new, bp_booking = b, bp_type = pg_type p, bp_first = pg_first p,
          bp_last = pg_last p, bp_dob = map_option to_date (pg_dob p)\<rparr>]\<rparr>"
  by (auto simp: insert_passenger_def guarded_Inr)

lemma update_passenger_Inr [run_simps]:
  "update_passenger b i p d = Inr (x, d') \<longleftrightarrow>
     x = (count_where (\<lambda>r. bp_booking r = b \<and> bp_id r = i) (passengers d) \<noteq> 0) \<and>
     (passenger_type_ok (pg_type p) \<or> count_where (\<lambda>r. bp_booking r = b \<and> bp_id r = i) (passengers d) = 0) \<and>
     d' = d\<lparr>passengers := update_where (\<lambda>r. bp_booking r = b \<and> bp_id r = i)
           (\<lambda>r. r\<lparr>bp_type := pg_type p, bp_first := pg_first p, bp_last := pg_last p,
                  bp_dob := map_option to_date (pg_dob p)\<rparr>) (passengers d)\<rparr>"
  by (auto simp: update_passenger_def guarded_Inr Let_def)

lemma store_passenger_Inr:
  assumes "store_passenger b p E w = (Inr i, w')"
  shows "saved_passenger E b p (db w) (p\<lparr>pg_id := i\<rparr>) (db w') \<and> idem_records (db w') = idem_records (db w)"
proof (cases "pg_id p = []")
  case True
  from assms True obtain w1 new where s:
    "count_where (\<lambda>r. bp_booking r = b) (passengers (db w)) < 9"
    "count_where (\<lambda>r. bp_booking r = b) (passengers (db w)) <
       (case find_row (\<lambda>r. b_id r = b) (bookings (db w)) of None \<Rightarrow> 0 | Some r \<Rightarrow> expected_count (b_quote r) (db w))"
    "insert_passenger new b p (db w) = Inr (new, db w')" "i = uuid_text E new"
    by (auto simp: store_passenger_def run_simps)
  from s(2) obtain r where r: "find_row (\<lambda>r. b_id r = b) (bookings (db w)) = Some r"
    "count_where (\<lambda>r. bp_booking r = b) (passengers (db w)) < expected_count (b_quote r) (db w)" by (auto split: option.splits)
  note new = True s(1,4) s(3) [unfolded insert_passenger_Inr] find_row_SomeD [OF r(1)] r(2)
  show ?thesis
    unfolding saved_passenger_def
    by (rule conjI, intro exI [of _ new] exI [of _ "passengers (db w')"] exI [of _ i] exI [of _ "idem_records (db w)"])
      (use new in auto)
next
  case False
  let ?hit = "\<lambda>r. bp_booking r = b \<and> bp_id r = uuid_of E (pg_id p)"
  from assms False have s: "update_passenger b (uuid_of E (pg_id p)) p (db w) = Inr (True, db w')" "i = pg_id p"
    by (auto simp: store_passenger_def andthen_Inr stmt_Inr ensure_Inr)
  then have "\<exists>r \<in> set (passengers (db w)). ?hit r" by (auto simp: update_passenger_Inr count_where_0_iff)
  note hit = this False s(2) s(1) [unfolded update_passenger_Inr]
  show ?thesis
    unfolding saved_passenger_def
    by (rule conjI, intro exI [of _ "uuid_of E (pg_id p)"] exI [of _ "passengers (db w')"] exI [of _ i] exI [of _ "idem_records (db w)"])
      (use hit in auto)
qed

lemma passenger_work_Inr:
  assumes "passenger_work user bid p rec E w = (Inr t, w')"
  shows "\<exists>p' r. t = Commit (Inr p') \<and> owned_booking (uuid_of E bid) (uuid_of E user) (db w) = Some r \<and> b_status r = B_DRAFT \<and>
    saved_passenger E (uuid_of E bid) p (db w) p' (db w') \<and>
    (\<exists>resource. idem_records (db w') = idem_records (db w) @
       [\<lparr>ir_user = uuid_of E (rec_user rec), ir_route = rec_route rec, ir_key = rec_key rec,
         ir_hash = rec_hash rec, ir_resource = resource, ir_response = passenger_json p'\<rparr>])"
proof -
  let ?b = "uuid_of E bid"
  from assms obtain r where r: "owned_booking ?b (uuid_of E user) (db w) = Some r"
    by (cases "owned_booking ?b (uuid_of E user) (db w)") (auto simp: passenger_work_def andthen_Inr reading_Inr select_Inr)
  let ?w0 = "w\<lparr>pc := Suc (pc w)\<rparr>"
  from assms r obtain i w2 where s: "b_status r = B_DRAFT" "store_passenger ?b p E ?w0 = (Inr i, w2)"
    "idem_save rec (uuid_of E i) (passenger_json (p\<lparr>pg_id := i\<rparr>)) E w2 = (Inr (), w')" "t = Commit (Inr (p\<lparr>pg_id := i\<rparr>))"
    by (simp add: passenger_work_def andthen_Inr reading_Inr select_Inr ensure_Inr ret_Inr) blast
  let ?row = "\<lparr>ir_user = uuid_of E (rec_user rec), ir_route = rec_route rec, ir_key = rec_key rec,
         ir_hash = rec_hash rec, ir_resource = uuid_of E i, ir_response = passenger_json (p\<lparr>pg_id := i\<rparr>)\<rparr>"
  from store_passenger_Inr [OF s(2)] have p: "saved_passenger E ?b p (db w) (p\<lparr>pg_id := i\<rparr>) (db w2)"
    "idem_records (db w2) = idem_records (db w)" by simp_all
  from s(3) have d: "db w' = (db w2)\<lparr>idem_records := idem_records (db w2) @ [?row]\<rparr>" by (simp add: idem_save_Inr)
  from p(1) obtain new t j ob where "db w2 = (db w)\<lparr>passengers := t, idem_records := ob\<rparr>" unfolding saved_passenger_def by blast
  with d have "db w' = (db w)\<lparr>passengers := passengers (db w2), idem_records := idem_records (db w2) @ [?row]\<rparr>" by simp
  with p(1) have "saved_passenger E ?b p (db w) (p\<lparr>pg_id := i\<rparr>) (db w')"
    unfolding saved_passenger_def by fastforce
  with r s(1,4) d p(2) show ?thesis by auto
qed

lemma SavePassenger_run:
  "SavePassenger user bid key p E w =
     (if passenger_invalid E user bid p \<or> birth_invalid (wall_time E (pc w)) p then (Inl ErrInvalidHoldRequest, w)
      else guarded_tx (\<lambda>E. passenger_invalid E user bid p) ErrInvalidHoldRequest
        (idem_tx user (passenger_route bid p) key (passenger_json p) decode_passenger (passenger_work user bid p)) E w)"
  by (simp add: SavePassenger_def guarded_tx_def andthen_def)

interpretation passenger_call: idem_work "\<lambda>E. passenger_invalid E user bid p" ErrInvalidHoldRequest
  user "passenger_route bid p" key "passenger_json p" decode_passenger "passenger_work user bid p"
  for user bid p key
proof
  show "\<exists>resource response. decode_passenger response = Some a \<and> idem_records (db w') = idem_records (db w) @
         [\<lparr>ir_user = uuid_of E (rec_user rec), ir_route = rec_route rec, ir_key = rec_key rec,
           ir_hash = rec_hash rec, ir_resource = resource, ir_response = response\<rparr>]"
    if "passenger_work user bid p rec E w = (Inr (Commit (Inr a)), w')" for rec E w a w'
    using passenger_work_Inr [OF that] by (auto intro: decode_passenger_json)
  show "passenger_work user bid p rec E w \<noteq> (Inr (Rollback (Inr a)), w')" for rec E w a w'
    using passenger_work_Inr [of user bid p rec E w "Rollback (Inr a)" w'] by auto
qed

lemma SavePassenger_Inr:
  assumes "SavePassenger user bid key p E w = (Inr p', w')"
  obtains (replayed) "db w' = db w"
  | (fresh) r where "owned_booking (uuid_of E bid) (uuid_of E user) (db w) = Some r" and "b_status r = B_DRAFT"
      and "saved_passenger E (uuid_of E bid) p (db w) p' (db w')"
proof -
  from assms have "guarded_tx (\<lambda>E. passenger_invalid E user bid p) ErrInvalidHoldRequest
        (idem_tx user (passenger_route bid p) key (passenger_json p) decode_passenger (passenger_work user bid p)) E w = (Inr p', w')"
    by (auto simp: SavePassenger_run split: if_splits)
  then show thesis
  proof (cases rule: passenger_call.success)
    case (replayed r)
    then show thesis by (intro that(1))
  next
    case (fresh rec w1 w2)
    with passenger_work_Inr [OF fresh(5)] show thesis by (auto intro: that(2))
  qed
qed

lemma SavePassenger_failed:
  assumes "SavePassenger user bid key p E w = (Inl e, w')"
  shows "db w' = db w"
proof (cases "passenger_invalid E user bid p \<or> birth_invalid (wall_time E (pc w)) p")
  case True
  with assms show ?thesis by (simp add: SavePassenger_run)
next
  case False
  with assms have "guarded_tx (\<lambda>E. passenger_invalid E user bid p) ErrInvalidHoldRequest
        (idem_tx user (passenger_route bid p) key (passenger_json p) decode_passenger (passenger_work user bid p)) E w = (Inl e, w')"
    by (simp add: SavePassenger_run)
  then show ?thesis
  proof (rule guarded_idem_failed)
    show "\<exists>a. q = Inr a" if "passenger_work user bid p rec E w = (Inr (Commit q), w')" for rec E w q w'
      using passenger_work_Inr [OF that] by auto
  qed
qed

lemma keeps_SavePassenger:
  assumes "\<And>E b p d p' d'. I d \<Longrightarrow> saved_passenger E b p d p' d' \<Longrightarrow> I d'"
  shows "keeps I (SavePassenger user bid key p)"
proof (rule keepsI)
  fix E w r w'
  assume I: "I (db w)" and run: "SavePassenger user bid key p E w = (r, w')"
  show "I (db w')"
  proof (cases r)
    case (Inl e)
    with run I SavePassenger_failed [of user bid key p E w e w'] show ?thesis by simp
  next
    case (Inr s)
    from run [unfolded Inr] show ?thesis
    proof (cases rule: SavePassenger_Inr)
      case replayed
      with I show ?thesis by simp
    next
      case (fresh r)
      with I assms show ?thesis by blast
    qed
  qed
qed

end
