(* ===== verification/QuoteRun.thy ===== *)
theory QuoteRun
  imports Quote
begin

text \<open>How \<open>quote_Create\<close> runs: the overflow tests are exact, the amount due is the sum of the
  prices taken, and a success wrote the quote with one item per fare.\<close>

subsection \<open>Arithmetic\<close>

text \<open>The CHECKs of \<^verbatim>\<open>fare_offers\<close>.\<close>

definition fare_check :: "fare_offer \<Rightarrow> bool" where
  "fare_check fo \<longleftrightarrow> 0 \<le> fo_price fo \<and> fo_price fo \<le> MaxInt64 \<and> 0 \<le> fo_taxes fo \<and> fo_taxes fo \<le> MaxInt64 \<and>
     currency_ok (fo_currency fo)"

definition fare_ok :: "fare \<Rightarrow> bool" where
  "fare_ok f \<longleftrightarrow> 0 \<le> f_price f \<and> f_price f \<le> MaxInt64 \<and> 0 \<le> f_taxes f \<and> f_taxes f \<le> MaxInt64 \<and> 1 \<le> f_count f \<and> f_count f \<le> 9"

definition exact_total :: "fare \<Rightarrow> int" where
  "exact_total f = (f_price f + f_taxes f) * f_count f"

lemma sdiv_pos: "0 \<le> a \<Longrightarrow> 0 < (b::int) \<Longrightarrow> a sdiv b = a div b"
  by (cases "a = 0") (simp_all add: signed_divide_int_def)

lemma overflows_iff:
  assumes "fare_ok f" and "0 \<le> due" and "due \<le> MaxInt64"
  shows "overflows due f \<longleftrightarrow> due + exact_total f > MaxInt64"
proof -
  have b: "0 \<le> f_price f" "0 \<le> f_taxes f" "f_price f \<le> MaxInt64" "f_taxes f \<le> MaxInt64" "1 \<le> f_count f"
    using assms(1) by (simp_all add: fare_ok_def)
  have w: "wrap64 (MaxInt64 - f_taxes f) = MaxInt64 - f_taxes f" "wrap64 (MaxInt64 - due) = MaxInt64 - due"
    using b assms(2,3) by (simp_all add: wrap64_id MaxInt64_def)
  have div: "x > a div c \<longleftrightarrow> x * c > a" if "0 < c" for x a c :: int
  proof -
    have "x \<le> a div c \<longleftrightarrow> x * c \<le> a"
    proof
      assume "x \<le> a div c"
      then have "x * c \<le> a div c * c" using that by (intro mult_right_mono) simp_all
      also have "\<dots> \<le> a" using that by (simp add: minus_mod_eq_div_mult [symmetric])
      finally show "x * c \<le> a" .
    next
      assume "x * c \<le> a"
      from zdiv_mono1 [OF this that] that show "x \<le> a div c" by simp
    qed
    then show ?thesis by linarith
  qed
  have c: "0 < f_count f" using b(5) by simp
  show ?thesis
  proof (cases "f_price f > MaxInt64 - f_taxes f")
    case True
    moreover have "f_price f + f_taxes f \<le> (f_price f + f_taxes f) * f_count f"
      using mult_left_mono [OF b(5), of "f_price f + f_taxes f"] b(1,2) by simp
    ultimately show ?thesis using assms(2) by (simp add: overflows_def exact_total_def w)
  next
    case False
    then have "wrap64 (f_price f + f_taxes f) = f_price f + f_taxes f"
      using b by (intro wrap64_id) (simp_all add: MaxInt64_def)
    with False c assms(3) show ?thesis
      by (auto simp: overflows_def exact_total_def w sdiv_pos div)
  qed
qed

lemma exact_total_nonneg: "fare_ok f \<Longrightarrow> 0 \<le> exact_total f"
  by (simp add: fare_ok_def exact_total_def)

lemma fare_total_exact:
  assumes "fare_ok f" and "0 \<le> due" and "due \<le> MaxInt64" and "\<not> overflows due f"
  shows "fare_total f = exact_total f" and "wrap64 (due + fare_total f) = due + exact_total f"
    and "0 \<le> due + exact_total f" and "due + exact_total f \<le> MaxInt64"
proof -
  from assms overflows_iff [OF assms(1-3)] have le: "due + exact_total f \<le> MaxInt64" by simp
  from assms(1) have n: "0 \<le> f_price f + f_taxes f" "1 \<le> f_count f" by (simp_all add: fare_ok_def)
  have "f_price f + f_taxes f \<le> exact_total f"
    using mult_left_mono [OF n(2,1)] by (simp add: exact_total_def)
  with n(1) le assms(2) have "wrap64 (f_price f + f_taxes f) = f_price f + f_taxes f"
    by (intro wrap64_id) (simp_all add: MaxInt64_def)
  moreover have "wrap64 (exact_total f) = exact_total f"
    using le assms(2) exact_total_nonneg [OF assms(1)] by (intro wrap64_id) (simp_all add: MaxInt64_def)
  ultimately show t: "fare_total f = exact_total f" by (simp add: fare_total_def exact_total_def)
  show "wrap64 (due + fare_total f) = due + exact_total f" unfolding t
    using le assms(2) exact_total_nonneg [OF assms(1)] by (intro wrap64_id) (simp_all add: MaxInt64_def)
  show "0 \<le> due + exact_total f" using assms(2) exact_total_nonneg [OF assms(1)] by simp
  show "due + exact_total f \<le> MaxInt64" by (rule le)
qed

subsection \<open>Pricing\<close>

text \<open>The loop's invariant: the amount is the exact sum of the fares taken, which are in one
  currency, on different flights, and come from offers.\<close>

definition taken_from :: "env \<Rightarrow> database \<Rightarrow> fare \<Rightarrow> bool" where
  "taken_from E d f \<longleftrightarrow>
     (\<exists>fo \<in> set (fares d). f = fare_of E \<lparr>FareOfferID = f_id f, PassengerCount = f_count f\<rparr> fo \<and> fo_id fo = uuid_of E (f_id f))"

definition priced :: "env \<Rightarrow> database \<Rightarrow> string \<Rightarrow> int \<Rightarrow> fare list \<Rightarrow> bool" where
  "priced E d currency due taken \<longleftrightarrow>
     due = sum_list (map exact_total taken) \<and> 0 \<le> due \<and> due \<le> MaxInt64 \<and> distinct (map f_flight taken) \<and>
     (\<forall>f \<in> set taken. fare_ok f \<and> fare_total f = exact_total f \<and> f_currency f = currency \<and> currency \<noteq> [] \<and> taken_from E d f)"

lemma priced_start [simp]: "priced E d [] 0 []"
  by (simp add: priced_def MaxInt64_def)

lemma currency_ok_nonempty: "currency_ok c \<Longrightarrow> c \<noteq> []"
  by (auto simp: currency_ok_def)

lemma fare_row_Some:
  "fare_row u t d = Some fo \<Longrightarrow> fo \<in> set (fares d) \<and> fo_id fo = u \<and> (\<exists>fi \<in> set (flights d). fi_id fi = fo_flight fo \<and> sellable t fo fi)"
  unfolding fare_row_def by (drule first_row_Some) auto

lemma price_items_Inr:
  assumes "price_items vs (currency, due, taken) E w = (Inr (currency', due', taken'), w')"
    and "priced E (db w) currency due taken" and "\<forall>fo \<in> set (fares (db w)). fare_check fo"
    and "\<forall>v \<in> set vs. 1 \<le> PassengerCount v \<and> PassengerCount v \<le> 9"
  shows "db w' = db w \<and> txn w' = txn w \<and> priced E (db w) currency' due' taken' \<and>
    (\<exists>fs. taken' = taken @ fs \<and> map f_id fs = map FareOfferID vs \<and> map f_count fs = map PassengerCount vs)"
  using assms
proof (induction vs arbitrary: currency due taken w)
  case Nil
  then show ?case by simp
next
  case (Cons v vs)
  from Cons.prems(1) obtain row w1 where r: "stmt (\<lambda>E w. Inr (map_option (fare_of E v) (fare_row (uuid_of E (FareOfferID v)) (clock E (pc w)) (db w)), db w)) E w = (Inr row, w1)"
    "(case row of None \<Rightarrow> fail QuoteErrUnavailable | Some f \<Rightarrow>
     andthen (ensure (\<not> (f_flight f \<in> f_flight ` set taken \<or> (currency \<noteq> [] \<and> currency \<noteq> f_currency f))) QuoteErrInvalid) (\<lambda>_.
     andthen (ensure (\<not> overflows due f) QuoteErrUnavailable) (\<lambda>_.
     price_items vs (f_currency f, wrap64 (due + fare_total f), taken @ [f])))) E w1 = (Inr (currency', due', taken'), w')"
    unfolding price_items.simps andthen_Inr by blast
  from r(1) have w1: "db w1 = db w" "txn w1 = txn w"
    and row: "row = map_option (fare_of E v) (fare_row (uuid_of E (FareOfferID v)) (clock E (pc w)) (db w))"
    by (auto simp: stmt_Inr)
  from r(2) obtain f where f: "row = Some f" by (cases row) auto
  with row obtain fo where fo: "fare_row (uuid_of E (FareOfferID v)) (clock E (pc w)) (db w) = Some fo" "f = fare_of E v fo"
    by (cases "fare_row (uuid_of E (FareOfferID v)) (clock E (pc w)) (db w)") auto
  from r(2) f have g: "f_flight f \<notin> f_flight ` set taken" "currency = [] \<or> currency = f_currency f" "\<not> overflows due f"
    "price_items vs (f_currency f, wrap64 (due + fare_total f), taken @ [f]) E w1 = (Inr (currency', due', taken'), w')"
    by (auto simp: andthen_Inr ensure_Inr)
  from fare_row_Some [OF fo(1)] have offer: "fo \<in> set (fares (db w))" "fo_id fo = uuid_of E (FareOfferID v)" by simp_all
  with Cons.prems(3,4) fo(2) have ok: "fare_ok f" "f_currency f \<noteq> []" "f_id f = FareOfferID v" "f_count f = PassengerCount v"
    by (auto simp: fare_of_def fare_ok_def fare_check_def dest: currency_ok_nonempty)
  have sel: "f = fare_of E \<lparr>FareOfferID = f_id f, PassengerCount = f_count f\<rparr> fo" unfolding ok(3,4) fo(2) by (simp add: fare_of_def)
  have src: "taken_from E (db w) f" unfolding taken_from_def using offer sel ok(3) by auto
  from Cons.prems(2) have p: "due = sum_list (map exact_total taken)" "0 \<le> due" "due \<le> MaxInt64" "distinct (map f_flight taken)"
    by (simp_all add: priced_def)
  note t = fare_total_exact [OF ok(1) p(2,3) g(3)]
  have "priced E (db w1) (f_currency f) (wrap64 (due + fare_total f)) (taken @ [f])"
    unfolding t(2) using Cons.prems(2) g(1,2) ok(1,2) t src w1(1) by (auto simp: priced_def)
  with Cons.IH [OF g(4)] Cons.prems(3,4) w1 ok(3,4) show ?case by auto
qed

subsection \<open>Writing the quote\<close>

lemma insert_quote_item_Inr [run_simps]:
  "insert_quote_item i d = Inr (v, d') \<longleftrightarrow>
     1 \<le> qi_count i \<and> qi_count i \<le> 9 \<and> 0 \<le> qi_unit_price i \<and> 0 \<le> qi_taxes i \<and> 0 \<le> qi_total i \<and> currency_ok (qi_currency i) \<and>
     (qi_quote i, qi_flight i) \<notin> (\<lambda>r. (qi_quote r, qi_flight r)) ` set (quote_items d) \<and> qi_quote i \<in> pq_id ` set (quotes d) \<and>
     (qi_flight i, qi_fare i) \<in> (\<lambda>r. (fo_flight r, fo_id r)) ` set (fares d) \<and>
     d' = d\<lparr>quote_items := quote_items d @ [i]\<rparr>"
  by (auto simp: insert_quote_item_def guarded_Inr)

lemma insert_items_Inr:
  assumes "for_each taken (\<lambda>f. stmt (\<lambda>E w. insert_quote_item (item_of E q f) (db w))) E w = (Inr v, w')"
  shows "db w' = (db w)\<lparr>quote_items := quote_items (db w) @ map (item_of E q) taken\<rparr>"
  using assms by (induction taken arbitrary: w) (auto simp: andthen_Inr stmt_Inr insert_quote_item_Inr)

text \<open>What a \<open>quote_Create\<close> that succeeded wrote.\<close>

definition quoted :: "env \<Rightarrow> uuid \<Rightarrow> selection list \<Rightarrow> database \<Rightarrow> quote \<Rightarrow> database \<Rightarrow> bool" where
  "quoted E u items d qt d' \<longleftrightarrow>
     (\<exists>pq taken. priced E d (pq_currency pq) (pq_total pq) taken \<and> map f_id taken = map FareOfferID items \<and>
        map f_count taken = map PassengerCount items \<and>
        pq_user pq = Some u \<and> pq_status pq = Q_ACTIVE \<and> pq_id pq \<notin> pq_id ` set (quotes d) \<and> u \<in> set (users d) \<and>
        qt = \<lparr>q_id = uuid_text E (pq_id pq), q_currency = pq_currency pq, q_total = pq_total pq, q_expires = pq_expires pq\<rparr> \<and>
        d' = d\<lparr>quotes := quotes d @ [pq], quote_items := quote_items d @ map (item_of E (pq_id pq)) taken\<rparr>)"

lemma quote_body_Inr:
  assumes "quote_body user items E w = (Inr t, w')" and "\<forall>fo \<in> set (fares (db w)). fare_check fo"
    and "\<forall>v \<in> set items. 1 \<le> PassengerCount v \<and> PassengerCount v \<le> 9"
  shows "\<exists>qt. t = Commit (Inr qt) \<and> quoted E (uuid_of E user) items (db w) qt (db w') \<and>
    (\<exists>n. q_expires qt = clock E n + 10 * minute)"
proof -
  from assms(1) obtain currency due taken w1 q expires w2 w3 where r:
    "price_items items ([], 0, []) E w = (Inr (currency, due, taken), w1)"
    "stmt (\<lambda>E w. insert_quote (gen_uuid E (pc w) 0) (uuid_of E user) (quote_hash E items) due currency
        (clock E (pc w)) (txn w) (db w)) E w1 = (Inr (q, expires), w2)"
    "for_each taken (\<lambda>f. stmt (\<lambda>E w. insert_quote_item (item_of E q f) (db w))) E w2 = (Inr (), w3)"
    "t = Commit (Inr \<lparr>q_id = uuid_text E q, q_currency = currency, q_total = due, q_expires = expires\<rparr>)" "w' = w3"
    by (auto simp: quote_body_def andthen_Inr reading_Inr ret_Inr)
  from price_items_Inr [OF r(1) priced_start assms(2,3)] have p: "db w1 = db w" "priced E (db w) currency due taken"
    "map f_id taken = map FareOfferID items" "map f_count taken = map PassengerCount items" by auto
  let ?pq = "\<lparr>pq_id = q, pq_user = Some (uuid_of E user), pq_hash = quote_hash E items, pq_status = Q_ACTIVE,
           pq_total = due, pq_currency = currency, pq_expires = expires\<rparr>"
  from r(2) p(1) have q: "q \<notin> pq_id ` set (quotes (db w))" "uuid_of E user \<in> set (users (db w))"
    "db w2 = (db w)\<lparr>quotes := quotes (db w) @ [?pq]\<rparr>" "expires = clock E (pc w1) + 10 * minute"
    by (auto simp: stmt_Inr insert_quote_def guarded_Inr Let_def)
  from insert_items_Inr [OF r(3)] q(3) r(5) have d: "db w' = (db w)\<lparr>quotes := quotes (db w) @ [?pq],
      quote_items := quote_items (db w) @ map (item_of E q) taken\<rparr>" by simp
  have "quoted E (uuid_of E user) items (db w) \<lparr>q_id = uuid_text E q, q_currency = currency, q_total = due, q_expires = expires\<rparr> (db w')"
    unfolding quoted_def by (intro exI [of _ ?pq] exI [of _ taken]) (simp add: p(2-4) q(1,2) d)
  with r(4) q(4) show ?thesis by auto
qed

lemma selections_ok_counts:
  "selections_ok E n prev vs \<Longrightarrow> \<forall>v \<in> set vs. 1 \<le> PassengerCount v \<and> PassengerCount v \<le> 9"
  by (induction vs arbitrary: n prev) (auto split: if_splits)

lemma quote_Create_Inr:
  assumes "quote_Create user items E w = (Inr qt, w')" and "\<forall>fo \<in> set (fares (db w)). fare_check fo"
  shows "quoted E (uuid_of E user) (sort_selections items) (db w) qt (db w') \<and>
    (\<exists>n. q_expires qt = clock E n + 10 * minute) \<and> 1 \<le> length items \<and> length items \<le> 4 \<and>
    selections_ok E 0 None (sort_selections items)"
proof -
  from assms(1) have ok: "selections_ok E 0 None (sort_selections items)" "1 \<le> length items" "length items \<le> 4"
    and run: "in_tx (quote_body user (sort_selections items)) E w = (Inr qt, w')"
    by (auto simp: quote_Create_def andthen_Inr reading_Inr Suc_le_eq split: if_splits)
  from run [unfolded in_tx_def] show ?thesis
  proof (cases rule: in_tx_with_Inr)
    case (rolled_back w2)
    from quote_body_Inr [OF rolled_back(2) _ selections_ok_counts [OF ok(1)]] assms(2) show ?thesis by simp
  next
    case (committed w2)
    from quote_body_Inr [OF committed(2) _ selections_ok_counts [OF ok(1)]] assms(2) committed(4) ok show ?thesis by auto
  qed
qed

text \<open>A failed call leaves nothing: the body commits successes only.\<close>

lemma quote_Create_failed:
  assumes "quote_Create user items E w = (Inl e, w')"
  shows "db w' = db w"
proof (cases "\<not> validate_UUID E user \<or> length items < 1 \<or> length items > 4 \<or> \<not> selections_ok E 0 None (sort_selections items)")
  case True
  with assms show ?thesis by (auto simp: quote_Create_def andthen_def split: if_splits)
next
  case False
  with assms have "in_tx (quote_body user (sort_selections items)) E w = (Inl e, w')"
    by (auto simp: quote_Create_def andthen_def)
  then show ?thesis
    unfolding in_tx_def
  proof (rule in_tx_with_Inl_unchanged)
    show "\<exists>a. q = Inr a" if "quote_body user (sort_selections items) E w = (Inr (Commit q), w')" for E w q w'
      using that by (auto simp: quote_body_def andthen_Inr reading_Inr ret_Inr split: prod.splits)
  qed
qed

end
