(* ===== verification/Commerce.thy ===== *)
theory Commerce
  imports BookingRun QuoteRun HoldRun Ledger Refund
begin

text \<open>
  The invariant that ties the money together: quotes, the bookings made of them, their segments
  and passengers, and the payments.  The operations that only move bookings, seats and payments
  through their states leave its \<open>core\<close> alone.
\<close>

subsection \<open>The invariant\<close>

definition items_of :: "uuid \<Rightarrow> database \<Rightarrow> quote_item list" where
  "items_of q d = filter (\<lambda>i. qi_quote i = q) (quote_items d)"

definition segments_of :: "uuid \<Rightarrow> database \<Rightarrow> segment_row list" where
  "segments_of b d = filter (\<lambda>s. bs_booking s = b) (segments d)"

definition item_ok :: "quote_item \<Rightarrow> bool" where
  "item_ok i \<longleftrightarrow> 0 \<le> qi_unit_price i \<and> 0 \<le> qi_taxes i \<and> 1 \<le> qi_count i \<and> qi_count i \<le> 9 \<and>
     qi_total i = (qi_unit_price i + qi_taxes i) * int (qi_count i)"

text \<open>The terms of an item, as a segment repeats them.\<close>

definition item_terms :: "quote_item \<Rightarrow> uuid \<times> uuid \<times> int \<times> int \<times> string \<times> bool" where
  "item_terms i = (qi_flight i, qi_fare i, qi_unit_price i * int (qi_count i), qi_taxes i * int (qi_count i),
     qi_currency i, qi_refundable i)"

definition segment_terms :: "segment_row \<Rightarrow> uuid \<times> uuid \<times> int \<times> int \<times> string \<times> bool" where
  "segment_terms s = (bs_flight s, bs_fare s, bs_price s, bs_taxes s, bs_currency s, bs_refundable s)"

definition quotes_ok :: "database \<Rightarrow> bool" where
  "quotes_ok d \<longleftrightarrow>
     (\<forall>fo \<in> set (fares d). fare_check fo) \<and> distinct (map pq_id (quotes d)) \<and>
     (\<forall>q \<in> set (quotes d). pq_total q = sum_list (map qi_total (items_of (pq_id q) d)) \<and> pq_total q \<le> MaxInt64) \<and>
     (\<forall>i \<in> set (quote_items d). item_ok i \<and>
        (\<exists>q \<in> set (quotes d). pq_id q = qi_quote i \<and> pq_currency q = qi_currency i))"

definition sold_quote :: "database \<Rightarrow> booking_row \<Rightarrow> price_quote \<Rightarrow> bool" where
  "sold_quote d b q \<longleftrightarrow> q \<in> set (quotes d) \<and> pq_id q = b_quote b \<and> pq_status q = Q_USED \<and> pq_total q = b_total b \<and>
     pq_currency q = b_currency b \<and> pq_user q = b_user b"

definition bookings_ok :: "database \<Rightarrow> bool" where
  "bookings_ok d \<longleftrightarrow>
     distinct (map b_id (bookings d)) \<and> distinct (map b_quote (bookings d)) \<and> distinct (map b_pnr (bookings d)) \<and>
     (\<forall>b \<in> set (bookings d). pnr_ok (b_pnr b) \<and> (\<exists>q. sold_quote d b q) \<and>
        map segment_terms (segments_of (b_id b) d) = map item_terms (items_of (b_quote b) d) \<and>
        count_where (\<lambda>p. bp_booking p = b_id b) (passengers d) \<le> min 9 (expected_count (b_quote b) d)) \<and>
     (\<forall>s \<in> set (segments d). bs_booking s \<in> b_id ` set (bookings d)) \<and>
     (\<forall>p \<in> set (passengers d). bp_booking p \<in> b_id ` set (bookings d)) \<and>
     (\<forall>p \<in> set (payments d). \<exists>b \<in> set (bookings d). b_id b = p_booking p \<and> b_total b = p_amount p \<and> b_currency b = p_currency p)"

definition commerce_ok :: "database \<Rightarrow> bool" where
  "commerce_ok d \<longleftrightarrow> quotes_ok d \<and> bookings_ok d"

lemma quote_itemD:
  assumes "quotes_ok d" and "i \<in> set (quote_items d)"
  shows "item_ok i" and "qi_quote i \<in> pq_id ` set (quotes d)"
  using assms by (auto simp: quotes_ok_def) (metis imageI)

lemma booking_rowsD:
  assumes "bookings_ok d"
  shows "s \<in> set (segments d) \<Longrightarrow> bs_booking s \<in> b_id ` set (bookings d)"
    and "p \<in> set (passengers d) \<Longrightarrow> bp_booking p \<in> b_id ` set (bookings d)"
  using assms by (simp_all add: bookings_ok_def)

text \<open>What it gives for a booking: the price of the booking is what its segments cost.\<close>

lemma sum_terms:
  assumes "map segment_terms ss = map item_terms is" and "\<forall>i \<in> set is. item_ok i"
  shows "sum_list (map (\<lambda>s. bs_price s + bs_taxes s) ss) = sum_list (map qi_total is)"
  using assms
proof (induction "is" arbitrary: ss)
  case Nil
  then show ?case by simp
next
  case (Cons i "is")
  then obtain s ss' where "ss = s # ss'" "segment_terms s = item_terms i" "map segment_terms ss' = map item_terms is" by auto
  with Cons show ?case by (simp add: segment_terms_def item_terms_def item_ok_def distrib_right)
qed

lemma booking_price:
  assumes "commerce_ok d" and "b \<in> set (bookings d)"
  shows "b_total b = sum_list (map (\<lambda>s. bs_price s + bs_taxes s) (segments_of (b_id b) d))" and "b_total b \<le> MaxInt64"
proof -
  from assms obtain q where q: "sold_quote d b q" "map segment_terms (segments_of (b_id b) d) = map item_terms (items_of (b_quote b) d)"
    by (auto simp: commerce_ok_def bookings_ok_def)
  have "\<forall>i \<in> set (items_of (b_quote b) d). item_ok i"
    using assms(1) by (auto simp: commerce_ok_def quotes_ok_def items_of_def)
  from sum_terms [OF q(2) this] q(1) assms(1)
  show "b_total b = sum_list (map (\<lambda>s. bs_price s + bs_taxes s) (segments_of (b_id b) d))" and "b_total b \<le> MaxInt64"
    by (auto simp: commerce_ok_def quotes_ok_def sold_quote_def)
qed

lemma commerce_ok_empty: "commerce_ok empty_db"
  by (simp add: commerce_ok_def quotes_ok_def bookings_ok_def empty_db_def)

subsection \<open>The core of a database\<close>

definition b_core :: "booking_row \<Rightarrow> booking_row" where
  "b_core b = b\<lparr>b_status := B_DRAFT, b_hold := None, b_version := 0\<rparr>"

definition s_core :: "segment_row \<Rightarrow> segment_row" where
  "s_core s = s\<lparr>bs_status := S_DRAFT\<rparr>"

definition p_core :: "payment_row \<Rightarrow> payment_row" where
  "p_core p = p\<lparr>p_status := P_PENDING, p_reference := None, p_version := 0\<rparr>"

definition core :: "database \<Rightarrow> database" where
  "core d = empty_db\<lparr>fares := fares d, quotes := quotes d, quote_items := quote_items d,
     bookings := map b_core (bookings d), segments := map s_core (segments d), passengers := passengers d,
     payments := map p_core (payments d)\<rparr>"

lemma core_fields [simp]:
  "b_id (b_core b) = b_id b" "b_quote (b_core b) = b_quote b" "b_pnr (b_core b) = b_pnr b" "b_total (b_core b) = b_total b"
  "b_currency (b_core b) = b_currency b" "b_user (b_core b) = b_user b" "bs_booking (s_core s) = bs_booking s"
  "segment_terms (s_core s) = segment_terms s" "p_booking (p_core p) = p_booking p" "p_amount (p_core p) = p_amount p"
  "p_currency (p_core p) = p_currency p"
  by (simp_all add: b_core_def s_core_def p_core_def segment_terms_def)

lemma core_tables [simp]:
  "fares (core d) = fares d" "quotes (core d) = quotes d" "quote_items (core d) = quote_items d"
  "passengers (core d) = passengers d" "bookings (core d) = map b_core (bookings d)"
  "segments (core d) = map s_core (segments d)" "payments (core d) = map p_core (payments d)"
  by (simp_all add: core_def)

lemma core_reads [simp]:
  "sold_quote (core d) (b_core b) = sold_quote d b" "expected_count q (core d) = expected_count q d"
  "items_of q (core d) = items_of q d" "map segment_terms (segments_of i (core d)) = map segment_terms (segments_of i d)"
  by (simp_all add: fun_eq_iff sold_quote_def expected_count_def items_of_def segments_of_def filter_map comp_def)

lemma core_ok: "commerce_ok (core d) = commerce_ok d"
  unfolding commerce_ok_def quotes_ok_def bookings_ok_def by (simp add: comp_def image_image)

lemma commerce_cong: "core d' = core d \<Longrightarrow> commerce_ok d' = commerce_ok d"
  by (metis core_ok)

lemma keeps_commerce: "(\<And>c. keeps (\<lambda>d. core d = c) m) \<Longrightarrow> keeps commerce_ok m"
  unfolding keeps_def by (metis core_ok)

lemma core_frame [simp]:
  "core (d\<lparr>seats := x1\<rparr>) = core d" "core (d\<lparr>assignments := x2\<rparr>) = core d" "core (d\<lparr>outbox := x3\<rparr>) = core d"
  "core (d\<lparr>idem_records := x4\<rparr>) = core d" "core (d\<lparr>attempts := x5\<rparr>) = core d" "core (d\<lparr>webhooks := x6\<rparr>) = core d"
  "core (d\<lparr>refunds := x7\<rparr>) = core d" "core (d\<lparr>receipts := x8\<rparr>) = core d"
  by (simp_all add: core_def)

lemma count_where_map:
  "map k xs = map k ys \<Longrightarrow> count_where (\<lambda>r. P (k r)) xs = count_where (\<lambda>r. P (k r)) ys"
proof -
  assume eq: "map k xs = map k ys"
  have "count_where (\<lambda>r. P (k r)) zs = length (filter P (map k zs))" for zs by (simp add: count_where_def filter_map comp_def)
  then show ?thesis by (simp only: eq)
qed

lemma map_update_core: "(\<And>r. k (f r) = k r) \<Longrightarrow> map k (update_where p f rows) = map k rows"
  by (rule map_update_where_keep) blast

lemma core_update_bookings: "(\<And>b. b_core (f b) = b_core b) \<Longrightarrow> core (d\<lparr>bookings := update_where p f (bookings d)\<rparr>) = core d"
  by (simp add: core_def map_update_core)

lemma core_update_segments: "(\<And>s. s_core (f s) = s_core s) \<Longrightarrow> core (d\<lparr>segments := update_where p f (segments d)\<rparr>) = core d"
  by (simp add: core_def map_update_core)

lemma core_update_payments: "(\<And>r. p_core (f r) = p_core r) \<Longrightarrow> core (d\<lparr>payments := update_where p f (payments d)\<rparr>) = core d"
  by (simp add: core_def map_update_core)

end
