(* ===== verification/CommerceRun.thy ===== *)
theory CommerceRun
  imports Commerce LedgerRefund
begin

text \<open>Every operation keeps \<open>commerce_ok\<close>: most leave the core alone, and the four that extend it
  extend it consistently.\<close>

subsection \<open>Operations that leave the core alone\<close>

named_theorems core_rules \<open>introduction rules for runs that leave the core alone\<close>

lemma core_stmt:
  "(\<And>E w a d'. q E w = Inr (a, d') \<Longrightarrow> core d' = core (db w)) \<Longrightarrow> keeps (\<lambda>d. core d = c) (stmt q)"
  by (rule keeps_stmt) simp

lemma core_exec_bookings [core_rules]:
  "(\<And>b. b_core (f b) = b_core b) \<Longrightarrow> keeps (\<lambda>d. core d = c) (exec_update_bookings p f)"
  unfolding exec_update_bookings_def by (rule core_stmt) (auto simp: update_bookings_Inr core_update_bookings)

lemma core_exec_segments [core_rules]:
  "(\<And>s. s_core (f s) = s_core s) \<Longrightarrow> keeps (\<lambda>d. core d = c) (exec_update_segments p f)"
  unfolding exec_update_segments_def by (rule core_stmt) (auto simp: update_segments_Inr core_update_segments)

lemma core_exec_payments [core_rules]:
  "(\<And>r. p_core (f r) = p_core r) \<Longrightarrow> keeps (\<lambda>d. core d = c) (exec_update_payments p f)"
  unfolding exec_update_payments_def
  by (rule core_stmt) (auto simp: update_payments_def Let_def guarded_Inr core_update_payments)

lemma core_exec_other [core_rules]:
  "keeps (\<lambda>d. core d = c) (exec_update_seats ps fs)" "keeps (\<lambda>d. core d = c) (exec_update_assignments pa fa)"
  "keeps (\<lambda>d. core d = c) (exec_update_refunds pr fr)" "keeps (\<lambda>d. core d = c) (exec_update_attempts pt ft)"
  "keeps (\<lambda>d. core d = c) (emit agg ev)" "keeps (\<lambda>d. core d = c) (idem_save rec res resp)"
  "keeps (\<lambda>d. core d = c) (insert_hold params sel h)"
  unfolding exec_update_seats_def exec_update_assignments_def exec_update_refunds_def exec_update_attempts_def
    emit_def idem_save_def insert_hold_def
  by (intro keeps_map_err core_stmt; auto simp: run_simps insert_idem_def Let_def)+

lemma core_inserts [core_rules]:
  "keeps (\<lambda>d. core d = c) (stmt (\<lambda>E w. insert_refund (g1 E w) p1 amount (db w)))"
  "keeps (\<lambda>d. core d = c) (stmt (\<lambda>E w. insert_refund_once (g2 E w) p2 amount (db w)))"
  "keeps (\<lambda>d. core d = c) (stmt (\<lambda>E w. insert_webhook provider event p3 ty (db w)))"
  "keeps (\<lambda>d. core d = c) (stmt (\<lambda>E w. insert_attempt (g4 E w) (k4 E w) p4 (t4 E w) (db w)))"
  by (intro core_stmt; auto simp: insert_attempt_def insert_refund_Inr insert_refund_once_def insert_webhook_def guarded_Inr split: if_splits)+

lemma core_read [core_rules]: "keeps (\<lambda>d. core d = c) (stmt (\<lambda>E w. Inr (f E w, db w)))"
  by (rule core_stmt) simp

lemma core_changes [core_rules]:
  "b_core (b\<lparr>b_status := st, b_version := v\<rparr>) = b_core b" "b_core (b\<lparr>b_status := st, b_hold := h, b_version := v\<rparr>) = b_core b"
  "s_core (s\<lparr>bs_status := sst\<rparr>) = s_core s" "p_core (p\<lparr>p_status := pst, p_version := pv\<rparr>) = p_core p"
  "p_core (p\<lparr>p_status := pst, p_reference := rf, p_version := pv\<rparr>) = p_core p"
  by (simp_all add: b_core_def s_core_def p_core_def)

lemma keeps_sum [core_rules]:
  "(\<And>e. keeps I (f e)) \<Longrightarrow> (\<And>x. keeps I (g x)) \<Longrightarrow> keeps I (case s of Inl e \<Rightarrow> f e | Inr x \<Rightarrow> g x)"
  by (cases s) simp_all

lemma keeps_begun [core_rules]:
  "(\<And>e. keeps I (f e)) \<Longrightarrow> (\<And>x. keeps I (g x)) \<Longrightarrow> keeps I (case b of Fresh e \<Rightarrow> f e | Replay x \<Rightarrow> g x)"
  by (cases b) simp_all

lemma keeps_seat_state [core_rules]:
  "keeps I a1 \<Longrightarrow> keeps I a2 \<Longrightarrow> keeps I a3 \<Longrightarrow> keeps I a4 \<Longrightarrow>
     keeps I (case st of AVAILABLE \<Rightarrow> a1 | SEAT_HELD \<Rightarrow> a2 | BOOKED \<Rightarrow> a3 | BLOCKED \<Rightarrow> a4)"
  by (cases st) simp_all

lemma keeps_booking_status [core_rules]:
  "keeps I b1 \<Longrightarrow> keeps I b2 \<Longrightarrow> keeps I b3 \<Longrightarrow> keeps I (case bst of B_DRAFT \<Rightarrow> b1 | B_HELD \<Rightarrow> b2 | _ \<Rightarrow> b3)"
  by (cases bst) simp_all

lemma core_HoldSeats: "keeps (\<lambda>d. core d = c) (HoldSeats store params)"
proof -
  have select: "keeps (\<lambda>d. core d = c) (apply_selection p ls la t h x)" for p ls la t h x
    unfolding apply_selection_def expire_assignment_def Let_def by (intro keeps_rules core_rules)
  have locks: "keeps (\<lambda>d. core d = c) (hold_locks store p st bh dep nh)" for p st bh dep nh
    unfolding hold_locks_def lockPassengers_def lockFlightSeats_def lockSeatAssignments_def by (intro keeps_rules core_rules)
  have deadline: "keeps (\<lambda>d. core d = c) (hold_deadline store st bh)" for st bh
    unfolding hold_deadline_def by (intro keeps_rules core_rules)
  have work: "keeps (\<lambda>d. core d = c) (hold_work store p rc)" for p rc
    unfolding hold_work_def hold_eligibility_def applySeatAssignments_def markFlightSeatsHeld_def hold_finish_def
    by (intro keeps_rules core_rules select locks deadline)
  show ?thesis
    unfolding HoldSeats_def hold_body_def by (intro keeps_rules core_rules keeps_in_tx_body work)
qed

lemma core_Release: "keeps (\<lambda>d. core d = c) (Release user bid key cancel)"
  unfolding Release_def guarded_tx_def in_tx_def idem_tx_def release_work_def release_finish_def releaseInventory_def
  by (intro keeps_rules core_rules keeps_in_tx_body)

lemma core_ExpireHolds: "keeps (\<lambda>d. core d = c) (ExpireHolds limit)"
  unfolding ExpireHolds_def in_tx_def expire_body_def expire_booking_def releaseInventory_def
  by (intro keeps_rules core_rules keeps_in_tx_body)

lemma core_Apply: "keeps (\<lambda>d. core d = c) (Apply provider event pay result)"
  unfolding Apply_def guarded_tx_def in_tx_def apply_body_def apply_failed_def apply_succeeded_def apply_late_def apply_confirm_def
  by (intro keeps_rules core_rules keeps_in_tx_body)

lemma core_RequestRefund: "keeps (\<lambda>d. core d = c) (RequestRefund user bid key)"
  unfolding RequestRefund_def guarded_tx_def in_tx_def idem_tx_def refund_work_def refund_finish_def
  by (intro keeps_rules core_rules keeps_in_tx_body)

lemmas keeps_commerce_states =
  core_HoldSeats [THEN keeps_commerce] core_Release [THEN keeps_commerce] core_ExpireHolds [THEN keeps_commerce]
  core_Apply [THEN keeps_commerce] core_RequestRefund [THEN keeps_commerce]

lemma core_mark: "keeps (\<lambda>d. core d = c) (mark_reconciliation pay)"
  unfolding mark_reconciliation_def
  by (rule core_stmt)
    (auto simp: Let_def update_payments_def guarded_Inr run_simps core_update_payments core_changes split: sum.splits if_splits)

lemma core_dispatch [core_rules]:
  "keeps (\<lambda>d. core d = c) (dispatch_read pay)" "keeps (\<lambda>d. core d = c) (refund_read pay)"
  "keeps (\<lambda>d. core d = c) (refund_unknown pay)" "keeps (\<lambda>d. core d = c) (in_tx (refund_settle pay))"
  unfolding dispatch_read_def refund_read_def refund_unknown_def in_tx_def refund_settle_def
  by (intro keeps_rules core_rules keeps_in_tx_body)+

lemma Dispatch_commerce:
  assumes "commerce_ok (db w)" and "Dispatch prov pay E (s, w) = (r, s', w')"
  shows "commerce_ok (db w')"
proof -
  have I: "keeps commerce_ok (dispatch_read pay)" "keeps commerce_ok (mark_reconciliation pay)"
    "keeps commerce_ok (Apply p ev q x)" for p ev q x
    by (intro keeps_commerce core_dispatch core_mark core_Apply)+
  show ?thesis
    using assms by (auto simp: Dispatch_def split: option.splits sum.splits prod.splits dest: keepsD [OF I(1)] keepsD [OF I(2)] keepsD [OF I(3)])
qed

lemma DispatchRefund_commerce:
  assumes "commerce_ok (db w)" and "DispatchRefund prov pay E (s, w) = (r, s', w')"
  shows "commerce_ok (db w')"
proof -
  have I: "keeps commerce_ok (refund_read pay)" "keeps commerce_ok (refund_unknown pay)" "keeps commerce_ok (in_tx (refund_settle pay))"
    by (intro keeps_commerce core_dispatch)+
  show ?thesis
    using assms keepsD [OF I(2), of E _ "fst (refund_unknown pay E _)"]
    by (auto simp: DispatchRefund_def split: option.splits sum.splits prod.splits if_splits
        dest: keepsD [OF I(1)] keepsD [OF I(3)] intro!: keepsD [OF I(2) prod.collapse [symmetric]])
qed

subsection \<open>Payments\<close>

lemma commerce_payment:
  assumes "commerce_ok d" and "b \<in> set (bookings d)" and "p_booking p = b_id b" "p_amount p = b_total b" "p_currency p = b_currency b"
  shows "commerce_ok (d\<lparr>payments := payments d @ [p]\<rparr>)"
proof -
  have "sold_quote (d\<lparr>payments := x\<rparr>) = sold_quote d" "items_of q (d\<lparr>payments := x\<rparr>) = items_of q d"
    "segments_of q (d\<lparr>payments := x\<rparr>) = segments_of q d" "expected_count q (d\<lparr>payments := x\<rparr>) = expected_count q d" for x q
    by (simp_all add: fun_eq_iff sold_quote_def items_of_def segments_of_def expected_count_def)
  with assms show ?thesis by (auto simp: commerce_ok_def quotes_ok_def bookings_ok_def)
qed

text \<open>\<open>start_new\<close> after the new row.\<close>

definition start_rest :: "uuid \<Rightarrow> int \<Rightarrow> string \<Rightarrow> idem_record \<Rightarrow> uuid \<Rightarrow> payment tx_end dbact" where
  "start_rest b amount currency rec pid =
     andthen (reading (\<lambda>E. \<lparr>pay_id = uuid_text E pid, pay_status = payment_text P_PENDING,
                pay_currency = currency, pay_amount = amount\<rparr>)) (\<lambda>p.
     andthen (stmt (\<lambda>E w. insert_attempt (gen_uuid E (pc w) 0) (gen_uuid E (pc w) 1) pid (txn w) (db w))) (\<lambda>_.
     andthen (exec_update_bookings (\<lambda>r. b_id r = b)
        (\<lambda>r. r\<lparr>b_status := B_PAYMENT_PENDING, b_version := b_version r + 1\<rparr>)) (\<lambda>_.
     andthen (emit pid ''PAYMENT_REQUESTED'') (\<lambda>_.
     andthen (idem_save rec pid (payment_json p)) (\<lambda>_.
     ret (Commit (Inr p)))))))"

lemma start_new_core:
  assumes "start_new b amount currency rec E w = (Inr x, w')"
  shows "\<exists>p. p_booking p = b \<and> p_amount p = amount \<and> p_currency p = currency \<and>
    core (db w') = core ((db w)\<lparr>payments := payments (db w) @ [p]\<rparr>)"
proof -
  from assms obtain pid w1 where s:
    "stmt (\<lambda>E w. insert_payment (gen_uuid E (pc w) 0) b amount currency (db w)) E w = (Inr pid, w1)"
    "start_rest b amount currency rec pid E w1 = (Inr x, w')"
    unfolding start_new_def start_rest_def andthen_Inr by blast
  let ?p = "\<lparr>p_id = pid, p_booking = b, p_amount = amount, p_currency = currency, p_status = P_PENDING, p_reference = None, p_version = 1\<rparr>"
  from s(1) have p: "db w1 = (db w)\<lparr>payments := payments (db w) @ [?p]\<rparr>"
    by (auto simp: stmt_Inr insert_payment_def guarded_Inr)
  have "keeps (\<lambda>d. core d = core (db w1)) (start_rest b amount currency rec pid)"
    unfolding start_rest_def by (intro keeps_rules core_rules)
  from keepsD [OF this s(2)] have "core (db w') = core (db w1)" by simp
  with p show ?thesis by (intro exI [of _ ?p]) simp
qed

lemma keeps_commerce_Start: "keeps commerce_ok (Start user bid key)"
  unfolding Start_def
proof (rule keeps_guarded_idem)
  fix rec E w r w'
  assume old: "commerce_ok (db w)" and run: "start_work user bid rec E w = (Inr (Commit r), w')"
  from start_work_Inr [OF run] show "commerce_ok (db w')"
  proof (elim disjE exE conjE)
    fix p
    assume "db w' = (db w)\<lparr>idem_records := idem_records (db w) @ [\<lparr>ir_user = uuid_of E (rec_user rec), ir_route = rec_route rec,
        ir_key = rec_key rec, ir_hash = rec_hash rec, ir_resource = p_id p, ir_response = payment_json (payment_of E p)\<rparr>]\<rparr>"
    then have "core (db w') = core (db w)" by simp
    with old show ?thesis by (metis commerce_cong)
  next
    fix b w1
    assume b: "owned_booking (uuid_of E bid) (uuid_of E user) (db w) = Some b" and w1: "db w1 = db w"
      and new: "start_new (uuid_of E bid) (b_total b) (b_currency b) rec E w1 = (Inr (Commit r), w')"
    from b have row: "b \<in> set (bookings (db w))" "b_id b = uuid_of E bid"
      using find_row_SomeD unfolding owned_booking_def by fastforce+
    from start_new_core [OF new] w1 obtain p where p: "p_booking p = uuid_of E bid" "p_amount p = b_total b"
      "p_currency p = b_currency b" "core (db w') = core ((db w)\<lparr>payments := payments (db w) @ [p]\<rparr>)" by auto
    from commerce_payment [OF old row(1), of p] p row(2) show ?thesis using commerce_cong [OF p(4)] by simp
  qed
qed

subsection \<open>New bookings\<close>

lemma map2_terms:
  "map segment_terms (map2 (segment_of ids b) ns is) = map item_terms is" if "length ns = length is"
  using that
proof (induction "is" arbitrary: ns)
  case Nil
  then show ?case by simp
next
  case (Cons i "is")
  then show ?case by (cases ns) (simp_all add: segment_terms_def item_terms_def segment_of_def)
qed

lemma new_segments_terms: "map segment_terms (new_segments ids b q d) = map item_terms (items_of q d)"
  unfolding new_segments_def items_of_def Let_def by (rule map2_terms) simp

lemma new_segments_booking: "s \<in> set (new_segments ids b q d) \<Longrightarrow> bs_booking s = b"
  by (auto simp: new_segments_def Let_def segment_of_def dest: set_zip_rightD)

lemma created_commerce:
  assumes old: "commerce_ok d" and new: "created E u pq d s d'"
  shows "commerce_ok d'"
proof -
  from new obtain r ids segs ob ir where pq: "pq \<in> set (quotes d)" "pq_user pq = Some u"
    and r: "fresh_booking u (pq_id pq) (pq_total pq) (pq_currency pq) d r" and segs: "segs = new_segments ids (b_id r) (pq_id pq) d"
    and d': "d' = d\<lparr>bookings := bookings d @ [r], segments := segments d @ segs,
               quotes := update_where (\<lambda>x. pq_id x = pq_id pq) (\<lambda>x. x\<lparr>pq_status := Q_USED\<rparr>) (quotes d), outbox := ob, idem_records := ir\<rparr>"
    unfolding created_def by blast
  let ?use = "\<lambda>x. x\<lparr>pq_status := Q_USED\<rparr>"
  let ?q = "pq_id pq"
  from r have n: "r = new_booking (b_id r) u ?q (b_pnr r) (pq_total pq) (pq_currency pq) (b_created r)" by (simp add: fresh_booking_def)
  have row: "b_quote r = ?q" "b_total r = pq_total pq" "b_currency r = pq_currency pq" "b_user r = Some u"
    by (subst n, simp add: new_booking_def)+
  from r have fresh: "b_id r \<notin> b_id ` set (bookings d)" "?q \<notin> b_quote ` set (bookings d)" "b_pnr r \<notin> b_pnr ` set (bookings d)" "pnr_ok (b_pnr r)"
    by (auto simp: fresh_booking_def booking_check_def)
  from old have q: "quotes_ok d" and b: "bookings_ok d" by (simp_all add: commerce_ok_def)
  have items: "items_of x d' = items_of x d" "expected_count x d' = expected_count x d" for x
    unfolding d' by (simp_all add: items_of_def expected_count_def)
  have "quotes_ok d'"
  proof -
    have "map pq_id (quotes d') = map pq_id (quotes d)" unfolding d' by (simp add: map_update_where_keep)
    moreover have "fares d' = fares d" "quote_items d' = quote_items d" unfolding d' by simp_all
    moreover have "\<exists>y \<in> set (quotes d). pq_id x = pq_id y \<and> pq_total x = pq_total y \<and> pq_currency x = pq_currency y"
      if x: "x \<in> set (quotes d')" for x
    proof -
      from x obtain y where "y \<in> set (quotes d)" "x = (if pq_id y = ?q then ?use y else y)" unfolding d' by (auto simp: set_update_where)
      then show ?thesis by (intro bexI [of _ y]) auto
    qed
    moreover have "\<exists>y \<in> set (quotes d'). pq_id x = pq_id y \<and> pq_currency x = pq_currency y" if "x \<in> set (quotes d)" for x
      using that unfolding d'
      by (intro bexI [of _ "if pq_id x = ?q then ?use x else x"]) (auto simp: set_update_where)
    ultimately show ?thesis using q unfolding quotes_ok_def items by (metis (no_types, lifting))
  qed
  moreover have "bookings_ok d'"
  proof -
    have sold_old: "sold_quote d' x y" if "sold_quote d x y" "x \<in> set (bookings d)" for x y
    proof -
      from that(2) fresh(2) have "b_quote x \<noteq> ?q" by (metis imageI)
      with that(1) have "pq_id y \<noteq> ?q" by (simp add: sold_quote_def)
      with that(1) show ?thesis unfolding d' by (auto simp: sold_quote_def intro: in_update_where_same)
    qed
    have sold_new: "sold_quote d' r (?use pq)"
      unfolding sold_quote_def d' using pq row by (auto intro: in_update_where [where f = ?use])
    have seg_old: "segments_of (b_id x) d' = segments_of (b_id x) d" if "x \<in> set (bookings d)" for x
      using that fresh(1) new_segments_booking [of _ ids "b_id r" ?q d]
      unfolding d' segs by (auto simp: segments_of_def filter_empty_conv)
    have none: "filter (\<lambda>s. bs_booking s = b_id r) (segments d) = []" "count_where (\<lambda>p. bp_booking p = b_id r) (passengers d) = 0"
      unfolding filter_empty_conv count_where_0_iff using booking_rowsD [OF b] fresh(1) by metis+
    have "segments_of (b_id r) d' = segs"
      using none(1) new_segments_booking [of _ ids "b_id r" ?q d] unfolding d' segs by (simp add: segments_of_def filter_id_conv)
    then have seg_new: "map segment_terms (segments_of (b_id r) d') = map item_terms (items_of (b_quote r) d')"
      by (simp add: items row(1) segs new_segments_terms)
    have bk: "bookings d' = bookings d @ [r]" and rest: "passengers d' = passengers d" "payments d' = payments d" unfolding d' by simp_all
    have "bs_booking x \<in> b_id ` set (bookings d')" if "x \<in> set (segments d')" for x
      using that b new_segments_booking [of x ids "b_id r" ?q d] unfolding d' segs by (auto simp: bookings_ok_def)
    moreover have "\<exists>y. sold_quote d' x y" if "x \<in> set (bookings d)" for x
      using b that sold_old by (auto simp: bookings_ok_def) (metis that)
    moreover have "\<exists>y. sold_quote d' r y" using sold_new ..
    ultimately show ?thesis using b seg_old seg_new fresh none(2) row(1)
      unfolding bookings_ok_def bk rest items by auto
  qed
  ultimately show ?thesis by (simp add: commerce_ok_def)
qed

lemma keeps_commerce_Create: "keeps commerce_ok (Create user quoteID key)"
  by (rule keeps_Create) (rule created_commerce)

subsection \<open>Passengers\<close>

lemma saved_passenger_commerce:
  assumes old: "commerce_ok d" and saved: "saved_passenger E b p d p' d'"
  shows "commerce_ok d'"
proof -
  from saved obtain t ob where d': "d' = d\<lparr>passengers := t, idem_records := ob\<rparr>" unfolding saved_passenger_def by blast
  have frame: "sold_quote d' = sold_quote d" "items_of x d' = items_of x d" "segments_of x d' = segments_of x d"
    "expected_count x d' = expected_count x d" "quotes_ok d' = quotes_ok d" for x
    unfolding d' by (simp_all add: fun_eq_iff sold_quote_def items_of_def segments_of_def expected_count_def quotes_ok_def)
  have same: "bookings d' = bookings d" "segments d' = segments d" "payments d' = payments d" unfolding d' by simp_all
  from old have ok: "bookings_ok d" "quotes_ok d" by (simp_all add: commerce_ok_def)
  have "(\<forall>x \<in> set (bookings d). count_where (\<lambda>p. bp_booking p = b_id x) (passengers d') \<le> min 9 (expected_count (b_quote x) d)) \<and>
    (\<forall>p \<in> set (passengers d'). bp_booking p \<in> b_id ` set (bookings d))"
  proof (cases "pg_id p = []")
    case True
    let ?row = "\<lambda>new. \<lparr>bp_id = new, bp_booking = b, bp_type = pg_type p, bp_first = pg_first p,
                               bp_last = pg_last p, bp_dob = map_option to_date (pg_dob p)\<rparr>"
    obtain new t ob r where h: "d' = d\<lparr>passengers := t, idem_records := ob\<rparr>" "t = passengers d @ [?row new]"
      "r \<in> set (bookings d)" "b_id r = b" "count_where (\<lambda>r. bp_booking r = b) (passengers d) < 9"
      "count_where (\<lambda>r. bp_booking r = b) (passengers d) < expected_count (b_quote r) d"
      using saved unfolding saved_passenger_def if_P [OF True] by (elim exE conjE bexE) (rule that; assumption)
    then have "passengers d' = passengers d @ [?row new]" by simp
    note n = this h(3-6)
    have "x = r" if "x \<in> set (bookings d)" "b_id x = b" for x
      using ok(1) that n(2,3) by (auto simp: bookings_ok_def intro: distinct_map_same)
    then have "count_where (\<lambda>p. bp_booking p = b_id x) (passengers d') \<le> min 9 (expected_count (b_quote x) d)"
      if "x \<in> set (bookings d)" for x
      using that n(1,3-5) ok(1) by (cases "b_id x = b") (auto simp: bookings_ok_def count_where_def)
    moreover have "bp_booking p \<in> b_id ` set (bookings d)" if "p \<in> set (passengers d')" for p
      using that n(1-3) booking_rowsD(2) [OF ok(1), of p] by auto
    ultimately show ?thesis by blast
  next
    case False
    let ?f = "\<lambda>r. r\<lparr>bp_type := pg_type p, bp_first := pg_first p, bp_last := pg_last p, bp_dob := map_option to_date (pg_dob p)\<rparr>"
    obtain new t ob where h: "d' = d\<lparr>passengers := t, idem_records := ob\<rparr>"
      "t = update_where (\<lambda>r. bp_booking r = b \<and> bp_id r = new) ?f (passengers d)"
      using saved unfolding saved_passenger_def if_not_P [OF False] by (elim exE conjE) (rule that; assumption)
    then have "passengers d' = update_where (\<lambda>r. bp_booking r = b \<and> bp_id r = new) ?f (passengers d)" by simp
    then have "map bp_booking (passengers d') = map bp_booking (passengers d)" by (simp add: map_update_where_keep)
    then have "count_where (\<lambda>p. bp_booking p = x) (passengers d') = count_where (\<lambda>p. bp_booking p = x) (passengers d)"
      "bp_booking ` set (passengers d') = bp_booking ` set (passengers d)" for x
      using count_where_map [of bp_booking "passengers d'" "passengers d" "\<lambda>y. y = x"] by (simp, metis set_map)
    moreover from this(2) have "bp_booking p \<in> b_id ` set (bookings d)" if "p \<in> set (passengers d')" for p
      using that booking_rowsD(2) [OF ok(1)] by (metis (no_types, lifting) imageE imageI)
    ultimately show ?thesis using ok(1) by (simp add: bookings_ok_def)
  qed
  with ok show ?thesis unfolding commerce_ok_def bookings_ok_def frame same by auto
qed

lemma keeps_commerce_SavePassenger: "keeps commerce_ok (SavePassenger user bid key p)"
  by (rule keeps_SavePassenger) (rule saved_passenger_commerce)

subsection \<open>Quotes\<close>

lemma expected_items: "items_of q d' = items_of q d \<Longrightarrow> expected_count q d' = expected_count q d"
  by (simp add: expected_count_def items_of_def)

lemma quoted_commerce:
  assumes old: "commerce_ok d" and new: "quoted E u items d qt d'"
  shows "commerce_ok d'"
proof -
  from new obtain pq taken where p: "priced E d (pq_currency pq) (pq_total pq) taken"
    and fresh: "pq_id pq \<notin> pq_id ` set (quotes d)"
    and d': "d' = d\<lparr>quotes := quotes d @ [pq], quote_items := quote_items d @ map (item_of E (pq_id pq)) taken\<rparr>"
    unfolding quoted_def by blast
  let ?new = "map (item_of E (pq_id pq)) taken"
  from old have q: "quotes_ok d" and b: "bookings_ok d" by (simp_all add: commerce_ok_def)
  have mine: "qi_quote i = pq_id pq" if "i \<in> set ?new" for i using that by (auto simp: item_of_def)
  have split: "items_of x d' = items_of x d @ filter (\<lambda>i. qi_quote i = x) ?new" for x
    unfolding d' by (simp add: items_of_def)
  have "items_of (pq_id pq) d = []" unfolding items_of_def filter_empty_conv using quote_itemD(2) [OF q] fresh by metis
  moreover have "filter (\<lambda>i. qi_quote i = pq_id pq) ?new = ?new" using mine by (simp only: filter_id_conv) blast
  ultimately have items_new: "items_of (pq_id pq) d' = ?new" by (simp only: split append_Nil)
  have items_old: "items_of x d' = items_of x d" if x: "x \<in> pq_id ` set (quotes d)" for x
  proof -
    have "x \<noteq> pq_id pq" using x fresh by blast
    then have "filter (\<lambda>i. qi_quote i = x) ?new = []" using mine by (simp only: filter_empty_conv) blast
    then show ?thesis by (simp only: split append_Nil2)
  qed
  have terms: "qi_total (item_of E (pq_id pq) f) = exact_total f \<and> item_ok (item_of E (pq_id pq) f) \<and>
      qi_currency (item_of E (pq_id pq) f) = pq_currency pq" if "f \<in> set taken" for f
    using p that by (auto simp: priced_def item_of_def item_ok_def fare_ok_def exact_total_def)
  then have "sum_list (map qi_total ?new) = sum_list (map exact_total taken)"
    by (simp add: comp_def cong: map_cong)
  with p have total: "pq_total pq = sum_list (map qi_total (items_of (pq_id pq) d'))" "pq_total pq \<le> MaxInt64"
    by (simp_all add: priced_def items_new)
  have tables: "quotes d' = quotes d @ [pq]" "quote_items d' = quote_items d @ ?new" "fares d' = fares d"
    "bookings d' = bookings d" "segments d' = segments d" "passengers d' = passengers d" "payments d' = payments d"
    unfolding d' by simp_all
  have "quotes_ok d'"
  proof -
    have "pq_total x = sum_list (map qi_total (items_of (pq_id x) d')) \<and> pq_total x \<le> MaxInt64" if "x \<in> set (quotes d @ [pq])" for x
    proof (cases "x = pq")
      case False
      with that have x: "x \<in> set (quotes d)" by simp
      with q have "pq_total x = sum_list (map qi_total (items_of (pq_id x) d)) \<and> pq_total x \<le> MaxInt64"
        unfolding quotes_ok_def by blast
      then show ?thesis unfolding items_old [OF imageI [OF x]] .
    qed (use total in simp)
    moreover have "item_ok i \<and> (\<exists>x \<in> set (quotes d @ [pq]). pq_id x = qi_quote i \<and> pq_currency x = qi_currency i)"
      if i: "i \<in> set (quote_items d @ ?new)" for i
    proof (cases "i \<in> set (quote_items d)")
      case True
      with q have "item_ok i" "\<exists>x \<in> set (quotes d). pq_id x = qi_quote i \<and> pq_currency x = qi_currency i" by (simp_all add: quotes_ok_def)
      then show ?thesis by auto
    next
      case False
      with i obtain f where "f \<in> set taken" "i = item_of E (pq_id pq) f" by auto
      with terms mine [of i] i False show ?thesis by auto
    qed
    moreover have "\<forall>fo \<in> set (fares d). fare_check fo" "distinct (map pq_id (quotes d @ [pq]))"
      using q fresh by (simp_all add: quotes_ok_def)
    ultimately show ?thesis unfolding quotes_ok_def tables by blast
  qed
  moreover have "bookings_ok d'"
  proof -
    have "b_quote x \<in> pq_id ` set (quotes d)" if "x \<in> set (bookings d)" for x
    proof -
      from b that obtain y where "y \<in> set (quotes d)" "pq_id y = b_quote x" by (auto simp: bookings_ok_def sold_quote_def)
      then show ?thesis by force
    qed
    note same = items_old [OF this] expected_items [OF items_old [OF this]]
    have "\<exists>y. sold_quote d' x y" if "x \<in> set (bookings d)" for x
    proof -
      from b that obtain y where "sold_quote d x y" by (auto simp: bookings_ok_def)
      then have "sold_quote d' x y" by (simp add: sold_quote_def tables)
      then show ?thesis ..
    qed
    moreover have "segments_of x d' = segments_of x d" for x by (simp add: segments_of_def tables)
    ultimately show ?thesis using b same unfolding bookings_ok_def tables by auto
  qed
  ultimately show ?thesis by (simp add: commerce_ok_def)
qed

lemma quotes_ok_fares: "commerce_ok d \<Longrightarrow> \<forall>fo \<in> set (fares d). fare_check fo"
  by (simp add: commerce_ok_def quotes_ok_def)

lemma keeps_commerce_quote: "keeps commerce_ok (quote_Create user items)"
proof (rule keepsI)
  fix E w r w'
  assume I: "commerce_ok (db w)" and run: "quote_Create user items E w = (r, w')"
  show "commerce_ok (db w')"
  proof (cases r)
    case (Inl e)
    with run I quote_Create_failed [of user items E w e w'] show ?thesis by simp
  next
    case (Inr qt)
    with quote_Create_Inr [of user items E w qt w'] run quotes_ok_fares [OF I] I show ?thesis
      by (blast intro: quoted_commerce)
  qed
qed

end
