(* ===== verification/Paging.thy ===== *)
theory Paging
  imports Prelude
begin

text \<open>
  Keyset paging, as the list endpoints do it: rows are sorted by an order that is total on their keys,
  a page is the first rows of the sorted list, and the next page sorts the rows after the last one
  shown.  The locale \<open>keyset\<close> is the contract of such an order.
\<close>

lemma filter_insert_by:
  assumes trans: "\<And>a b c. \<not> lt b a \<Longrightarrow> \<not> lt c b \<Longrightarrow> \<not> lt c a" and "sorted_wrt (\<lambda>a b. \<not> lt b a) ys"
  shows "filter P (insert_by lt x ys) = (if P x then insert_by lt x (filter P ys) else filter P ys)"
  using assms(2)
proof (induction ys)
  case Nil
  then show ?case by simp
next
  case (Cons y ys)
  show ?case
  proof (cases "lt y x")
    case True
    with Cons show ?thesis by simp
  next
    case False
    with Cons.prems trans have "\<forall>z \<in> set (filter P ys). \<not> lt z x" by auto
    with False show ?thesis by (auto simp: insert_by_least)
  qed
qed

lemma filter_sort_by:
  assumes "\<And>a b. lt a b \<Longrightarrow> \<not> lt b a" and "\<And>a b c. \<not> lt b a \<Longrightarrow> \<not> lt c b \<Longrightarrow> \<not> lt c a"
  shows "filter P (sort_by lt xs) = sort_by lt (filter P xs)"
  by (induction xs) (simp_all add: filter_insert_by [OF assms(2) sorted_wrt_sort_by [OF assms]])

locale keyset =
  fixes lt :: "'a \<Rightarrow> 'a \<Rightarrow> bool" and key :: "'a \<Rightarrow> 'k"
  assumes asym: "lt a b \<Longrightarrow> \<not> lt b a"
    and weak: "\<not> lt b a \<Longrightarrow> \<not> lt c b \<Longrightarrow> \<not> lt c a"
    and total: "key a \<noteq> key b \<Longrightarrow> lt a b \<or> lt b a"
begin

lemma sorted_strictly:
  assumes "distinct (map key rows)"
  shows "sorted_wrt lt (sort_by lt rows)"
proof -
  have "sorted_wrt (\<lambda>a b. \<not> lt b a) (sort_by lt rows)"
    by (rule sorted_wrt_sort_by [OF asym weak])
  moreover have "distinct (map key (sort_by lt rows))"
    using assms by simp
  ultimately show ?thesis
    unfolding sorted_wrt_iff_nth_less
    using total nth_eq_iff_index_eq [of "map key (sort_by lt rows)"] by (metis length_map nat_neq_iff nth_map order_less_trans)
qed

lemma after_sorted:
  assumes "sorted_wrt lt (xs @ c # ys)"
  shows "filter (lt c) (xs @ c # ys) = ys"
proof -
  from assms have "\<forall>r \<in> set xs. lt r c" "\<forall>r \<in> set ys. lt c r" by (auto simp: sorted_wrt_append)
  then have "filter (lt c) xs = []" "filter (lt c) ys = ys"
    using asym by (auto simp: filter_empty_conv filter_id_conv)
  with asym [of c c] show ?thesis by auto
qed

lemma next_page:
  assumes "distinct (map key rows)" and "sort_by lt rows = xs @ c # ys"
  shows "sort_by lt (filter (lt c) rows) = ys"
proof -
  have "sort_by lt (filter (lt c) rows) = filter (lt c) (sort_by lt rows)"
    by (rule filter_sort_by [OF asym weak, symmetric])
  with after_sorted [of xs c ys] sorted_strictly [OF assms(1)] assms(2) show ?thesis by simp
qed

end

text \<open>A join that finds at most one row for each row of a table keeps the table's keys distinct.\<close>

lemma distinct_join:
  assumes "distinct (map k xs)" and "\<And>x. x \<in> set xs \<Longrightarrow> length (g x) \<le> 1" and "\<And>x y. y \<in> set (g x) \<Longrightarrow> h y = k x"
  shows "distinct (map h (concat (map g xs)))"
  using assms(1,2)
proof (induction xs)
  case Nil
  then show ?case by simp
next
  case (Cons x xs)
  from Cons.prems(2) [of x] have one: "g x = [] \<or> (\<exists>y. g x = [y])" by (cases "g x") auto
  have "h z \<noteq> k x" if "z \<in> set (concat (map g xs))" for z
  proof -
    from that obtain y where "y \<in> set xs" "z \<in> set (g y)" by auto
    with assms(3) have "h z = k y" by blast
    with \<open>y \<in> set xs\<close> Cons.prems(1) show ?thesis by force
  qed
  then have "k x \<notin> h ` set (concat (map g xs))" by (metis imageE)
  moreover have "distinct (map h (concat (map g xs)))" using Cons by auto
  ultimately show ?case using one assms(3) [of _ x] by auto
qed

end
