(* ===== verification/BookingProps.thy ===== *)
theory BookingProps
  imports CommerceRun Demo Paging
begin

text \<open>The properties of quotes and of bookings up to their first hold, with their witnesses.\<close>

interpretation newest: keyset "\<lambda>a b. older b a" b_id
  by unfold_locales (auto simp: older_def)

text \<open>The whole list of a user, newest first, and the page after a row of it.\<close>

definition history :: "uuid \<Rightarrow> database \<Rightarrow> booking_row list" where
  "history u d = sort_by (\<lambda>a b. older b a) (filter (\<lambda>r. b_user r = Some u) (bookings d))"

lemma list_rows_first: "list_rows u None n d = take n (history u d)"
  by (simp add: list_rows_def history_def)

lemma list_rows_next:
  assumes ids: "distinct (map b_id (bookings d))" and h: "history u d = xs @ c # ys"
  shows "list_rows u (Some (b_id c)) n d = take n ys"
proof -
  have "c \<in> set (history u d)" using h by simp
  then have c: "c \<in> set (bookings d)" "b_user c = Some u" by (auto simp: history_def)
  then have "owned_booking (b_id c) u d \<noteq> None" by (auto simp: owned_booking_def find_row_None_iff)
  then obtain r where r: "owned_booking (b_id c) u d = Some r" by blast
  with find_row_SomeD [OF r [unfolded owned_booking_def]] c ids have rc: "r = c" by (auto simp: distinct_map inj_on_def)
  have "distinct (map b_id (filter (\<lambda>x. b_user x = Some u) (bookings d)))"
    using ids by (rule distinct_map_filter)
  from newest.next_page [OF this h [unfolded history_def]] show ?thesis
    by (simp add: list_rows_def r rc conj_commute)
qed

lemma booking_List_Inr:
  assumes "booking_List user after limit E w = (Inr page, w')"
  shows "page = map (summary_of E) (list_rows (uuid_of E user) (if after = [] then None else Some (uuid_of E after)) (nat limit) (db w))"
    and "1 \<le> limit"
  using assms by (auto simp: booking_List_def andthen_Inr reading_Inr run_simps split: if_splits prod.splits)

subsection \<open>Listing\<close>



text \<open>User 1 with two bookings, the newer of which has the locator \<^verbatim>\<open>BBBBBBBB\<close>.\<close>

definition demo_newer :: booking_row where
  "demo_newer = (demo_booking 22 1 42 ''BBBBBBBB'')\<lparr>b_created := 7\<rparr>"

definition demo_listed :: "database world" where
  "demo_listed = demo_world (demo_db\<lparr>bookings := [demo_booking 2 1 41 ''AAAAAAAA'', demo_newer]\<rparr>)"

definition demo_page :: "string \<Rightarrow> int \<Rightarrow> summary list" where
  "demo_page after n = projr (fst (booking_List (demo_text 1) after n demo_env demo_listed))"

lemma demo_list_facts:
  "case fst (booking_List (demo_text 1) [] 1 demo_env demo_listed) of Inr v \<Rightarrow> map sm_id v = [demo_text 22] | _ \<Rightarrow> False"
  "case fst (booking_List (demo_text 1) (demo_text 22) 1 demo_env demo_listed) of Inr v \<Rightarrow> True | _ \<Rightarrow> False"
  "case fst (booking_List (demo_text 1) [] 2 demo_env demo_listed) of Inr v \<Rightarrow> True | _ \<Rightarrow> False"
  by code_simp+

lemma demo_list_runs:
  "booking_List (demo_text 1) [] 1 demo_env demo_listed = (Inr (demo_page [] 1), snd (booking_List (demo_text 1) [] 1 demo_env demo_listed))"
  "booking_List (demo_text 1) (demo_text 22) 1 demo_env demo_listed =
     (Inr (demo_page (demo_text 22) 1), snd (booking_List (demo_text 1) (demo_text 22) 1 demo_env demo_listed))"
  "booking_List (demo_text 1) [] 2 demo_env demo_listed = (Inr (demo_page [] 2), snd (booking_List (demo_text 1) [] 2 demo_env demo_listed))"
  "map sm_id (demo_page [] 1) = [demo_text 22]"
  using demo_list_facts by (auto simp: demo_page_def prod_eq_iff split: sum.splits)


subsection \<open>Quotes\<close>

text \<open>The tests the code makes before it adds a fare are exact: computed in wrapping 64-bit
  arithmetic, they reject a fare exactly when the new total would exceed the largest \<^verbatim>\<open>int64\<close>, and
  then the stored total is the exact one.\<close>

theorem overflow_tests_exact:
  assumes "fare_ok f" and "0 \<le> due" and "due \<le> MaxInt64"
  shows "(overflows due f \<longleftrightarrow> due + (f_price f + f_taxes f) * f_count f > MaxInt64) \<and>
    (\<not> overflows due f \<longrightarrow> wrap64 (due + fare_total f) = due + (f_price f + f_taxes f) * f_count f)"
  using overflows_iff [OF assms] fare_total_exact(2) [OF assms] by (simp add: exact_total_def)

definition demo_huge :: fare where
  "demo_huge = \<lparr>f_id = [], f_flight = [], f_currency = ''EGP'', f_count = 9, f_price = 2 ^ 62, f_taxes = 2 ^ 62, f_refundable = True\<rparr>"

theorem overflow_tests_exact_witness: "overflows 0 demo_huge"
  using overflow_tests_exact [of demo_huge 0] by (simp add: demo_huge_def fare_ok_def MaxInt64_def)

text \<open>C24. A quote adds up: a successful request stores one new ACTIVE quote of its user with one
  item for each requested fare, in its passenger count and at the price and taxes of the offer; the
  flights are different, and the total, which fits into 64 bits, is the exact sum over the items.\<close>

theorem quote_adds_up:
  assumes run: "quote_Create user items E w = (Inr qt, w')" and old: "quotes_ok (db w)"
  shows "\<exists>pq new. quotes (db w') = quotes (db w) @ [pq] \<and> quote_items (db w') = quote_items (db w) @ new \<and>
    bookings (db w') = bookings (db w) \<and> fares (db w') = fares (db w) \<and>
    pq_user pq = Some (uuid_of E user) \<and> pq_status pq = Q_ACTIVE \<and> q_id qt = uuid_text E (pq_id pq) \<and> q_total qt = pq_total pq \<and>
    pq_total pq = sum_list (map (\<lambda>i. (qi_unit_price i + qi_taxes i) * int (qi_count i)) new) \<and> pq_total pq \<le> MaxInt64 \<and>
    map (\<lambda>i. (qi_fare i, int (qi_count i))) new = map (\<lambda>v. (uuid_of E (FareOfferID v), PassengerCount v)) (sort_selections items) \<and>
    (\<forall>i \<in> set new. \<exists>fo \<in> set (fares (db w)). fo_id fo = qi_fare i \<and> fo_price fo = qi_unit_price i \<and> fo_taxes fo = qi_taxes i \<and>
       fo_currency fo = pq_currency pq)"
proof -
  have "\<forall>fo \<in> set (fares (db w)). fare_check fo" using old by (simp add: quotes_ok_def)
  from quote_Create_Inr [OF run this] obtain pq taken where q: "priced E (db w) (pq_currency pq) (pq_total pq) taken"
    "map f_id taken = map FareOfferID (sort_selections items)" "map f_count taken = map PassengerCount (sort_selections items)"
    "pq_user pq = Some (uuid_of E user)" "pq_status pq = Q_ACTIVE"
    "qt = \<lparr>q_id = uuid_text E (pq_id pq), q_currency = pq_currency pq, q_total = pq_total pq, q_expires = pq_expires pq\<rparr>"
    "db w' = (db w)\<lparr>quotes := quotes (db w) @ [pq], quote_items := quote_items (db w) @ map (item_of E (pq_id pq)) taken\<rparr>"
    unfolding quoted_def by blast
  note p = q(1) [unfolded priced_def]
  have count: "0 \<le> f_count f" if "f \<in> set taken" for f using p that by (force simp: fare_ok_def)
  have total: "pq_total pq = sum_list (map (\<lambda>i. (qi_unit_price i + qi_taxes i) * int (qi_count i)) (map (item_of E (pq_id pq)) taken))"
    using p count by (auto simp: item_of_def exact_total_def comp_def intro!: arg_cong [where f = sum_list])
  have "map (\<lambda>i. (qi_fare i, int (qi_count i))) (map (item_of E (pq_id pq)) taken) = zip (map (uuid_of E) (map f_id taken)) (map f_count taken)"
    by (simp add: item_of_def zip_map_map zip_same_conv_map count)
  also have "\<dots> = map (\<lambda>v. (uuid_of E (FareOfferID v), PassengerCount v)) (sort_selections items)"
    unfolding q(2,3) by (simp add: zip_map_map zip_same_conv_map)
  finally have terms: "map (\<lambda>i. (qi_fare i, int (qi_count i))) (map (item_of E (pq_id pq)) taken) =
      map (\<lambda>v. (uuid_of E (FareOfferID v), PassengerCount v)) (sort_selections items)" .
  have "\<exists>fo \<in> set (fares (db w)). fo_id fo = qi_fare (item_of E q f) \<and> fo_price fo = qi_unit_price (item_of E q f) \<and>
      fo_taxes fo = qi_taxes (item_of E q f) \<and> fo_currency fo = pq_currency pq" if "f \<in> set taken" for f q
  proof -
    from p that obtain fo where fo: "fo \<in> set (fares (db w))" "fo_id fo = uuid_of E (f_id f)" "f_currency f = pq_currency pq"
      "f = fare_of E \<lparr>FareOfferID = f_id f, PassengerCount = f_count f\<rparr> fo" by (auto simp: taken_from_def)
    have "f_price f = fo_price fo" "f_taxes f = fo_taxes fo" "f_currency f = fo_currency fo"
      by (subst fo(4), simp add: fare_of_def)+
    with fo(1-3) show ?thesis by (auto simp: item_of_def)
  qed
  then show ?thesis using q(4-7) total terms p
    by (intro exI [of _ pq] exI [of _ "map (item_of E (pq_id pq)) taken"]) simp
qed

text \<open>The demo environment with a hash of 32 bytes, as the column demands.\<close>

definition demo_hashing :: env where
  "demo_hashing = demo_env\<lparr>sha256 := \<lambda>s. replicate 32 (CHR ''h'')\<rparr>"

definition demo_quote_run :: "(gerr + quote) \<times> database world" where
  "demo_quote_run = quote_Create (demo_text 1) [\<lparr>FareOfferID = demo_text 7, PassengerCount = 2\<rparr>] demo_hashing (demo_world demo_db)"

lemma demo_quote_facts: "case fst demo_quote_run of Inr v \<Rightarrow> q_total v = 10000 | _ \<Rightarrow> False"
  by code_simp

theorem quote_adds_up_witness:
  "\<exists>pq. quotes (db (snd demo_quote_run)) = quotes demo_db @ [pq] \<and> pq_total pq = 10000"
proof -
  obtain qt where qt: "fst demo_quote_run = Inr qt" "q_total qt = 10000" using demo_quote_facts by (auto split: sum.splits)
  have "quote_Create (demo_text 1) [\<lparr>FareOfferID = demo_text 7, PassengerCount = 2\<rparr>] demo_hashing (demo_world demo_db) = (Inr qt, snd demo_quote_run)"
    using run_eq [OF qt(1)] by (simp add: demo_quote_run_def)
  moreover have "quotes_ok (db (demo_world demo_db))"
  proof -
    have "currency_ok ''EGP''" by code_simp
    then show ?thesis
      by (simp add: quotes_ok_def demo_world_def demo_db_def empty_db_def items_of_def demo_quote_def demo_item_def item_ok_def
          fare_check_def demo_fare_def MaxInt64_def)
  qed
  ultimately obtain pq where "quotes (db (snd demo_quote_run)) = quotes (db (demo_world demo_db)) @ [pq]" "q_total qt = pq_total pq"
    using quote_adds_up by blast
  then show ?thesis using qt(2) by (simp add: demo_world_def)
qed

subsection \<open>Creating a booking\<close>

text \<open>C25. A creation that wrote used a live ACTIVE quote of the caller, once: it adds one DRAFT
  booking of the caller at the quote's price, with a locator of eight base-32 characters no other
  booking has, adds one DRAFT segment for each item of the quote on the same flight, fare and
  terms, and leaves the quote USED.\<close>

theorem create_effect:
  assumes run: "Create user quoteID key E w = (Inr s, w')" and new: "db w' \<noteq> db w"
  shows "\<exists>pq r segs n. pq \<in> set (quotes (db w)) \<and> pq_id pq = uuid_of E quoteID \<and> pq_user pq = Some (uuid_of E user) \<and>
    pq_status pq = Q_ACTIVE \<and> pq_expires pq > clock E n \<and>
    s = summary_of E r \<and> bookings (db w') = bookings (db w) @ [r] \<and> b_status r = B_DRAFT \<and> b_user r = Some (uuid_of E user) \<and>
    b_quote r = pq_id pq \<and> b_total r = pq_total pq \<and> b_currency r = pq_currency pq \<and> b_hold r = None \<and>
    length (b_pnr r) = 8 \<and> pnr_ok (b_pnr r) \<and> b_pnr r \<notin> b_pnr ` set (bookings (db w)) \<and>
    segments (db w') = segments (db w) @ segs \<and> map segment_terms segs = map item_terms (items_of (pq_id pq) (db w)) \<and>
    (\<forall>g \<in> set segs. bs_booking g = b_id r \<and> bs_status g = S_DRAFT) \<and> length segs \<in> {1..4} \<and>
    (\<forall>x \<in> set (quotes (db w')). pq_id x = pq_id pq \<longrightarrow> pq_status x = Q_USED)"
  using run
proof (cases rule: Create_Inr)
  case replayed
  with new show ?thesis by simp
next
  case (fresh pq n)
  from fresh(4) obtain r ids ob ir where q: "pq \<in> set (quotes (db w))" "pq_user pq = Some (uuid_of E user)" "pq_status pq = Q_ACTIVE"
    and r: "fresh_booking (uuid_of E user) (pq_id pq) (pq_total pq) (pq_currency pq) (db w) r" and s: "s = summary_of E r"
    and len: "length (new_segments ids (b_id r) (pq_id pq) (db w)) \<in> {1..4}"
    and d': "db w' = (db w)\<lparr>bookings := bookings (db w) @ [r], segments := segments (db w) @ new_segments ids (b_id r) (pq_id pq) (db w),
               quotes := update_where (\<lambda>x. pq_id x = pq_id pq) (\<lambda>x. x\<lparr>pq_status := Q_USED\<rparr>) (quotes (db w)), outbox := ob, idem_records := ir\<rparr>"
    unfolding created_def by auto
  from r have row: "r = new_booking (b_id r) (uuid_of E user) (pq_id pq) (b_pnr r) (pq_total pq) (pq_currency pq) (b_created r)"
    by (simp add: fresh_booking_def)
  have fields: "b_status r = B_DRAFT \<and> b_user r = Some (uuid_of E user) \<and> b_quote r = pq_id pq \<and> b_total r = pq_total pq \<and>
      b_currency r = pq_currency pq \<and> b_hold r = None"
    by (intro conjI; subst row; simp add: new_booking_def)
  have pnr: "length (b_pnr r) = 8 \<and> pnr_ok (b_pnr r) \<and> b_pnr r \<notin> b_pnr ` set (bookings (db w))"
    using r by (auto simp: fresh_booking_def booking_check_def)
  have segs: "bs_booking g = b_id r \<and> bs_status g = S_DRAFT" if "g \<in> set (new_segments ids (b_id r) (pq_id pq) (db w))" for g
    using that by (auto simp: new_segments_def Let_def segment_of_def)
  have used: "\<forall>x \<in> set (quotes (db w')). pq_id x = pq_id pq \<longrightarrow> pq_status x = Q_USED"
    by (auto simp: d' set_update_where)
  show ?thesis
    by (intro exI [of _ pq] exI [of _ r] exI [of _ "new_segments ids (b_id r) (pq_id pq) (db w)"] exI [of _ n])
      (use q fresh(1,2) s fields pnr segs len used in \<open>simp add: d' new_segments_terms\<close>)
qed

text \<open>Evaluation of locators: by table, and only once the bytes are known.\<close>

lemma base32_char_table [code]:
  "base32_char n = (if n < 32 then ''ABCDEFGHIJKLMNOPQRSTUVWXYZ234567'' ! n else char_of (24 + n))"
proof (cases "n < 32")
  case True
  let ?ns = "[0, 1, 2, 3, 4, 5, 6, 7, 8, 9, 10, 11, 12, 13, 14, 15, 16, 17, 18, 19, 20, 21, 22, 23, 24, 25, 26, 27, 28, 29, 30, 31]"
  have "[0..<32] = ?ns" by (simp add: upt_conv_Cons)
  moreover have "list_all (\<lambda>n. base32_char n = ''ABCDEFGHIJKLMNOPQRSTUVWXYZ234567'' ! n) ?ns"
    by (simp add: base32_char_def char_of_def bit_Suc_0_iff)
  ultimately have "list_all (\<lambda>n. base32_char n = ''ABCDEFGHIJKLMNOPQRSTUVWXYZ234567'' ! n) [0..<32]" by (simp only:)
  with True show ?thesis by (simp add: list_all_iff)
qed (simp add: base32_char_def)
lemma base32_block_bytes [code]:
  "base32_block [] = map base32_char (digits 32 8 0)"
  "base32_block (b # bs) = map base32_char (digits 32 8 (undigits 256 (b # bs)))"
  by (simp_all add: base32_block_def)

text \<open>The demo database with user 1's quote still to be used, and a random source of zeros.\<close>

definition demo_draws :: env where
  "demo_draws = demo_env\<lparr>rand_read := \<lambda>n len. Inr (replicate len 0)\<rparr>"

definition demo_open :: database where
  "demo_open = demo_db\<lparr>quotes := [(demo_quote 41 1)\<lparr>pq_status := Q_ACTIVE\<rparr>], bookings := [], segments := [], passengers := []\<rparr>"

definition demo_create_run :: "(gerr + summary) \<times> database world" where
  "demo_create_run = Create (demo_text 1) (demo_text 41) ''0123456789abcdef'' demo_draws (demo_world demo_open)"

lemma demo_create_facts:
  "case demo_create_run of (r, w) \<Rightarrow> (case r of Inr v \<Rightarrow> sm_total v = 5000 \<and> length (bookings (db w)) = 1 | _ \<Rightarrow> False)"
  by code_simp

theorem create_effect_witness:
  "\<exists>r. bookings (db (snd demo_create_run)) = [r] \<and> b_total r = 5000 \<and> b_status r = B_DRAFT \<and> length (b_pnr r) = 8"
proof -
  obtain v where v: "fst demo_create_run = Inr v" "length (bookings (db (snd demo_create_run))) = 1"
    using demo_create_facts by (cases "fst demo_create_run") (auto simp: prod.case_eq_if)
  then have run: "Create (demo_text 1) (demo_text 41) ''0123456789abcdef'' demo_draws (demo_world demo_open) = (Inr v, snd demo_create_run)"
    using run_eq [OF v(1)] by (simp add: demo_create_run_def)
  have before: "bookings (db (demo_world demo_open)) = []" by (simp add: demo_world_def demo_open_def)
  with v(2) have "db (snd demo_create_run) \<noteq> db (demo_world demo_open)" by auto
  from create_effect [OF run this] before obtain pq r where r: "pq \<in> set (quotes (db (demo_world demo_open)))"
    "bookings (db (snd demo_create_run)) = [] @ [r]" "b_total r = pq_total pq" "b_status r = B_DRAFT" "length (b_pnr r) = 8"
    by auto
  then show ?thesis by (auto simp: demo_world_def demo_open_def demo_quote_def)
qed

subsection \<open>Passengers\<close>

text \<open>Saving a passenger that wrote was the owner's, for a DRAFT booking; it adds one passenger,
  and then the booking has at most nine and at most as many as its quote counts, or it changes the
  details of exactly the named passenger of the booking.\<close>

theorem passenger_effect:
  assumes run: "SavePassenger user bid key p E w = (Inr p', w')" and new: "db w' \<noteq> db w"
    and old: "distinct (map bp_id (passengers (db w)))"
  shows "\<exists>r. owned_booking (uuid_of E bid) (uuid_of E user) (db w) = Some r \<and> b_status r = B_DRAFT \<and> bookings (db w') = bookings (db w) \<and>
    (if pg_id p = []
     then \<exists>x. passengers (db w') = passengers (db w) @ [x] \<and> bp_booking x = uuid_of E bid \<and> pg_id p' = uuid_text E (bp_id x) \<and>
       (bp_type x, bp_first x, bp_last x) = (pg_type p, pg_first p, pg_last p) \<and>
       count_where (\<lambda>x. bp_booking x = uuid_of E bid) (passengers (db w')) \<le> 9
     else p' = p \<and> (\<exists>x \<in> set (passengers (db w)). bp_booking x = uuid_of E bid \<and> bp_id x = uuid_of E (pg_id p) \<and>
       passengers (db w') = map (\<lambda>y. if y = x then x\<lparr>bp_type := pg_type p, bp_first := pg_first p, bp_last := pg_last p,
         bp_dob := map_option to_date (pg_dob p)\<rparr> else y) (passengers (db w))))"
  using run
proof (cases rule: SavePassenger_Inr)
  case replayed
  with new show ?thesis by simp
next
  case (fresh r)
  let ?b = "uuid_of E bid"
  show ?thesis
  proof (cases "pg_id p = []")
    case True
    with fresh(3) show ?thesis using fresh(1,2)
      by (auto simp: saved_passenger_def count_where_def)
  next
    case False
    let ?f = "\<lambda>r. r\<lparr>bp_type := pg_type p, bp_first := pg_first p, bp_last := pg_last p, bp_dob := map_option to_date (pg_dob p)\<rparr>"
    from fresh(3) False obtain x ir where x: "x \<in> set (passengers (db w))" "bp_booking x = ?b" "bp_id x = uuid_of E (pg_id p)" "p' = p"
      "db w' = (db w)\<lparr>passengers := update_where (\<lambda>r. bp_booking r = ?b \<and> bp_id r = uuid_of E (pg_id p)) ?f (passengers (db w)), idem_records := ir\<rparr>"
      by (auto simp: saved_passenger_def)
    have "y = x \<longleftrightarrow> bp_booking y = ?b \<and> bp_id y = uuid_of E (pg_id p)" if "y \<in> set (passengers (db w))" for y
      using old x(1-3) that by (auto simp: distinct_map inj_on_def)
    then have "passengers (db w') = map (\<lambda>y. if y = x then ?f x else y) (passengers (db w))"
      unfolding x(5) update_where_def by auto
    with fresh(1,2) False x show ?thesis by auto
  qed
qed

text \<open>User 1 renames passenger 5 of booking 2.\<close>

definition demo_rename :: passenger where
  "demo_rename = \<lparr>pg_id = demo_text 5, pg_type = ''CHILD'', pg_first = ''C'', pg_last = ''D'', pg_dob = None\<rparr>"

definition demo_rename_run :: "(gerr + passenger) \<times> database world" where
  "demo_rename_run = SavePassenger (demo_text 1) (demo_text 2) ''0123456789abcdef'' demo_rename demo_env (demo_world demo_db)"

lemma demo_rename_facts:
  "case demo_rename_run of (r, w) \<Rightarrow> (case r of Inr v \<Rightarrow> map bp_type (passengers (db w)) = [''CHILD'', ''ADULT'', ''ADULT''] | _ \<Rightarrow> False)"
  by code_simp

theorem passenger_effect_witness:
  "\<exists>x \<in> set (passengers demo_db). bp_id x = 5 \<and> passengers (db (snd demo_rename_run)) =
     map (\<lambda>y. if y = x then x\<lparr>bp_type := ''CHILD'', bp_first := ''C'', bp_last := ''D'', bp_dob := None\<rparr> else y) (passengers demo_db)"
proof -
  obtain v where v: "fst demo_rename_run = Inr v" "map bp_type (passengers (db (snd demo_rename_run))) = [''CHILD'', ''ADULT'', ''ADULT'']"
    using demo_rename_facts by (cases "fst demo_rename_run") (auto simp: prod.case_eq_if)
  then have run: "SavePassenger (demo_text 1) (demo_text 2) ''0123456789abcdef'' demo_rename demo_env (demo_world demo_db) = (Inr v, snd demo_rename_run)"
    using run_eq [OF v(1)] by (simp add: demo_rename_run_def)
  have d: "db (demo_world demo_db) = demo_db" by (simp add: demo_world_def)
  have "map bp_type (passengers demo_db) = [''ADULT'', ''ADULT'', ''ADULT'']"
    by (simp add: demo_db_def demo_passenger_def)
  with v(2) have "db (snd demo_rename_run) \<noteq> db (demo_world demo_db)" unfolding d by auto
  moreover have "distinct (map bp_id (passengers (db (demo_world demo_db))))" unfolding d by (simp add: demo_db_def demo_passenger_def)
  moreover have "uuid_of demo_env (demo_text 5) = 5" by code_simp
  moreover have "pg_id demo_rename \<noteq> []" by (simp add: demo_rename_def demo_text_def demo_prefix_def)
  ultimately show ?thesis
    using passenger_effect [OF run] unfolding d by (auto simp: demo_rename_def)
qed

subsection \<open>Errors\<close>

text \<open>A quote, a booking or a passenger that could not be made has left nothing: no item without
  its quote, no booking without its segments, no used quote without its booking.\<close>

theorem booking_error_writes_nothing:
  "(quote_Create user items E w = (Inl e, w1) \<longrightarrow> db w1 = db w) \<and>
   (Create user quoteID key E w = (Inl e, w2) \<longrightarrow> db w2 = db w) \<and>
   (SavePassenger user bid key p E w = (Inl e, w3) \<longrightarrow> db w3 = db w)"
  by (intro conjI impI; erule quote_Create_failed Create_failed SavePassenger_failed)

definition demo_refused :: "(gerr + summary) \<times> database world" where
  "demo_refused = Create (demo_text 1) (demo_text 41) ''0123456789abcdef'' demo_draws (demo_world demo_db)"

lemma demo_refused_facts: "case fst demo_refused of Inl e \<Rightarrow> e = ErrBookingNotHoldable | _ \<Rightarrow> False"
  by code_simp

theorem booking_error_writes_nothing_witness:
  "fst demo_refused = Inl ErrBookingNotHoldable \<and> db (snd demo_refused) = demo_db"
proof -
  have e: "fst demo_refused = Inl ErrBookingNotHoldable" using demo_refused_facts by (auto split: sum.splits)
  have "db (snd demo_refused) = db (demo_world demo_db)"
    using booking_error_writes_nothing run_eq [OF e] by (metis demo_refused_def)
  with e show ?thesis by (simp add: demo_world_def)
qed

end
