(* ===== verification/Outbox.thy ===== *)
theory Outbox
  imports Refund
begin

text \<open>
  \<^verbatim>\<open>internal/outbox/outbox.go\<close> and the worker of \<^verbatim>\<open>cmd/worker/main.go\<close>: \<open>Batch\<close> claims due events
  under a lease, hands each to the publisher and records the outcome; the publisher of the worker
  sends payment and refund requests to the payment store and files a receipt for every other
  event.  Between the statements of a batch no transaction is open, so each is a step of its own,
  and the provider's state is threaded beside the world.  The payload, which is always \<^verbatim>\<open>{}\<close>, is left
  out.
\<close>

text \<open>The ids of an event and its lease travel as text in the code, which PostgreSQL prints and parses
  back; the aggregate is text, because the payment store parses it.\<close>

record event =
  ev_id :: uuid
  ev_aggregate :: string
  ev_type :: string
  ev_lease :: uuid

type_synonym ('s, 'a) run = "env \<Rightarrow> 's \<times> database world \<Rightarrow> (gerr + 'a) \<times> 's \<times> database world"
type_synonym 's publisher = "event \<Rightarrow> ('s, unit) run"

definition on_db :: "'a dbact \<Rightarrow> ('s, 'a) run" where
  "on_db m E sw = (case sw of (s, w) \<Rightarrow> (case m E w of (r, w') \<Rightarrow> (r, s, w')))"

subsection \<open>Claiming\<close>

definition pending :: "outbox_row \<Rightarrow> bool" where
  "pending e \<longleftrightarrow> ob_delivered e = None \<and> ob_dead e = None"

definition claimable :: "ts \<Rightarrow> outbox_row \<Rightarrow> bool" where
  "claimable t e \<longleftrightarrow> pending e \<and> ob_next e \<le> t \<and> (case ob_locked e of None \<Rightarrow> True | Some u \<Rightarrow> u \<le> t)"

definition due_order :: "outbox_row \<Rightarrow> outbox_row \<Rightarrow> bool" where
  "due_order a b \<longleftrightarrow> ob_next a < ob_next b \<or> (ob_next a = ob_next b \<and> ob_id a < ob_id b)"

definition claimed_ids :: "(uuid \<Rightarrow> bool) \<Rightarrow> ts \<Rightarrow> int \<Rightarrow> database \<Rightarrow> uuid list" where
  "claimed_ids locked t limit d =
     map ob_id (take (nat limit) (sort_by due_order (filter (\<lambda>e. claimable t e \<and> \<not> locked (ob_id e)) (outbox d))))"

definition lease :: "ts \<Rightarrow> (uuid \<times> uuid) list \<Rightarrow> outbox_row \<Rightarrow> outbox_row" where
  "lease t tokens e =
     (case map_of tokens (ob_id e) of None \<Rightarrow> e
      | Some token \<Rightarrow> e\<lparr>ob_locked := Some (t + 30 * second), ob_token := Some token, ob_attempts := ob_attempts e + 1\<rparr>)"

definition event_of :: "env \<Rightarrow> uuid \<Rightarrow> outbox_row \<Rightarrow> event" where
  "event_of E token e = \<lparr>ev_id = ob_id e, ev_aggregate = uuid_text E (ob_aggregate e), ev_type = ob_type e,
     ev_lease = token\<rparr>"

definition claim_events :: "env \<Rightarrow> (uuid \<times> uuid) list \<Rightarrow> database \<Rightarrow> event list" where
  "claim_events E tokens d =
     [event_of E (snd it) e. it \<leftarrow> tokens, e \<leftarrow> outbox d, ob_id e = fst it]"

definition claim :: "int \<Rightarrow> event list dbact" where
  "claim limit =
     stmt (\<lambda>E w.
       let t = clock E (pc w); ids = claimed_ids (row_locked E (pc w)) t limit (db w);
           tokens = zip ids (map (gen_uuid E (pc w)) [0..<length ids]) in
       Inr (claim_events E tokens (db w), (db w)\<lparr>outbox := map (lease t tokens) (outbox (db w))\<rparr>))"

subsection \<open>Recording the outcome\<close>

text \<open>\<^verbatim>\<open>LEAST(3600,power(2,LEAST(attempts,12)))\<close> seconds.\<close>

definition retry_delay :: "nat \<Rightarrow> ts" where
  "retry_delay n = min 3600 (2 ^ min n 12) * second"

definition deliver :: "ts \<Rightarrow> outbox_row \<Rightarrow> outbox_row" where
  "deliver t e = e\<lparr>ob_delivered := Some t, ob_locked := None, ob_token := None\<rparr>"

definition postpone :: "ts \<Rightarrow> outbox_row \<Rightarrow> outbox_row" where
  "postpone t e = e\<lparr>ob_locked := None, ob_token := None, ob_next := t + retry_delay (ob_attempts e),
     ob_dead := (if ob_attempts e \<ge> 10 then Some t else None)\<rparr>"

definition record_outcome :: "event \<Rightarrow> bool \<Rightarrow> unit dbact" where
  "record_outcome e ok =
     stmt (\<lambda>E w. Inr ((), (db w)\<lparr>outbox := update_where
        (\<lambda>r. ob_id r = ev_id e \<and> ob_token r = Some (ev_lease e))
        (if ok then deliver (clock E (pc w)) else postpone (clock E (pc w))) (outbox (db w))\<rparr>))"

fun publish_all :: "'s publisher \<Rightarrow> event list \<Rightarrow> ('s, unit) run" where
  "publish_all pub [] E sw = (Inr (), sw)"
| "publish_all pub (e # es) E sw =
     (case pub e E sw of (result, sw1) \<Rightarrow>
      case on_db (record_outcome e (case result of Inl _ \<Rightarrow> False | Inr _ \<Rightarrow> True)) E sw1 of
        (Inl err, sw2) \<Rightarrow> (Inl err, sw2)
      | (Inr _, sw2) \<Rightarrow> publish_all pub es E sw2)"

definition Batch :: "'s publisher option \<Rightarrow> int \<Rightarrow> ('s, nat) run" where
  "Batch publisher limit E sw =
     (case publisher of None \<Rightarrow> (Inl (OtherError ''invalid outbox processor configuration''), sw) | Some pub \<Rightarrow>
      if limit < 1 \<or> limit > 100 then (Inl (OtherError ''invalid outbox processor configuration''), sw)
      else case on_db (claim limit) E sw of
        (Inl err, sw1) \<Rightarrow> (Inl err, sw1)
      | (Inr events, sw1) \<Rightarrow>
          (case publish_all pub events E sw1 of
             (Inl err, sw2) \<Rightarrow> (Inl err, sw2)
           | (Inr _, sw2) \<Rightarrow> (Inr (length events), sw2)))"

subsection \<open>Receipts\<close>

text \<open>\<^verbatim>\<open>INSERT INTO outbox_receipts ... ON CONFLICT DO NOTHING\<close>.\<close>

definition insert_receipt :: "string \<Rightarrow> uuid \<Rightarrow> database \<Rightarrow> gerr + unit \<times> database" where
  "insert_receipt consumer e d =
     (if \<lparr>rc_consumer = consumer, rc_event = e\<rparr> \<in> set (receipts d) then Inr ((), d)
      else guarded [(foreign_key_violation, e \<in> ob_id ` set (outbox d))]
        ((), d\<lparr>receipts := receipts d @ [\<lparr>rc_consumer = consumer, rc_event = e\<rparr>]\<rparr>))"

definition ReceiptConsumer_Publish :: "string \<Rightarrow> event \<Rightarrow> unit dbact" where
  "ReceiptConsumer_Publish consumer e = stmt (\<lambda>E w. insert_receipt consumer (ev_id e) (db w))"

subsection \<open>The worker\<close>

definition dispatcher_Publish :: "string \<Rightarrow> 's provider option \<Rightarrow> 's publisher" where
  "dispatcher_Publish consumer provider e =
     (if ev_type e = ''PAYMENT_REQUESTED'' then Dispatch provider (ev_aggregate e)
      else if ev_type e = ''REFUND_REQUESTED'' then DispatchRefund provider (ev_aggregate e)
      else on_db (ReceiptConsumer_Publish consumer e))"

text \<open>One round of the worker's loop; both errors are only logged.\<close>

definition worker_round :: "'s provider option \<Rightarrow> env \<Rightarrow> 's \<times> database world \<Rightarrow> 's \<times> database world" where
  "worker_round provider E sw =
     snd (Batch (Some (dispatcher_Publish ''domain-ledger'' provider)) 10 E (snd (on_db (ExpireHolds 25) E sw)))"

end
