(* ===== verification/OutboxProps.thy ===== *)
theory OutboxProps
  imports Outbox DemoLedger "HOL-Library.Sublist"
begin

text \<open>
  The properties of the outbox: the rows implement a small delivery machine, a lease excludes other
  workers while it lasts, and an event whose publisher keeps failing ends as a dead letter.
\<close>

subsection \<open>The delivery machine\<close>

datatype delivery = Waiting nat | Leased nat | Delivered | DeadLetter

definition phase :: "outbox_row \<Rightarrow> delivery" where
  "phase e = (if ob_delivered e \<noteq> None then Delivered else if ob_dead e \<noteq> None then DeadLetter
     else if ob_token e = None then Waiting (ob_attempts e) else Leased (ob_attempts e))"

fun take_up :: "delivery \<Rightarrow> delivery" where
  "take_up (Waiting n) = Leased (Suc n)"
| "take_up (Leased n) = Leased (Suc n)"
| "take_up p = p"

fun finish :: "bool \<Rightarrow> delivery \<Rightarrow> delivery" where
  "finish ok (Leased n) = (if ok then Delivered else if n \<ge> 10 then DeadLetter else Waiting n)"
| "finish ok p = p"

text \<open>An event and its delivery, as the abstract machine sees the table.\<close>

definition deliveries :: "database \<Rightarrow> (uuid \<times> delivery) list" where
  "deliveries d = map (\<lambda>e. (ob_id e, phase e)) (outbox d)"

definition on_events :: "uuid set \<Rightarrow> (delivery \<Rightarrow> delivery) \<Rightarrow> (uuid \<times> delivery) list \<Rightarrow> (uuid \<times> delivery) list" where
  "on_events ids f ps = map (\<lambda>(i, p). (i, if i \<in> ids then f p else p)) ps"

text \<open>The rows a run of the program leaves: settled events have no lease, a lease has an end, and a waiting
  event has attempts left.\<close>

definition event_ok :: "outbox_row \<Rightarrow> bool" where
  "event_ok e \<longleftrightarrow> (ob_token e = None \<longleftrightarrow> ob_locked e = None) \<and>
     (ob_delivered e \<noteq> None \<longrightarrow> ob_dead e = None \<and> ob_token e = None) \<and>
     (ob_dead e \<noteq> None \<longrightarrow> ob_token e = None \<and> ob_attempts e \<ge> 10) \<and>
     (pending e \<and> ob_token e = None \<longrightarrow> ob_attempts e < 10)"

definition outbox_ok :: "database \<Rightarrow> bool" where
  "outbox_ok d \<longleftrightarrow> distinct (map ob_id (outbox d)) \<and> (\<forall>e \<in> set (outbox d). event_ok e)"

subsection \<open>Claiming and recording, row by row\<close>

lemma lease_id [simp]: "ob_id (lease t tokens e) = ob_id e"
  by (simp add: lease_def split: option.splits)

lemma deliver_id [simp]: "ob_id (deliver t e) = ob_id e" "ob_id (postpone t e) = ob_id e"
  by (simp_all add: deliver_def postpone_def)

lemma lease_ok:
  assumes "event_ok e" and "ob_id e \<in> fst ` set tokens \<Longrightarrow> pending e"
  shows "event_ok (lease t tokens e) \<and> phase (lease t tokens e) = (if ob_id e \<in> fst ` set tokens then take_up (phase e) else phase e)"
proof (cases "map_of tokens (ob_id e)")
  case None
  then have "ob_id e \<notin> fst ` set tokens" by (simp add: map_of_eq_None_iff)
  with None assms(1) show ?thesis by (simp add: lease_def)
next
  case (Some token)
  then have "ob_id e \<in> fst ` set tokens" by (force dest: map_of_SomeD)
  with Some assms show ?thesis by (auto simp: lease_def event_ok_def phase_def pending_def)
qed

lemma deliver_ok:
  assumes "event_ok e" and "ob_token e \<noteq> None"
  shows "event_ok (deliver t e) \<and> phase (deliver t e) = finish True (phase e)"
    and "event_ok (postpone t e) \<and> phase (postpone t e) = finish False (phase e)"
  using assms by (auto simp: deliver_def postpone_def event_ok_def phase_def pending_def)

lemma claim_Inr:
  assumes "claim limit E w = (Inr es, w')"
  obtains tokens where "map fst tokens = claimed_ids (row_locked E (pc w)) (clock E (pc w)) limit (db w)"
    and "es = claim_events E tokens (db w)" and "db w' = (db w)\<lparr>outbox := map (lease (clock E (pc w)) tokens) (outbox (db w))\<rparr>"
proof -
  let ?ids = "claimed_ids (row_locked E (pc w)) (clock E (pc w)) limit (db w)"
  let ?tokens = "zip ?ids (map (gen_uuid E (pc w)) [0..<length ?ids])"
  show thesis
    by (rule that [of ?tokens]) (use assms in \<open>auto simp: claim_def stmt_Inr Let_def\<close>)
qed

lemma claimed_idsD:
  assumes "i \<in> set (claimed_ids locked t limit d)"
  shows "\<exists>e \<in> set (outbox d). ob_id e = i \<and> claimable t e \<and> \<not> locked i"
  using assms by (auto simp: claimed_ids_def dest!: in_set_takeD)

lemma claimed_claimable:
  assumes "distinct (map ob_id (outbox d))" and "e \<in> set (outbox d)" and "ob_id e \<in> set (claimed_ids locked t limit d)"
  shows "claimable t e"
  using claimed_idsD [OF assms(3)] assms(1,2) by (auto dest: distinct_map_same)

text \<open>What a claim does to the abstract table.\<close>

lemma claim_phases:
  assumes "claim limit E w = (Inr es, w')" and "outbox_ok (db w)"
  shows "outbox_ok (db w')"
    and "deliveries (db w') = on_events (set (claimed_ids (row_locked E (pc w)) (clock E (pc w)) limit (db w))) take_up (deliveries (db w))"
proof -
  let ?t = "clock E (pc w)" and ?ids = "claimed_ids (row_locked E (pc w)) (clock E (pc w)) limit (db w)"
  from assms(1) obtain tokens where tk: "map fst tokens = ?ids"
    "db w' = (db w)\<lparr>outbox := map (lease ?t tokens) (outbox (db w))\<rparr>" by (rule claim_Inr) blast
  then have ids: "fst ` set tokens = set ?ids" by (metis set_map)
  from assms(2) have rows: "distinct (map ob_id (outbox (db w)))" "e \<in> set (outbox (db w)) \<Longrightarrow> event_ok e" for e
    by (simp_all add: outbox_ok_def)
  have one: "event_ok (lease ?t tokens e) \<and> phase (lease ?t tokens e) = (if ob_id e \<in> set ?ids then take_up (phase e) else phase e)"
    if "e \<in> set (outbox (db w))" for e
    using lease_ok [of e tokens ?t] rows(2) [OF that] claimed_claimable [OF rows(1) that] ids by (auto simp: claimable_def)
  show "outbox_ok (db w')" using one rows(1) by (auto simp: outbox_ok_def tk(2) comp_def)
  show "deliveries (db w') = on_events (set ?ids) take_up (deliveries (db w))"
    using one by (auto simp: deliveries_def on_events_def tk(2))
qed

lemma record_outcome_Inr:
  "record_outcome e ok E w = (Inr u, w') \<longleftrightarrow> fault E (pc w) = None \<and>
     w' = w\<lparr>pc := Suc (pc w), db := (db w)\<lparr>outbox := update_where
        (\<lambda>r. ob_id r = ev_id e \<and> ob_token r = Some (ev_lease e))
        (if ok then deliver (clock E (pc w)) else postpone (clock E (pc w))) (outbox (db w))\<rparr>\<rparr>"
  by (auto simp: record_outcome_def stmt_Inr)

definition lease_held :: "event \<Rightarrow> database \<Rightarrow> uuid set" where
  "lease_held e d = {i. i = ev_id e \<and> (\<exists>r \<in> set (outbox d). ob_id r = i \<and> ob_token r = Some (ev_lease e))}"

lemma record_phases:
  assumes "record_outcome e ok E w = (Inr u, w')" and "outbox_ok (db w)"
  shows "outbox_ok (db w')" and "deliveries (db w') = on_events (lease_held e (db w)) (finish ok) (deliveries (db w))"
proof -
  let ?f = "if ok then deliver (clock E (pc w)) else postpone (clock E (pc w))"
  let ?hit = "\<lambda>r. ob_id r = ev_id e \<and> ob_token r = Some (ev_lease e)"
  from assms(1) have d: "db w' = (db w)\<lparr>outbox := update_where ?hit ?f (outbox (db w))\<rparr>" by (simp add: record_outcome_Inr)
  from assms(2) have rows: "distinct (map ob_id (outbox (db w)))" "r \<in> set (outbox (db w)) \<Longrightarrow> event_ok r" for r
    by (simp_all add: outbox_ok_def)
  have held: "ob_id r \<in> lease_held e (db w) \<longleftrightarrow> ?hit r" if "r \<in> set (outbox (db w))" for r
    using that rows(1) by (auto simp: lease_held_def dest: distinct_map_same)
  have hit: "event_ok (?f r) \<and> phase (?f r) = finish ok (phase r)" if "r \<in> set (outbox (db w))" "?hit r" for r
    using deliver_ok [OF rows(2) [OF that(1)], of "clock E (pc w)"] that(2) by (cases ok) auto
  have "map ob_id (update_where ?hit ?f (outbox (db w))) = map ob_id (outbox (db w))"
    by (rule map_update_where_keep) auto
  with rows hit show "outbox_ok (db w')" by (auto simp: outbox_ok_def d set_update_where)
  show "deliveries (db w') = on_events (lease_held e (db w)) (finish ok) (deliveries (db w))"
    using hit held by (auto simp: deliveries_def on_events_def d update_where_def)
qed

subsection \<open>A whole batch\<close>

text \<open>What the outcomes of a batch do to one row.\<close>

definition settle_one :: "event \<times> (outbox_row \<Rightarrow> outbox_row) \<Rightarrow> outbox_row \<Rightarrow> outbox_row" where
  "settle_one ef r = (if ob_id r = ev_id (fst ef) \<and> ob_token r = Some (ev_lease (fst ef)) then snd ef r else r)"

definition outcome :: "(outbox_row \<Rightarrow> outbox_row) \<Rightarrow> bool" where
  "outcome f \<longleftrightarrow> (\<exists>t. f = deliver t \<or> f = postpone t)"

lemma settle_one_id: "outcome (snd ef) \<Longrightarrow> ob_id (settle_one ef r) = ob_id r"
  by (auto simp: settle_one_def outcome_def)

text \<open>A publisher may only add events.\<close>

definition appends :: "env \<Rightarrow> 's publisher \<Rightarrow> bool" where
  "appends E pub \<longleftrightarrow> (\<forall>e s w r s' w'. pub e E (s, w) = (r, s', w') \<longrightarrow> (\<exists>new. outbox (db w') = outbox (db w) @ new))"

lemma publish_all_rows:
  assumes "publish_all pub es E (s, w) = (Inr u, s', w')" and "appends E pub" and "outbox (db w) = rows @ extra"
  shows "\<exists>fs extra'. map fst fs = es \<and> (\<forall>ef \<in> set fs. outcome (snd ef)) \<and>
    outbox (db w') = map (fold (settle_one) fs) rows @ extra'"
  using assms
proof (induction es arbitrary: s w rows extra)
  case Nil
  then show ?case by (auto intro!: exI [of _ "[]"])
next
  case (Cons e es)
  obtain r s1 w1 where p: "pub e E (s, w) = (r, s1, w1)" by (cases "pub e E (s, w)") auto
  with Cons.prems(2,3) obtain new where o1: "outbox (db w1) = rows @ extra @ new" by (auto simp: appends_def) (metis append_assoc)
  let ?ok = "case r of Inl _ \<Rightarrow> False | Inr _ \<Rightarrow> True"
  from Cons.prems(1) p obtain w2 where rec: "record_outcome e ?ok E w1 = (Inr (), w2)"
    and rest: "publish_all pub es E (s1, w2) = (Inr u, s', w')"
    by (auto simp: on_db_def split: prod.splits sum.splits)
  let ?f = "if ?ok then deliver (clock E (pc w1)) else postpone (clock E (pc w1))"
  have f: "outcome ?f" by (auto simp: outcome_def)
  have "outbox (db w2) = map (settle_one (e, ?f)) rows @ map (settle_one (e, ?f)) (extra @ new)"
    using rec o1 by (simp add: record_outcome_Inr update_where_def settle_one_def)
  from Cons.IH [OF rest Cons.prems(2) this] obtain fs extra' where "map fst fs = es" "\<forall>ef \<in> set fs. outcome (snd ef)"
    "outbox (db w') = map (fold (settle_one) fs) (map (settle_one (e, ?f)) rows) @ extra'" by blast
  with f show ?case by (intro exI [of _ "(e, ?f) # fs"] exI [of _ extra']) (simp add: comp_def)
qed

lemma settle_others:
  assumes "\<forall>ef \<in> set fs. ev_id (fst ef) \<noteq> ob_id r"
  shows "fold (settle_one) fs r = r"
  using assms by (induction fs) (auto simp: settle_one_def)

lemma settle_mine:
  assumes "\<forall>ef \<in> set fs. outcome (snd ef)" and "distinct (map (\<lambda>ef. ev_id (fst ef)) fs)"
    and "ef \<in> set fs" and "ev_id (fst ef) = ob_id r" and "ob_token r = Some (ev_lease (fst ef))"
  shows "fold (settle_one) fs r = snd ef r"
  using assms
proof (induction fs)
  case Nil
  then show ?case by simp
next
  case (Cons x fs)
  show ?case
  proof (cases "x = ef")
    case True
    have "ob_id (snd ef r) = ob_id r" using Cons.prems(1,3) by (auto simp: outcome_def)
    then have "fold (settle_one) fs (snd ef r) = snd ef r"
      using Cons.prems(2,4) True by (intro settle_others) force
    moreover have "settle_one x r = snd ef r" using True Cons.prems(4,5) by (simp add: settle_one_def)
    ultimately show ?thesis by simp
  next
    case False
    with Cons.prems have "ef \<in> set fs" by simp
    with Cons.prems(2,4) have "ev_id (fst x) \<noteq> ob_id r" by force
    then have "settle_one x r = r" by (simp add: settle_one_def)
    with Cons.IH Cons.prems \<open>ef \<in> set fs\<close> show ?thesis by simp
  qed
qed

text \<open>The events of a claim name their rows and their leases.\<close>

lemma claim_events_ids:
  assumes "distinct (map ob_id (outbox d))" and "\<forall>i \<in> fst ` set tokens. i \<in> ob_id ` set (outbox d)"
  shows "map (\<lambda>e. (ev_id e, ev_lease e)) (claim_events E tokens d) = tokens"
  using assms(2)
proof (induction tokens)
  case Nil
  then show ?case by (simp add: claim_events_def)
next
  case (Cons it tokens)
  from Cons.prems obtain r where r: "r \<in> set (outbox d)" "ob_id r = fst it" by auto
  have only: "filter (\<lambda>e. ob_id e = fst it) rows = [r]" if "distinct (map ob_id rows)" "r \<in> set rows" for rows
    using that r(2)
  proof (induction rows)
    case (Cons x xs)
    show ?case
    proof (cases "x = r")
      case True
      with Cons have "filter (\<lambda>e. ob_id e = fst it) xs = []" by (force simp: filter_empty_conv)
      with True r(2) show ?thesis by simp
    next
      case False
      with Cons r(2) have "ob_id x \<noteq> fst it" by force
      with Cons False show ?thesis by simp
    qed
  qed simp
  have filtered: "concat (map (\<lambda>e. if P e then [g e] else []) xs) = map g (filter P xs)" for P g and xs :: "outbox_row list"
    by (induction xs) auto
  from only [OF assms(1) r(1)] have "[event_of E (snd it) e. e \<leftarrow> outbox d, ob_id e = fst it] = [event_of E (snd it) r]"
    by (simp only: filtered) simp
  with Cons r show ?case by (simp add: claim_events_def event_of_def)
qed

text \<open>A finished batch settled every event it claimed and touched no other.\<close>

lemma Batch_rows:
  assumes run: "Batch (Some pub) limit E (s, w) = (Inr n, s', w')" and ok: "outbox_ok (db w)" and app: "appends E pub"
  obtains ids rows extra where "ids = claimed_ids (row_locked E (pc w)) (clock E (pc w)) limit (db w)"
    and "outbox (db w') = rows @ extra" and "map ob_id rows = map ob_id (outbox (db w))"
    and "n = length ids"
    and "\<And>k. k < length rows \<Longrightarrow> (let e = outbox (db w) ! k; e' = rows ! k in
       if ob_id e \<in> set ids then event_ok e' \<and> (\<exists>res. phase e' = finish res (take_up (phase e)))
       else e' = e)"
proof -
  let ?t = "clock E (pc w)" and ?ids = "claimed_ids (row_locked E (pc w)) (clock E (pc w)) limit (db w)"
  from run obtain es w1 where c: "claim limit E w = (Inr es, w1)" "publish_all pub es E (s, w1) = (Inr (), s', w')" "n = length es"
    by (auto simp: Batch_def on_db_def split: if_splits prod.splits sum.splits)
  from c(1) obtain tokens where tk: "map fst tokens = ?ids" "es = claim_events E tokens (db w)"
    "db w1 = (db w)\<lparr>outbox := map (lease ?t tokens) (outbox (db w))\<rparr>" by (rule claim_Inr) blast
  from ok have rows: "distinct (map ob_id (outbox (db w)))" "e \<in> set (outbox (db w)) \<Longrightarrow> event_ok e" for e
    by (simp_all add: outbox_ok_def)
  have tids: "fst ` set tokens = set ?ids" using tk(1) by (metis set_map)
  have dist: "distinct (map fst tokens)" unfolding tk(1) claimed_ids_def
    by (simp add: take_map [symmetric] distinct_map_filter rows(1))
  have es: "map (\<lambda>e. (ev_id e, ev_lease e)) es = tokens"
    unfolding tk(2) by (rule claim_events_ids) (use rows(1) tids claimed_idsD in force)+
  then have n: "n = length ?ids" using c(3) tk(1) by (metis length_map)
  let ?leased = "map (lease ?t tokens) (outbox (db w))"
  have "outbox (db w1) = ?leased @ []" by (simp add: tk(3))
  from publish_all_rows [OF c(2) app this] obtain fs extra where fs: "map fst fs = es" "\<forall>ef \<in> set fs. outcome (snd ef)"
    "outbox (db w') = map (fold settle_one fs) ?leased @ extra" by blast
  have ev: "map (\<lambda>ef. ev_id (fst ef)) fs = map fst tokens" using fs(1) es by (auto simp: comp_def)
  have kept: "ob_id (fold settle_one fs r) = ob_id r" for r
    using fs(2) by (induction fs arbitrary: r) (auto simp: settle_one_id)
  have row: "if ob_id e \<in> set ?ids then event_ok (fold settle_one fs (lease ?t tokens e)) \<and>
      (\<exists>res. phase (fold settle_one fs (lease ?t tokens e)) = finish res (take_up (phase e)))
      else fold settle_one fs (lease ?t tokens e) = e" if e: "e \<in> set (outbox (db w))" for e
  proof (cases "ob_id e \<in> set ?ids")
    case False
    then have none: "map_of tokens (ob_id e) = None" using tids by (simp add: map_of_eq_None_iff)
    have "fold settle_one fs e = e"
      by (rule settle_others) (use ev False tids in \<open>metis (no_types, lifting) image_eqI list.set_map\<close>)
    with none False show ?thesis by (simp add: lease_def)
  next
    case True
    then obtain token where tok: "(ob_id e, token) \<in> set tokens" using tids by force
    with dist have m: "map_of tokens (ob_id e) = Some token" by (simp add: map_of_eq_Some_iff)
    let ?e = "lease ?t tokens e"
    have e1: "event_ok ?e" "phase ?e = take_up (phase e)" "ob_token ?e = Some token"
      using lease_ok [of e tokens ?t] rows(2) [OF e] claimed_claimable [OF rows(1) e True] True tids m
      by (auto simp: claimable_def) (simp add: lease_def)
    have "tokens = map (\<lambda>ef. (ev_id (fst ef), ev_lease (fst ef))) fs" using es fs(1) by (auto simp: comp_def)
    with tok obtain ef where ef: "ef \<in> set fs" "ev_id (fst ef) = ob_id e" "ev_lease (fst ef) = token" by auto
    have "fold settle_one fs ?e = snd ef ?e"
      by (rule settle_mine) (use fs(2) ev dist ef e1 in auto)
    moreover from fs(2) ef(1) obtain t where "snd ef = deliver t \<or> snd ef = postpone t" by (auto simp: outcome_def)
    ultimately show ?thesis using deliver_ok [OF e1(1), of t] e1 True by auto
  qed
  show thesis
  proof (rule that [of ?ids "map (fold settle_one fs) ?leased" extra, OF refl fs(3) _ n])
    show "map ob_id (map (fold settle_one fs) ?leased) = map ob_id (outbox (db w))" using kept by simp
    show "let e = outbox (db w) ! k; e' = map (fold settle_one fs) ?leased ! k in
       if ob_id e \<in> set ?ids then event_ok e' \<and> (\<exists>res. phase e' = finish res (take_up (phase e))) else e' = e"
      if "k < length (map (fold settle_one fs) ?leased)" for k
      using row [of "outbox (db w) ! k"] that by (simp add: Let_def)
  qed
qed

subsection \<open>The worker's publisher only adds events\<close>

definition extends :: "outbox_row list \<Rightarrow> database \<Rightarrow> bool" where
  "extends old d \<longleftrightarrow> prefix old (outbox d)"

named_theorems extends_rules \<open>introduction rules for runs that only add events\<close>

lemma extends_stmt:
  "(\<And>E w a d'. q E w = Inr (a, d') \<Longrightarrow> \<exists>new. outbox d' = outbox (db w) @ new) \<Longrightarrow> keeps (extends old) (stmt q)"
  by (rule keeps_stmt) (auto simp: extends_def, metis append.assoc prefix_def)

lemma extends_exec [extends_rules]:
  "keeps (extends old) (exec_update_seats ps fs)" "keeps (extends old) (exec_update_assignments pa fa)"
  "keeps (extends old) (exec_update_refunds pr fr)" "keeps (extends old) (exec_update_attempts pt ft)"
  "keeps (extends old) (exec_update_bookings pb fb)" "keeps (extends old) (exec_update_segments pg fg)"
  "keeps (extends old) (exec_update_payments pp fp)" "keeps (extends old) (emit agg ev)"
  "keeps (extends old) (stmt (\<lambda>E w. insert_refund_once (g2 E w) p2 amount (db w)))"
  "keeps (extends old) (stmt (\<lambda>E w. insert_webhook provider event p3 ty (db w)))"
  "keeps (extends old) (stmt (\<lambda>E w. Inr (f E w, db w)))"
  "keeps (extends old) (mark_reconciliation pay)" "keeps (extends old) (ReceiptConsumer_Publish consumer e)"
  unfolding exec_update_seats_def exec_update_assignments_def exec_update_refunds_def exec_update_attempts_def
    exec_update_bookings_def exec_update_segments_def exec_update_payments_def emit_def mark_reconciliation_def ReceiptConsumer_Publish_def
  by (intro extends_stmt;
      auto simp: run_simps Let_def insert_receipt_def split: if_splits sum.splits)+

lemma extends_parts:
  "keeps (extends old) (Apply provider event pay result)" "keeps (extends old) (dispatch_read pay)"
  "keeps (extends old) (refund_read pay)" "keeps (extends old) (refund_unknown pay)" "keeps (extends old) (in_tx (refund_settle pay))"
  unfolding Apply_def guarded_tx_def in_tx_def apply_body_def apply_failed_def apply_succeeded_def apply_late_def apply_confirm_def
    dispatch_read_def refund_read_def refund_unknown_def refund_settle_def
  by (intro keeps_rules extends_rules keeps_in_tx_body)+

lemma worker_appends: "appends E (dispatcher_Publish consumer provider)"
  unfolding appends_def
proof (intro allI impI)
  fix e s w r s' w'
  assume run: "dispatcher_Publish consumer provider e E (s, w) = (r, s', w')"
  have step: "extends (outbox (db w)) (db v')" if "keeps (extends (outbox (db w))) m" "m E v = (x, v')" "extends (outbox (db w)) (db v)"
    for m :: "'b dbact" and v x v'
    using keepsD [OF that(1,2,3)] .
  have start: "extends (outbox (db w)) (db w)" by (simp add: extends_def)
  have "extends (outbox (db w)) (db w')"
    using run start
    by (auto simp: dispatcher_Publish_def on_db_def Dispatch_def DispatchRefund_def
        split: if_splits option.splits sum.splits prod.splits
        dest: keepsD [OF extends_parts(1)] keepsD [OF extends_parts(2)] keepsD [OF extends_parts(3)] keepsD [OF extends_parts(5)]
          keepsD [OF extends_exec(12)] keepsD [OF extends_exec(13)]
        intro: keepsD [OF extends_parts(4) prod.collapse [symmetric]])
  then show "\<exists>new. outbox (db w') = outbox (db w) @ new" by (auto simp: extends_def prefix_def)
qed

subsection \<open>Properties\<close>

text \<open>Two due events, one of which has failed nine times.\<close>

definition demo_event :: "uuid \<Rightarrow> nat \<Rightarrow> outbox_row" where
  "demo_event u n = \<lparr>ob_id = u, ob_aggregate = 2, ob_type = ''BOOKING_CREATED'', ob_attempts = n, ob_next = 0, ob_locked = None,
     ob_token = None, ob_delivered = None, ob_dead = None\<rparr>"

definition demo_events :: database where
  "demo_events = demo_db\<lparr>outbox := [demo_event 61 0, demo_event 62 9]\<rparr>"

definition demo_claimed :: database where
  "demo_claimed = demo_db\<lparr>outbox := [(demo_event 61 1)\<lparr>ob_locked := Some (1030 * second), ob_token := Some 200\<rparr>,
     (demo_event 62 10)\<lparr>ob_locked := Some (1030 * second), ob_token := Some 201\<rparr>]\<rparr>"

lemma demo_events_ok: "outbox_ok demo_events" "outbox_ok demo_claimed"
  by (simp_all add: outbox_ok_def demo_events_def demo_claimed_def demo_event_def event_ok_def pending_def)

definition demo_lease :: "uuid \<Rightarrow> uuid \<Rightarrow> event" where
  "demo_lease u token = \<lparr>ev_id = u, ev_aggregate = demo_text 2, ev_type = ''BOOKING_CREATED'', ev_lease = token\<rparr>"

lemma demo_claim:
  "claim 10 demo_env (demo_world demo_events) = (Inr [demo_lease 61 200, demo_lease 62 201], \<lparr>db = demo_claimed, pc = 1, draws = 0, txn = 0\<rparr>)"
  by (simp add: claim_def stmt_def Let_def demo_world_def demo_env_def demo_events_def demo_claimed_def demo_event_def demo_lease_def
      claimed_ids_def claimable_def pending_def due_order_def claim_events_def event_of_def lease_def second_def)

text \<open>C31. The outbox refines the delivery machine: a claim takes up exactly the claimed events, and
  recording an outcome finishes exactly the event whose lease the worker still holds; every other
  event stays as it was, and the table stays well formed.\<close>

theorem outbox_refines:
  assumes "outbox_ok (db w)" and "claim limit E w = (Inr es, w1)"
    and "outbox_ok (db v)" and "record_outcome e ok E v = (Inr u, v1)"
  shows "deliveries (db w1) =
      on_events (set (claimed_ids (row_locked E (pc w)) (clock E (pc w)) limit (db w))) take_up (deliveries (db w)) \<and>
    deliveries (db v1) = on_events (lease_held e (db v)) (finish ok) (deliveries (db v)) \<and> outbox_ok (db w1) \<and> outbox_ok (db v1)"
  using claim_phases [OF assms(2,1)] record_phases [OF assms(4,3)] by blast

theorem outbox_refines_witness:
  "deliveries demo_claimed = [(61, Leased 1), (62, Leased 10)] \<and>
   deliveries (db (snd (record_outcome (demo_lease 62 201) False demo_env (demo_world demo_claimed)))) = [(61, Leased 1), (62, DeadLetter)]"
proof -
  let ?v = "demo_world demo_claimed" and ?run = "record_outcome (demo_lease 62 201) False demo_env (demo_world demo_claimed)"
  have r: "?run = (Inr (), snd ?run)" by (intro run_eq) (simp add: record_outcome_def stmt_def Let_def)
  from outbox_refines [OF _ demo_claim _ r] demo_events_ok show ?thesis
    by (simp add: demo_world_def demo_lease_def lease_held_def on_events_def deliveries_def demo_claimed_def demo_events_def
        demo_event_def phase_def demo_env_def claimed_ids_def claimable_def pending_def due_order_def second_def)
qed



text \<open>A batch of the worker that returns settled every event it claimed: each is delivered, dead or
  waits for its next attempt, with one more attempt counted, and every other event, claimed by no
  one, is untouched.\<close>

theorem batch_settles:
  assumes "Batch (Some (dispatcher_Publish consumer provider)) limit E (s, w) = (Inr n, s', w')" and "outbox_ok (db w)"
    and "k < length (outbox (db w))"
  shows "k < length (outbox (db w')) \<and> (let e = outbox (db w) ! k; e' = outbox (db w') ! k in
     ob_id e' = ob_id e \<and>
     (if ob_id e \<in> set (claimed_ids (row_locked E (pc w)) (clock E (pc w)) limit (db w))
      then event_ok e' \<and> (phase e' = finish True (take_up (phase e)) \<or> phase e' = finish False (take_up (phase e)))
      else e' = e))"
  using Batch_rows [OF assms(1,2) worker_appends]
proof cases
  case (1 ids rows extra)
  then have len: "length rows = length (outbox (db w))" by (metis length_map)
  with assms(3) 1(3) have "ob_id (rows ! k) = ob_id (outbox (db w) ! k)" by (metis nth_map)
  moreover have "phase e' = finish True p \<or> phase e' = finish False p" if "\<exists>res. phase e' = finish res p" for e' p
    using that by (metis (full_types))
  ultimately show ?thesis using 1(1,2) 1(5) [of k] assms(3) len by (simp add: Let_def nth_append split: if_splits)
qed

theorem batch_settles_witness:
  "let r = Batch (Some (dispatcher_Publish ''domain-ledger'' (None :: fake provider option))) 10 demo_env (\<lparr>results = [], Calls = 0\<rparr>, demo_world demo_events) in
   fst r = Inr 2 \<and> phase (outbox (db (snd (snd r))) ! 1) \<in> {Delivered, DeadLetter}"
proof -
  let ?r = "Batch (Some (dispatcher_Publish ''domain-ledger'' (None :: fake provider option))) 10 demo_env (\<lparr>results = [], Calls = 0\<rparr>, demo_world demo_events)"
  have f: "fst ?r = Inr 2"
    by (simp add: Batch_def on_db_def demo_claim dispatcher_Publish_def demo_lease_def ReceiptConsumer_Publish_def stmt_def Let_def
        insert_receipt_def guarded_def record_outcome_def demo_claimed_def demo_event_def demo_db_def empty_db_def update_where_def)
  then have r: "?r = (Inr 2, fst (snd ?r), snd (snd ?r))" by (metis prod.collapse)
  have c: "62 \<in> set (claimed_ids (row_locked demo_env (pc (demo_world demo_events))) (clock demo_env (pc (demo_world demo_events))) 10 (db (demo_world demo_events)))"
    by (simp add: demo_world_def demo_events_def demo_event_def demo_env_def claimed_ids_def claimable_def pending_def due_order_def second_def)
  from batch_settles [OF r, of 1] demo_events_ok c f show ?thesis
    by (simp add: Let_def demo_world_def demo_events_def demo_event_def phase_def)
qed

text \<open>An event taken up and failed again and again, at the given times and with the given leases.\<close>

fun failing :: "(ts \<times> ts \<times> uuid) list \<Rightarrow> outbox_row \<Rightarrow> outbox_row" where
  "failing [] e = e"
| "failing ((t, t', token) # rs) e = failing rs (postpone t' (lease t [(ob_id e, token)] e))"

lemma failing_phase:
  assumes "phase e = Waiting n" and "length rs + n \<le> 10" and "n < 10"
  shows "phase (failing rs e) = (if length rs + n < 10 then Waiting (length rs + n) else DeadLetter) \<and> ob_attempts (failing rs e) = length rs + n"
  using assms
proof (induction rs arbitrary: e n)
  case Nil
  then show ?case by (auto simp: phase_def split: if_splits)
next
  case (Cons x rs)
  obtain t t' token where x: "x = (t, t', token)" by (cases x)
  let ?e = "postpone t' (lease t [(ob_id e, token)] e)"
  from Cons.prems(1) have e: "ob_delivered e = None" "ob_dead e = None" "ob_token e = None" "ob_attempts e = n"
    by (auto simp: phase_def split: if_splits)
  then have a: "ob_attempts ?e = Suc n" "phase ?e = (if Suc n < 10 then Waiting (Suc n) else DeadLetter)"
    by (simp_all add: postpone_def lease_def phase_def)
  show ?case
  proof (cases "Suc n < 10")
    case True
    with Cons.IH [of ?e "Suc n"] a Cons.prems(2) x show ?thesis by simp
  next
    case False
    with Cons.prems(3) have "Suc n = 10" by simp
    moreover from this Cons.prems(2) have "length rs = 0" by simp
    then have "rs = []" by simp
    moreover note this
    ultimately show ?thesis using a x by simp
  qed
qed

text \<open>C33. An event whose publisher keeps failing is offered ten times: before the tenth failure it waits
  for its next attempt, and the tenth failure makes it a dead letter that no worker can claim.\<close>

theorem dead_letter_after_ten:
  assumes "phase e = Waiting 0" and "length rs \<le> 10"
  shows "(length rs < 10 \<longrightarrow> phase (failing rs e) = Waiting (length rs)) \<and>
    (length rs = 10 \<longrightarrow> phase (failing rs e) = DeadLetter \<and> \<not> claimable t (failing rs e))"
proof -
  from failing_phase [OF assms(1)] assms(2)
  have p: "phase (failing rs e) = (if length rs < 10 then Waiting (length rs) else DeadLetter)" by simp
  moreover have "\<not> claimable t x" if "phase x = DeadLetter" for x
    using that by (auto simp: phase_def claimable_def pending_def split: if_splits)
  ultimately show ?thesis by simp
qed

theorem dead_letter_after_ten_witness:
  "phase (failing (replicate 9 (0, 1, 7)) (demo_event 61 0)) = Waiting 9 \<and>
   phase (failing (replicate 10 (0, 1, 7)) (demo_event 61 0)) = DeadLetter"
proof -
  have "phase (demo_event 61 0) = Waiting 0" by (simp add: phase_def demo_event_def)
  from dead_letter_after_ten [OF this, of "replicate 9 (0, 1, 7)"] dead_letter_after_ten [OF this, of "replicate 10 (0, 1, 7)"]
  show ?thesis by simp
qed

end
