(* ===== verification/Tally.thy ===== *)
theory Tally
  imports CommerceRun OutboxProps
begin

text \<open>
  What every operation keeps beside the ledger and the commerce: each payment has exactly one attempt,
  the keys a provider may have seen are never lost, and the outbox stays well formed.
\<close>

definition provider_keys :: "env \<Rightarrow> database \<Rightarrow> string set" where
  "provider_keys E d = (\<lambda>a. uuid_text E (pa_key a)) ` set (attempts d) \<union> (\<lambda>r. ''refund-'' @ uuid_text E (rf_id r)) ` set (refunds d)"

definition tally :: "env \<Rightarrow> string set \<Rightarrow> database \<Rightarrow> bool" where
  "tally E ks d \<longleftrightarrow> map pa_payment (attempts d) = map p_id (payments d) \<and> ks \<subseteq> provider_keys E d \<and> outbox_ok d"

named_theorems tally_rules \<open>introduction rules for runs that keep the tally\<close>

lemma tally_same:
  assumes "tally E ks d" and "attempts d' = attempts d" "payments d' = payments d" "refunds d' = refunds d" "outbox d' = outbox d"
  shows "tally E ks d'"
  using assms by (simp add: tally_def provider_keys_def outbox_ok_def)

lemma tally_stmt:
  "(\<And>E w a d'. q E w = Inr (a, d') \<Longrightarrow> attempts d' = attempts (db w) \<and> payments d' = payments (db w) \<and>
      refunds d' = refunds (db w) \<and> outbox d' = outbox (db w)) \<Longrightarrow> keeps (tally E0 ks) (stmt q)"
  by (rule keeps_stmt) (blast intro: tally_same)

lemma image_update:
  "(\<And>r. k (f r) = k r) \<Longrightarrow> k ` set (update_where p f rows) = k ` set rows"
  by (metis map_update_where_keep set_map)

lemma tally_payments [tally_rules]:
  assumes "\<And>r. p_id (f r) = p_id r"
  shows "keeps (tally E0 ks) (exec_update_payments p f)"
  unfolding exec_update_payments_def
  by (rule keeps_stmt) (auto simp: update_payments_def Let_def guarded_Inr tally_def provider_keys_def outbox_ok_def map_update_where_keep assms)

lemma tally_attempts [tally_rules]:
  assumes "\<And>r. pa_payment (f r) = pa_payment r" and "\<And>r. pa_key (f r) = pa_key r"
  shows "keeps (tally E0 ks) (exec_update_attempts p f)"
proof -
  have "(\<lambda>a. uuid_text E0 (pa_key a)) ` set (update_where p f rows) = (\<lambda>a. uuid_text E0 (pa_key a)) ` set rows" for rows
    by (rule image_update) (simp add: assms)
  then show ?thesis
    unfolding exec_update_attempts_def
    by (intro keeps_stmt) (auto simp: tally_def provider_keys_def outbox_ok_def map_update_where_keep assms)
qed

lemma tally_refunds [tally_rules]:
  assumes "\<And>r. rf_id (f r) = rf_id r"
  shows "keeps (tally E0 ks) (exec_update_refunds p f)"
proof -
  have "(\<lambda>r. ''refund-'' @ uuid_text E0 (rf_id r)) ` set (update_where p f rows) = (\<lambda>r. ''refund-'' @ uuid_text E0 (rf_id r)) ` set rows" for rows
    by (rule image_update) (simp add: assms)
  then show ?thesis
    unfolding exec_update_refunds_def
    by (intro keeps_stmt) (auto simp: tally_def provider_keys_def outbox_ok_def)
qed

lemma tally_emit [tally_rules]: "keeps (tally E0 ks) (emit agg ev)"
  unfolding emit_def
  by (rule keeps_stmt) (auto simp: insert_outbox_Inr tally_def provider_keys_def outbox_ok_def event_ok_def pending_def)

lemma tally_exec [tally_rules]:
  "keeps (tally E0 ks) (exec_update_seats ps fs)" "keeps (tally E0 ks) (exec_update_assignments pa fa)"
  "keeps (tally E0 ks) (exec_update_bookings pb fb)" "keeps (tally E0 ks) (exec_update_segments pg fg)"
  "keeps (tally E0 ks) (idem_save rec res resp)" "keeps (tally E0 ks) (insert_hold params sel h)"
  "keeps (tally E0 ks) (use_quote q)"
  "keeps (tally E0 ks) (stmt (\<lambda>E w. insert_booking (r1 E w) (db w)))"
  "keeps (tally E0 ks) (stmt (\<lambda>E w. insert_segments (r2 E w) (db w)))"
  "keeps (tally E0 ks) (stmt (\<lambda>E w. insert_passenger (g3 E w) b3 p3 (db w)))"
  "keeps (tally E0 ks) (stmt (\<lambda>E w. update_passenger b4 (i4 E w) p4 (db w)))"
  "keeps (tally E0 ks) (stmt (\<lambda>E w. insert_quote (g5 E w) (u5 E w) (h5 E w) due5 cur5 (c5 E w) (t5 E w) (db w)))"
  "keeps (tally E0 ks) (stmt (\<lambda>E w. insert_quote_item (r6 E w) (db w)))"
  "keeps (tally E0 ks) (stmt (\<lambda>E w. insert_webhook provider event p7 ty (db w)))"
  "keeps (tally E0 ks) (stmt (\<lambda>E w. Inr (f8 E w, db w)))"
  unfolding exec_update_seats_def exec_update_assignments_def exec_update_bookings_def exec_update_segments_def
    idem_save_def insert_hold_def use_quote_def
  by (intro keeps_map_err tally_stmt; auto simp: run_simps insert_idem_def insert_quote_def guarded_Inr Let_def split: if_splits)+

lemma tally_refund [tally_rules]:
  "keeps (tally E0 ks) (stmt (\<lambda>E w. insert_refund (g1 E w) p1 amount (db w)))"
  "keeps (tally E0 ks) (stmt (\<lambda>E w. insert_refund_once (g2 E w) p2 amount (db w)))"
  by (intro keeps_stmt; auto simp: run_simps tally_def provider_keys_def outbox_ok_def split: if_splits)+

subsection \<open>The operations\<close>

lemma tally_HoldSeats: "keeps (tally E0 ks) (HoldSeats store params)"
proof -
  have select: "keeps (tally E0 ks) (apply_selection p ls la t h x)" for p ls la t h x
    unfolding apply_selection_def expire_assignment_def Let_def by (intro keeps_rules core_rules tally_rules)
  have locks: "keeps (tally E0 ks) (hold_locks store p st bh dep nh)" for p st bh dep nh
    unfolding hold_locks_def lockPassengers_def lockFlightSeats_def lockSeatAssignments_def by (intro keeps_rules core_rules tally_rules)
  have deadline: "keeps (tally E0 ks) (hold_deadline store st bh)" for st bh
    unfolding hold_deadline_def by (intro keeps_rules core_rules tally_rules)
  have work: "keeps (tally E0 ks) (hold_work store p rc)" for p rc
    unfolding hold_work_def hold_eligibility_def applySeatAssignments_def markFlightSeatsHeld_def hold_finish_def
    by (intro keeps_rules core_rules tally_rules select locks deadline)
  show ?thesis
    unfolding HoldSeats_def hold_body_def by (intro keeps_rules core_rules keeps_in_tx_body work)
qed

lemma tally_bookings:
  "keeps (tally E0 ks) (Release user bid key cancel)" "keeps (tally E0 ks) (ExpireHolds limit)"
  "keeps (tally E0 ks) (Apply provider event pay result)" "keeps (tally E0 ks) (RequestRefund user bid key)"
  "keeps (tally E0 ks) (SavePassenger user bid key p)"
  unfolding Release_def guarded_tx_def in_tx_def idem_tx_def release_work_def release_finish_def releaseInventory_def
    ExpireHolds_def expire_body_def expire_booking_def Apply_def apply_body_def apply_failed_def apply_succeeded_def
    apply_late_def apply_confirm_def RequestRefund_def refund_work_def refund_finish_def
    SavePassenger_def passenger_work_def store_passenger_def
  by (intro keeps_rules core_rules tally_rules keeps_in_tx_body; simp add: Let_def)+

lemma tally_insert_attempts: "keeps (tally E0 ks) (insert_attempts n u q amount currency)"
proof (induction n)
  case 0
  then show ?case by (simp only: insert_attempts.simps) (rule keeps_ret)
next
  case (Suc n)
  then show ?case by (simp only: insert_attempts.simps) (intro keeps_rules tally_rules)
qed

lemma tally_Create: "keeps (tally E0 ks) (Create user quoteID key)"
  unfolding Create_def guarded_tx_def in_tx_def idem_tx_def create_work_def create_write_def create_rest_def
  by (intro keeps_rules core_rules tally_rules keeps_in_tx_body tally_insert_attempts)

lemma tally_price_items: "keeps (tally E0 ks) (price_items vs acc)"
proof (induction vs arbitrary: acc)
  case Nil
  then show ?case by (simp only: price_items.simps) (rule keeps_ret)
next
  case (Cons v vs)
  obtain currency due taken where "acc = (currency, due, taken)" by (cases acc) auto
  then show ?case by (simp only: price_items.simps) (intro keeps_rules tally_rules Cons.IH)
qed

lemma tally_quote: "keeps (tally E0 ks) (quote_Create user items)"
  unfolding quote_Create_def in_tx_def quote_body_def
  by (intro keeps_rules tally_rules keeps_in_tx_body tally_price_items)

lemma start_new_tally:
  assumes run: "start_new b amount currency rec E w = (Inr x, w')" and old: "tally E0 ks (db w)"
  shows "tally E0 ks (db w')"
proof -
  from run obtain pid w1 w2 a3 w3 w4 rc u2 u4 u5 where s:
    "stmt (\<lambda>E w. insert_payment (gen_uuid E (pc w) 0) b amount currency (db w)) E w = (Inr pid, w1)"
    "stmt (\<lambda>E w. insert_attempt (gen_uuid E (pc w) 0) (gen_uuid E (pc w) 1) pid (txn w) (db w)) E w1 = (Inr u2, w2)"
    "exec_update_bookings (\<lambda>r. b_id r = b) (\<lambda>r. r\<lparr>b_status := B_PAYMENT_PENDING, b_version := b_version r + 1\<rparr>) E w2 = (Inr a3, w3)"
    "emit pid ''PAYMENT_REQUESTED'' E w3 = (Inr u4, w4)" "idem_save rec pid rc E w4 = (Inr u5, w')"
    unfolding start_new_def andthen_Inr reading_Inr ret_Inr by blast
  have "tally E0 ks (db w2)"
    using s(1,2) old by (auto simp: stmt_Inr insert_payment_Inr insert_attempt_Inr tally_def provider_keys_def outbox_ok_def)
  from keepsD [OF tally_exec(3) s(3) this] keepsD [OF tally_emit s(4)] keepsD [OF tally_exec(5) s(5)]
  show ?thesis by blast
qed

lemma tally_Start: "keeps (tally E0 ks) (Start user bid key)"
  unfolding Start_def
proof (rule keeps_guarded_idem)
  fix rec E w r w'
  assume old: "tally E0 ks (db w)" and run: "start_work user bid rec E w = (Inr (Commit r), w')"
  from start_work_Inr [OF run] show "tally E0 ks (db w')"
  proof (elim disjE exE conjE)
    fix p
    assume d: "db w' = (db w)\<lparr>idem_records := idem_records (db w) @ [\<lparr>ir_user = uuid_of E (rec_user rec), ir_route = rec_route rec,
        ir_key = rec_key rec, ir_hash = rec_hash rec, ir_resource = p_id p, ir_response = payment_json (payment_of E p)\<rparr>]\<rparr>"
    show ?thesis by (rule tally_same [OF old]) (simp_all add: d)
  qed (use old start_new_tally in metis)
qed

subsection \<open>Dispatching and the outbox\<close>

lemma tally_dispatch:
  "keeps (tally E0 ks) (dispatch_read pay)" "keeps (tally E0 ks) (refund_read pay)" "keeps (tally E0 ks) (refund_unknown pay)"
  "keeps (tally E0 ks) (in_tx (refund_settle pay))"
  unfolding dispatch_read_def refund_read_def refund_unknown_def in_tx_def refund_settle_def
  by (intro keeps_rules tally_rules keeps_in_tx_body; simp)+

lemma tally_mark: "keeps (tally E0 ks) (mark_reconciliation pay)"
  unfolding mark_reconciliation_def
proof (rule keeps_stmt)
  fix E w a d'
  let ?hit = "\<lambda>p. p_id p = uuid_of E pay \<and> (p_status p = P_PENDING \<or> p_status p = P_PROCESSING \<or> p_status p = P_RECONCILIATION_REQUIRED)"
  let ?f = "\<lambda>p. p\<lparr>p_status := P_RECONCILIATION_REQUIRED, p_version := p_version p + 1\<rparr>"
  assume old: "tally E0 ks (db w)" and run: "(let pid = uuid_of E pay;
           hit = (\<lambda>p. p_id p = pid \<and> (p_status p = P_PENDING \<or> p_status p = P_PROCESSING \<or> p_status p = P_RECONCILIATION_REQUIRED)) in
       case update_payments hit ?f (db w) of Inl e \<Rightarrow> Inl e
       | Inr (n, d) \<Rightarrow> if n = 0 then Inr ((), d)
                       else insert_outbox (gen_uuid E (pc w) 0) pid ''PAYMENT_RECONCILIATION_REQUIRED'' (clock E (pc w)) d) = Inr (a, d')"
  have "tally E0 ks ((db w)\<lparr>payments := update_where ?hit ?f (payments (db w))\<rparr>)"
    using old by (simp add: tally_def provider_keys_def outbox_ok_def map_update_where_keep)
  moreover have "tally E0 ks d2" if "tally E0 ks d1" "insert_outbox new agg ev t d1 = Inr (a, d2)" for new agg ev t d1 d2
    using that by (auto simp: insert_outbox_Inr tally_def provider_keys_def outbox_ok_def event_ok_def pending_def)
  ultimately show "tally E0 ks d'" using run by (auto simp: Let_def update_payments_Inr split: sum.splits if_splits)
qed

lemma tally_outbox:
  "keeps (tally E0 ks) (claim limit)" "keeps (tally E0 ks) (record_outcome e ok)" "keeps (tally E0 ks) (ReceiptConsumer_Publish consumer e)"
proof -
  show "keeps (tally E0 ks) (claim limit)"
  proof (rule keepsI)
    fix E w r w'
    assume old: "tally E0 ks (db w)" and run: "claim limit E w = (r, w')"
    show "tally E0 ks (db w')"
    proof (cases r)
      case (Inl e)
      with run old show ?thesis by (auto simp: claim_def stmt_def Let_def split: option.splits)
    next
      case (Inr es)
      from run [unfolded Inr] obtain tokens where d: "db w' = (db w)\<lparr>outbox := map (lease (clock E (pc w)) tokens) (outbox (db w))\<rparr>"
        by (rule claim_Inr) blast
      from claim_phases(1) [OF run [unfolded Inr]] old d show ?thesis by (simp add: tally_def provider_keys_def)
    qed
  qed
  show "keeps (tally E0 ks) (record_outcome e ok)"
  proof (rule keepsI)
    fix E w r w'
    assume old: "tally E0 ks (db w)" and run: "record_outcome e ok E w = (r, w')"
    show "tally E0 ks (db w')"
    proof (cases r)
      case (Inl x)
      with run old show ?thesis by (auto simp: record_outcome_def stmt_def Let_def split: option.splits)
    next
      case (Inr u)
      with run have r: "record_outcome e ok E w = (Inr u, w')" by simp
      with record_phases(1) [OF r] old show ?thesis by (auto simp: record_outcome_Inr tally_def provider_keys_def)
    qed
  qed
  show "keeps (tally E0 ks) (ReceiptConsumer_Publish consumer e)"
    unfolding ReceiptConsumer_Publish_def by (rule tally_stmt) (auto simp: insert_receipt_def guarded_Inr split: if_splits)
qed

end
