(* ===== verification/LedgerBooking.thy ===== *)
theory LedgerBooking
  imports Ledger HoldRun Lifecycle
begin

text \<open>Holding, releasing and expiring keep the ledger.\<close>

lemma held_ledger:
  assumes old: "ledger_ok d" and h: "held E store p t h d d'" and inv: "inventory_ok d'"
  shows "ledger_ok d'"
proof -
  let ?b = "uuid_of E (BookingID p)" and ?F = "uuid_of E (FlightInstanceID p)" and ?ids = "set (seat_uuids E (Seats p))"
  let ?f = "\<lambda>r. r\<lparr>b_status := B_HELD, b_hold := Some h, b_version := b_version r + 1\<rparr>"
  let ?g = "\<lambda>s. s\<lparr>fs_booking := Some ?b, fs_state := SEAT_HELD, fs_hold := Some h, fs_version := fs_version s + 1\<rparr>"
  from h have bk: "bookings d' = update_where (\<lambda>r. b_id r \<in> {?b}) ?f (bookings d)"
    and st: "seats d' = update_where (\<lambda>s. fs_flight s = ?F \<and> fs_id s \<in> ?ids) ?g (seats d)"
    and pay: "payments d' = payments d" "refunds d' = refunds d"
    by (simp_all add: held_def)
  from h obtain bst bhold sst departure where
    q: "booking_and_segment ?b (uuid_of E (BookingSegmentID p)) ?F (uuid_of E (UserID p)) d = Some (bst, bhold, sst)"
    and "hold_time store bst bhold departure t h"
    unfolding held_def by blast
  then have bst: "bst = B_DRAFT \<or> bst = B_HELD" by (auto simp: hold_time_def)
  from booking_and_segment_Some [OF q] obtain r where "r \<in> set (bookings d)" "b_id r = ?b" "b_status r = bst" by blast
  with ledger_keys [OF old] bst have before: "bstat d ?b \<in> {Some B_DRAFT, Some B_HELD}"
    using bstat_row [of d r] by (auto simp: keys_ok_def)
  note stat = bstat_update [OF bk, where st = B_HELD, simplified]
  have after: "bstat d' ?b = Some B_HELD" using before stat by auto
  show ?thesis
  proof (rule ledger_okI_unpaid [OF inv old, where B = "{?b}"])
    show "distinct (map b_id (bookings d'))"
      unfolding bk by (rule distinct_map_update_keep) (use ledger_keys [OF old] in \<open>auto simp: keys_ok_def\<close>)
    show "s \<in> set (seats d) \<and> fs_booking s \<notin> Some ` {?b} \<or> seat_status_ok d' s" if s: "s \<in> set (seats d')" for s
    proof (cases "fs_booking s = Some ?b")
      case True
      have "fs_state s \<noteq> BOOKED"
      proof
        assume b: "fs_state s = BOOKED"
        with s st have "s \<in> set (seats d)" by (auto simp: set_update_where split: if_splits)
        with ledger_seat [OF old this] True b before show False by (auto simp: seat_status_ok_def)
      qed
      with True after show ?thesis by (simp add: seat_status_ok_def)
    next
      case False
      with s st show ?thesis by (auto simp: set_update_where split: if_splits)
    qed
    show "payment_ok d' q" if "q \<in> set (payments d)" "p_booking q \<in> {?b}" for q
      using unpaid_booking [OF old before that(1)] that(2) by simp
  qed (use stat pay after in auto)
qed

lemma HoldSeats_ledger:
  assumes "uuid_codec E" and "ledger_ok (db w)"
  shows "ledger_ok (db (snd (HoldSeats store q E w)))"
proof (cases "HoldSeats store q E w")
  case (Pair r w')
  show ?thesis
  proof (cases r)
    case (Inl e)
    with Pair HoldSeats_failed [of store q E w e w'] assms(2) show ?thesis by simp
  next
    case (Inr a)
    with Pair HoldSeats_committed [OF assms(1) ledger_inventory [OF assms(2)], of store q a w'] assms(2)
    show ?thesis by (auto intro: held_ledger)
  qed
qed

lemma freed_seats:
  assumes "seats d' = update_where (\<lambda>s. fs_booking s \<in> Some ` B \<and> fs_state s = st) free_seat (seats d)"
    and "s \<in> set (seats d')"
  shows "s \<in> set (seats d) \<and> \<not> (fs_booking s \<in> Some ` B \<and> fs_state s = st) \<or> fs_booking s = None"
  using assms by (auto simp: set_update_where free_seat_def split: if_splits)

lemma released_ledger:
  assumes old: "ledger_ok d" and rel: "released b c d d'" and inv: "inventory_ok d'"
    and own: "owned_booking b u d = Some r" "b_status r = B_DRAFT \<or> b_status r = B_HELD"
  shows "ledger_ok d'"
proof -
  let ?st = "if c then B_CANCELLED else B_DRAFT"
  let ?f = "\<lambda>r. r\<lparr>b_status := ?st, b_hold := None, b_version := b_version r + 1\<rparr>"
  from rel have bk: "bookings d' = update_where (\<lambda>r. b_id r \<in> {b}) ?f (bookings d)"
    and st: "seats d' = update_where (\<lambda>s. fs_booking s \<in> Some ` {b} \<and> fs_state s = SEAT_HELD) free_seat (seats d)"
    and pay: "payments d' = payments d" "refunds d' = refunds d"
    by (simp_all add: released_def)
  have r: "r \<in> set (bookings d)" "b_id r = b" using find_row_SomeD own(1) unfolding owned_booking_def by fastforce+
  then have before: "bstat d b \<in> {Some B_DRAFT, Some B_HELD}"
    using bstat_row [of d r] ledger_keys [OF old] own(2) by (auto simp: keys_ok_def)
  note stat = bstat_update [OF bk, where st = ?st, simplified]
  have after: "bstat d' b = Some ?st" using before stat by auto
  show ?thesis
  proof (rule ledger_okI_unpaid [OF inv old, where B = "{b}"])
    show "distinct (map b_id (bookings d'))"
      unfolding bk by (rule distinct_map_update_keep) (use ledger_keys [OF old] in \<open>auto simp: keys_ok_def\<close>)
    show "s \<in> set (seats d) \<and> fs_booking s \<notin> Some ` {b} \<or> seat_status_ok d' s" if s: "s \<in> set (seats d')" for s
      using freed_seats [OF st s] ledger_seat [OF old, of s] before by (auto simp: seat_status_ok_def)
    show "payment_ok d' q" if "q \<in> set (payments d)" "p_booking q \<in> {b}" for q
      using unpaid_booking [OF old before that(1)] that(2) by simp
  qed (use stat pay after in auto)
qed

lemma keeps_ledger_Release: "keeps ledger_ok (Release user bid key c)"
  unfolding Release_def
proof (rule keeps_guarded_idem)
  fix rec E w r w'
  assume old: "ledger_ok (db w)" and run: "release_work user bid c rec E w = (Inr (Commit r), w')"
  from release_work_Inr [OF run] ledger_inventory [OF old] old show "ledger_ok (db w')"
    by (auto intro: released_ledger)
qed

lemma expired_ledger:
  assumes old: "ledger_ok d" and t: "expired_together (set ids) d d'" and inv: "inventory_ok d'"
    and ids: "\<And>b. b \<in> set ids \<Longrightarrow> bstat d b \<in> {Some B_HELD, Some B_PAYMENT_PENDING}"
  shows "ledger_ok d'"
proof -
  let ?f = "\<lambda>r. r\<lparr>b_status := B_EXPIRED, b_version := b_version r + 1\<rparr>"
  have some: "(\<exists>b \<in> set ids. x = Some b) \<longleftrightarrow> x \<in> Some ` set ids" for x :: "uuid option" by auto
  from t have bk: "bookings d' = update_where (\<lambda>r. b_id r \<in> set ids) ?f (bookings d)"
    and st: "seats d' = update_where (\<lambda>s. fs_booking s \<in> Some ` set ids \<and> fs_state s = SEAT_HELD) free_seat (seats d)"
    and pay: "payments d' = payments d" "refunds d' = refunds d"
    by (simp_all add: expired_together_def some)
  note stat = bstat_update [OF bk, where st = B_EXPIRED, simplified]
  show ?thesis
  proof (rule ledger_okI_unpaid [OF inv old, where B = "set ids"])
    show "distinct (map b_id (bookings d'))"
      unfolding bk by (rule distinct_map_update_keep) (use ledger_keys [OF old] in \<open>auto simp: keys_ok_def\<close>)
    show "s \<in> set (seats d) \<and> fs_booking s \<notin> Some ` set ids \<or> seat_status_ok d' s" if s: "s \<in> set (seats d')" for s
      using freed_seats [OF st s] ledger_seat [OF old, of s] ids
      by (cases "fs_state s") (fastforce simp: seat_status_ok_def)+
    show "payment_ok d' q" if q: "q \<in> set (payments d)" "p_booking q \<in> set ids" for q
    proof -
      have "bstat d (p_booking q) \<in> {Some B_HELD, Some B_PAYMENT_PENDING}" "bstat d' (p_booking q) = Some B_EXPIRED"
        using ids [OF q(2)] stat [of "p_booking q"] q(2) by auto
      with ledger_payment [OF old q(1)] show ?thesis
        by (cases "p_status q") (auto simp: payment_ok_def)
    qed
    show "bstat d' b \<notin> {Some B_CONFIRMED, Some B_TICKETED}" if "b \<in> set ids" for b
      using stat [of b] that by (cases "bstat d b") auto
  qed (use stat pay in auto)
qed

lemma keeps_ledger_ExpireHolds: "keeps ledger_ok (ExpireHolds limit)"
  unfolding ExpireHolds_def
proof (intro keeps_if keeps_fail keeps_in_tx)
  fix E w r w'
  assume old: "ledger_ok (db w)" and run: "expire_body limit E w = (Inr (Commit r), w')"
  note keys = ledger_keys [OF old]
  from expire_body_Inr [OF run] keys obtain n ids where ids: "ids = expirable (row_locked E n) (clock E n) limit (db w)"
    "expired_together (set ids) (db w) (db w')" by (auto simp: keys_ok_def)
  have "bstat (db w) b \<in> {Some B_HELD, Some B_PAYMENT_PENDING}" if "b \<in> set ids" for b
  proof -
    from that ids(1) obtain x where "x \<in> set (bookings (db w))" "b_id x = b" "hold_expired (clock E n) x"
      by (auto simp: expirable_def dest!: in_set_takeD)
    with keys bstat_row [of "db w" x] show ?thesis by (auto simp: keys_ok_def hold_expired_def)
  qed
  from expired_ledger [OF old ids(2) expire_body_ok [OF run ledger_inventory [OF old]] this] show "ledger_ok (db w')" .
qed

end
