(* ===== verification/System.thy ===== *)
theory System
  imports Tally LedgerBooking
begin

text \<open>
  The whole program as a transition system: requests and the worker's statements run one after the
  other on the shared database, and the calls to the provider, which no transaction spans, are cut
  at every point where another step may come between.  A call once made is never forgotten, so a
  run may repeat or drop what follows it: crashed and duplicated workers are runs of this system.
  The provider is \<open>FakeProvider\<close>, whose every call may be cancelled.
\<close>

subsection \<open>Requests and statements\<close>

datatype request =
    ReqQuote string "selection list"
  | ReqCreate string string string
  | ReqPassenger string string string passenger
  | ReqHold booking_store hold_params
  | ReqRelease string string string bool
  | ReqStart string string string
  | ReqRefund string string string
  | Webhook string string string pay_result
  | Expire int
  | Claim int
  | Outcome event bool
  | Receipt string event

fun serve :: "env \<Rightarrow> request \<Rightarrow> database world \<Rightarrow> database world" where
  "serve E (ReqQuote user items) w = snd (quote_Create user items E w)"
| "serve E (ReqCreate user q key) w = snd (Create user q key E w)"
| "serve E (ReqPassenger user b key p) w = snd (SavePassenger user b key p E w)"
| "serve E (ReqHold store params) w = snd (HoldSeats store params E w)"
| "serve E (ReqRelease user b key c) w = snd (Release user b key c E w)"
| "serve E (ReqStart user b key) w = snd (Start user b key E w)"
| "serve E (ReqRefund user b key) w = snd (RequestRefund user b key E w)"
| "serve E (Webhook provider event pay result) w = snd (Apply provider event pay result E w)"
| "serve E (Expire limit) w = snd (ExpireHolds limit E w)"
| "serve E (Claim limit) w = snd (claim limit E w)"
| "serve E (Outcome e ok) w = snd (record_outcome e ok E w)"
| "serve E (Receipt consumer e) w = snd (ReceiptConsumer_Publish consumer e E w)"

subsection \<open>Calls to the provider\<close>

datatype call =
    AskCharge string pay_request
  | Answered string pay_request pay_result
  | NoAnswer string
  | AskRefund string pay_request
  | RefundDone string
  | NoRefund string

type_synonym system = "database world \<times> fake \<times> call list"

fun asked :: "(string \<Rightarrow> pay_request \<Rightarrow> call) \<Rightarrow> string \<Rightarrow> gerr + pay_request option \<Rightarrow> call list" where
  "asked ask pay (Inr (Some req)) = [ask pay req]"
| "asked ask pay _ = []"

definition charge_answer :: "string \<Rightarrow> pay_request \<Rightarrow> gerr + pay_result \<Rightarrow> call list" where
  "charge_answer pay req r = (case r of Inl _ \<Rightarrow> [NoAnswer pay] | Inr v \<Rightarrow> [Answered pay req v])"

definition refund_answer :: "string \<Rightarrow> gerr + pay_result \<Rightarrow> call list" where
  "refund_answer pay r = (case r of Inl _ \<Rightarrow> [NoRefund pay] | Inr v \<Rightarrow> if Status v = ''SUCCEEDED'' then [RefundDone pay] else [])"

inductive sys_step :: "env \<Rightarrow> system \<Rightarrow> system \<Rightarrow> bool" for E :: env where
  request: "sys_step E (w, s, cs) (serve E req w, s, cs)"
| read: "dispatch_read pay E w = (r, w') \<Longrightarrow> sys_step E (w, s, cs) (w', s, asked AskCharge pay r @ cs)"
| charge: "AskCharge pay req \<in> set cs \<Longrightarrow> payment_provider.settle (FakeProvider ctx) req s = (r, s') \<Longrightarrow>
    sys_step E (w, s, cs) (w, s', charge_answer pay req r @ cs)"
| settle: "Answered pay req v \<in> set cs \<Longrightarrow>
    sys_step E (w, s, cs) (snd (Apply ''dispatch'' (Key req @ '':'' @ Status v) pay v E w), s, cs)"
| mark: "NoAnswer pay \<in> set cs \<Longrightarrow> sys_step E (w, s, cs) (snd (mark_reconciliation pay E w), s, cs)"
| read_refund: "refund_read pay E w = (r, w') \<Longrightarrow> sys_step E (w, s, cs) (w', s, asked AskRefund pay r @ cs)"
| give_back: "AskRefund pay req \<in> set cs \<Longrightarrow> prov_refund (FakeProvider ctx) req s = (r, s') \<Longrightarrow>
    sys_step E (w, s, cs) (w, s', refund_answer pay r @ cs)"
| settle_refund: "RefundDone pay \<in> set cs \<Longrightarrow> sys_step E (w, s, cs) (snd (in_tx (refund_settle pay) E w), s, cs)"
| mark_refund: "NoRefund pay \<in> set cs \<Longrightarrow> sys_step E (w, s, cs) (snd (refund_unknown pay E w), s, cs)"

inductive_cases sys_stepE: "sys_step E st st'"

subsection \<open>The invariant of the system\<close>

fun call_keys :: "call \<Rightarrow> string set" where
  "call_keys (AskCharge pay req) = {Key req}"
| "call_keys (AskRefund pay req) = {''refund-'' @ Key req}"
| "call_keys _ = {}"

definition known_keys :: "fake \<Rightarrow> call list \<Rightarrow> string set" where
  "known_keys s cs = fst ` set (results s) \<union> (\<Union>c \<in> set cs. call_keys c)"

fun sys_ok :: "env \<Rightarrow> system \<Rightarrow> bool" where
  "sys_ok E (w, s, cs) \<longleftrightarrow> ledger_ok (db w) \<and> commerce_ok (db w) \<and> tally E (known_keys s cs) (db w) \<and>
     distinct (map fst (results s)) \<and> Calls s = length (results s)"

lemma sys_okD:
  assumes "sys_ok E (w, s, cs)"
  shows "ledger_ok (db w)" and "commerce_ok (db w)" and "tally E (known_keys s cs) (db w)"
    and "distinct (map fst (results s))" and "Calls s = length (results s)"
  using assms by simp_all

text \<open>The new operations keep the ledger.\<close>

lemma created_ledger:
  assumes old: "ledger_ok d" and new: "created E u pq d s d'"
  shows "ledger_ok d'"
proof -
  from new obtain r ids segs ob ir where fresh: "fresh_booking u (pq_id pq) (pq_total pq) (pq_currency pq) d r"
    and d': "d' = d\<lparr>bookings := bookings d @ [r], segments := segments d @ segs,
               quotes := update_where (\<lambda>x. pq_id x = pq_id pq) (\<lambda>x. x\<lparr>pq_status := Q_USED\<rparr>) (quotes d), outbox := ob, idem_records := ir\<rparr>"
    unfolding created_def by blast
  from fresh have r: "b_id r \<notin> b_id ` set (bookings d)" "r = new_booking (b_id r) u (pq_id pq) (b_pnr r) (pq_total pq) (pq_currency pq) (b_created r)"
    by (simp_all add: fresh_booking_def)
  have draft: "b_status r = B_DRAFT" by (subst r(2)) (simp add: new_booking_def)
  have "find_row (\<lambda>x. b_id x = b_id r) (bookings d) = None" unfolding find_row_None_iff using r(1) by (metis imageI)
  then have none: "bstat d (b_id r) = None" by (simp add: bstat_def)
  have stat: "bstat d' b = (if b = b_id r then Some B_DRAFT else bstat d b)" for b
    using bstat_append [of d r b] none draft unfolding d' by (auto simp: bstat_def split: option.splits)
  show ?thesis
  proof (rule ledger_okI_unpaid [OF _ old, where B = "{b_id r}"])
    show "inventory_ok d'" using ledger_inventory [OF old] by (simp add: d' inventory_ok_def)
    show "distinct (map b_id (bookings d'))" using ledger_keys [OF old] r(1) by (simp add: d' keys_ok_def)
    show "s \<in> set (seats d) \<and> fs_booking s \<notin> Some ` {b_id r} \<or> seat_status_ok d' s" if "s \<in> set (seats d')" for s
    proof -
      from that have s: "s \<in> set (seats d)" by (simp add: d')
      have "seat_status_ok d' s" if "fs_booking s = Some (b_id r)"
        using ledger_seat [OF old s] that none by (auto simp: seat_status_ok_def)
      with s show ?thesis by auto
    qed
    show "payment_ok d' q" if "q \<in> set (payments d)" "p_booking q \<in> {b_id r}" for q
      using ledger_payment [OF old that(1)] that(2) none by (auto simp: payment_ok_def)
    show "bstat d' b = bstat d b" if "b \<notin> {b_id r}" for b using that by (simp add: stat)
    show "payments d' = payments d" "refunds d' = refunds d" by (simp_all add: d')
    show "bstat d' b \<notin> {Some B_CONFIRMED, Some B_TICKETED}" if "b \<in> {b_id r}" for b using that by (simp add: stat)
  qed
qed

lemma ledger_requests:
  "keeps ledger_ok (Create user quoteID key)" "keeps ledger_ok (SavePassenger user bid key p)" "keeps ledger_ok (claim limit)"
  "keeps ledger_ok (record_outcome e ok)" "keeps ledger_ok (ReceiptConsumer_Publish consumer e)"
proof -
  show "keeps ledger_ok (Create user quoteID key)" by (rule keeps_Create) (rule created_ledger)
  show "keeps ledger_ok (SavePassenger user bid key p)"
    by (rule keeps_SavePassenger) (auto simp: saved_passenger_def)
qed (auto simp: claim_def record_outcome_def ReceiptConsumer_Publish_def insert_receipt_def guarded_Inr Let_def intro!: keeps_stmt split: if_splits)

lemma ledger_quote:
  assumes "commerce_ok (db w)" and "ledger_ok (db w)"
  shows "ledger_ok (db (snd (quote_Create user items E w)))"
proof (cases "quote_Create user items E w")
  case (Pair r w')
  show ?thesis
  proof (cases r)
    case (Inl e)
    with Pair quote_Create_failed [of user items E w e w'] assms(2) show ?thesis by simp
  next
    case (Inr qt)
    with Pair quote_Create_Inr [of user items E w qt w'] quotes_ok_fares [OF assms(1)] assms(2) show ?thesis
      by (auto simp: quoted_def)
  qed
qed

lemma core_outbox:
  "keeps (\<lambda>d. core d = c) (claim limit)" "keeps (\<lambda>d. core d = c) (record_outcome e ok)"
  "keeps (\<lambda>d. core d = c) (ReceiptConsumer_Publish consumer e)"
  by (auto simp: claim_def record_outcome_def ReceiptConsumer_Publish_def insert_receipt_def guarded_Inr Let_def
      intro!: core_stmt split: if_splits)

lemma keeps_snd: "keeps I m \<Longrightarrow> I (db w) \<Longrightarrow> I (db (snd (m E w)))"
  by (simp add: keeps_def)

lemma serve_ok:
  assumes codec: "uuid_codec E" and old: "ledger_ok (db w)" "commerce_ok (db w)" "tally E ks (db w)"
  shows "ledger_ok (db (serve E req w)) \<and> commerce_ok (db (serve E req w)) \<and> tally E ks (db (serve E req w))"
  using old HoldSeats_ledger [OF codec old(1)] ledger_quote [OF old(2,1)]
  by (cases req)
    (auto intro: keeps_snd ledger_requests keeps_ledger_Release keeps_ledger_Start keeps_ledger_RequestRefund keeps_ledger_Apply
      keeps_ledger_ExpireHolds keeps_commerce_states keeps_commerce_quote keeps_commerce_Create keeps_commerce_SavePassenger
      keeps_commerce_Start core_outbox [THEN keeps_commerce] tally_quote tally_Create tally_HoldSeats tally_Start tally_bookings tally_outbox)

subsection \<open>Every step keeps the invariant\<close>

lemma update_absent: "k \<notin> fst ` set xs \<Longrightarrow> AList.update k v xs = xs @ [(k, v)]"
  by (induction xs) auto

lemma fake_keys:
  assumes "prov_charge (FakeProvider ctx) req s = (r, s')" and "distinct (map fst (results s))" and "Calls s = length (results s)"
  shows "fst ` set (results s') \<subseteq> insert (Key req) (fst ` set (results s)) \<and> distinct (map fst (results s')) \<and> Calls s' = length (results s')"
proof (cases "map_of (results s) (Key req)")
  case None
  then have "Key req \<notin> fst ` set (results s)" by (simp add: map_of_eq_None_iff)
  then have "AList.update (Key req) v (results s) = results s @ [(Key req, v)]" for v by (rule update_absent)
  with assms None show ?thesis
    by (auto simp: FakeProvider_def fake_Charge_def Let_def map_of_eq_None_iff split: option.splits)
next
  case (Some v)
  with assms show ?thesis by (auto simp: FakeProvider_def fake_Charge_def split: option.splits)
qed

text \<open>What a read asks for is known to the database.\<close>

lemma dispatch_read_key:
  assumes "dispatch_read pay E w = (Inr (Some req), w')"
  shows "Key req \<in> provider_keys E (db w') \<and> db w' = db w"
proof -
  from assms obtain k a c st where r: "dispatch_row (uuid_of E pay) (db w) = Some (k, a, c, st)" "Key req = uuid_text E k" "db w' = db w"
    by (auto simp: dispatch_read_def andthen_Inr reading_Inr stmt_Inr split: if_splits option.splits)
  let ?rows = "[(pa_created a, pa_key a, p_amount p, p_currency p, p_status p).
          p \<leftarrow> payments (db w), a \<leftarrow> attempts (db w), pa_payment a = p_id p \<and> p_id p = uuid_of E pay]"
  from r(1) obtain t where "first_row (sort_key fst ?rows) = Some (t, k, a, c, st)"
    by (auto simp: dispatch_row_def)
  from first_row_Some [OF this] have "(t, k, a, c, st) \<in> set ?rows" by simp
  then have "k \<in> pa_key ` set (attempts (db w))" by (auto split: if_splits)
  with r(2,3) show ?thesis by (auto simp: provider_keys_def)
qed

lemma refund_read_key:
  assumes "refund_read pay E w = (Inr (Some req), w')"
  shows "''refund-'' @ Key req \<in> provider_keys E (db w') \<and> db w' = db w"
proof -
  from assms obtain k a c st where r: "refund_row_of (uuid_of E pay) (db w) = Some (k, a, c, st)" "Key req = uuid_text E k" "db w' = db w"
    by (auto simp: refund_read_def andthen_Inr reading_Inr stmt_Inr split: if_splits option.splits)
  from first_row_Some [OF r(1) [unfolded refund_row_of_def]] have "k \<in> rf_id ` set (refunds (db w))" by (auto split: if_splits)
  with r(2,3) show ?thesis by (auto simp: provider_keys_def)
qed

lemma tally_more: "tally E ks d \<Longrightarrow> ks' \<subseteq> provider_keys E d \<Longrightarrow> tally E (ks \<union> ks') d"
  by (simp add: tally_def)

lemma tally_less: "tally E ks d \<Longrightarrow> ks' \<subseteq> ks \<Longrightarrow> tally E ks' d"
  by (auto simp: tally_def)

lemma known_keys_asked [simp]:
  "known_keys s (charge_answer pay req r @ cs) = known_keys s cs" "known_keys s (refund_answer pay r @ cs) = known_keys s cs"
  by (auto simp: known_keys_def charge_answer_def refund_answer_def split: sum.splits if_splits)

lemma known_keys_results: "fst ` set (results s') \<subseteq> insert k (fst ` set (results s)) \<Longrightarrow> k \<in> known_keys s cs \<Longrightarrow> known_keys s' cs \<subseteq> known_keys s cs"
  by (auto simp: known_keys_def)

lemma sys_step_ok:
  assumes "sys_step E st st'" and "uuid_codec E" and "sys_ok E st"
  shows "sys_ok E st'"
  using assms(1,3)
proof cases
  case (request w s cs req)
  with serve_ok [OF assms(2), of w "known_keys s cs" req] assms(3) show ?thesis by simp
next
  case (read pay w r w' s cs)
  note old = sys_okD [OF assms(3) [unfolded read(1)]]
  have "known_keys s (asked AskCharge pay r @ cs) = known_keys s cs \<union> (\<Union>c \<in> set (asked AskCharge pay r). call_keys c)"
    by (auto simp: known_keys_def)
  moreover have "(\<Union>c \<in> set (asked AskCharge pay r). call_keys c) \<subseteq> provider_keys E (db w')"
    using read(3) by (cases "(AskCharge, pay, r)" rule: asked.cases) (auto dest!: dispatch_read_key)
  moreover have "ledger_ok (db w')" "commerce_ok (db w')" "tally E (known_keys s cs) (db w')"
    using old read(3) by (auto dest: keepsD [OF keeps_ledger_reads(1)] keepsD [OF core_dispatch(1) [THEN keeps_commerce]]
        keepsD [OF tally_dispatch(1)])
  ultimately show ?thesis using old read(2) by (simp add: tally_more)
next
  case (charge pay req cs ctx s r s' w)
  note old = sys_okD [OF assms(3) [unfolded charge(1)]]
  have k: "Key req \<in> known_keys s cs" using charge(3) by (auto simp: known_keys_def intro!: bexI [of _ "AskCharge pay req"])
  have "fst ` set (results s') \<subseteq> insert (Key req) (fst ` set (results s)) \<and> distinct (map fst (results s')) \<and> Calls s' = length (results s')"
  proof (cases "prov_lookup (FakeProvider ctx) (Key req) s")
    case (Inl e)
    with charge(4) have "prov_charge (FakeProvider ctx) req s = (r, s')" by (simp add: fake.settle_def)
    from fake_keys [OF this old(4,5)] show ?thesis .
  next
    case (Inr v)
    with charge(4) old show ?thesis by (auto simp: fake.settle_def)
  qed
  with old charge(2) tally_less known_keys_results [OF _ k, of s'] show ?thesis by simp
next
  case (settle pay req v cs w s)
  note old = sys_okD [OF assms(3) [unfolded settle(1)]]
  with settle(2) show ?thesis
    by (auto intro: keeps_snd keeps_ledger_Apply keeps_commerce_states tally_bookings)
next
  case (mark pay cs w s)
  note old = sys_okD [OF assms(3) [unfolded mark(1)]]
  with mark(2) show ?thesis by (auto intro: keeps_snd keeps_ledger_mark core_mark [THEN keeps_commerce] tally_mark)
next
  case (read_refund pay w r w' s cs)
  note old = sys_okD [OF assms(3) [unfolded read_refund(1)]]
  have "known_keys s (asked AskRefund pay r @ cs) = known_keys s cs \<union> (\<Union>c \<in> set (asked AskRefund pay r). call_keys c)"
    by (auto simp: known_keys_def)
  moreover have "(\<Union>c \<in> set (asked AskRefund pay r). call_keys c) \<subseteq> provider_keys E (db w')"
    using read_refund(3) by (cases "(AskRefund, pay, r)" rule: asked.cases) (auto dest!: refund_read_key)
  moreover have "ledger_ok (db w')" "commerce_ok (db w')" "tally E (known_keys s cs) (db w')"
    using old read_refund(3) by (auto dest: keepsD [OF keeps_ledger_reads(2)] keepsD [OF core_dispatch(2) [THEN keeps_commerce]]
        keepsD [OF tally_dispatch(2)])
  ultimately show ?thesis using old read_refund(2) by (simp add: tally_more)
next
  case (give_back pay req cs ctx s r s' w)
  note old = sys_okD [OF assms(3) [unfolded give_back(1)]]
  have k: "''refund-'' @ Key req \<in> known_keys s cs" using give_back(3) by (auto simp: known_keys_def intro!: bexI [of _ "AskRefund pay req"])
  have "prov_charge (FakeProvider ctx) (req\<lparr>Key := ''refund-'' @ Key req\<rparr>) s = (r, s')"
    using give_back(4) by (simp add: FakeProvider_def fake_Refund_def)
  from fake_keys [OF this old(4,5)] have "fst ` set (results s') \<subseteq> insert (''refund-'' @ Key req) (fst ` set (results s)) \<and>
      distinct (map fst (results s')) \<and> Calls s' = length (results s')" by simp
  with old give_back(2) tally_less known_keys_results [OF _ k, of s'] show ?thesis by simp
next
  case (settle_refund pay cs w s)
  note old = sys_okD [OF assms(3) [unfolded settle_refund(1)]]
  have "keeps ledger_ok (in_tx (refund_settle pay))" by (rule keeps_in_tx) (rule refund_settle_ledger)
  with old settle_refund(2) show ?thesis by (auto intro: keeps_snd core_dispatch [THEN keeps_commerce] tally_dispatch)
next
  case (mark_refund pay cs w s)
  note old = sys_okD [OF assms(3) [unfolded mark_refund(1)]]
  with mark_refund(2) show ?thesis by (auto intro: keeps_snd keeps_ledger_unknown core_dispatch [THEN keeps_commerce] tally_dispatch)
qed

lemma sys_steps_ok: "(sys_step E)\<^sup>*\<^sup>* st st' \<Longrightarrow> uuid_codec E \<Longrightarrow> sys_ok E st \<Longrightarrow> sys_ok E st'"
  by (induction rule: rtranclp_induct) (auto intro: sys_step_ok)

subsection \<open>The operations of the code are runs of the system\<close>

text \<open>\<open>leads E\<close>: some run takes the world and the provider there, with calls left over.\<close>

definition leads :: "env \<Rightarrow> database world \<times> fake \<times> call list \<Rightarrow> database world \<Rightarrow> fake \<Rightarrow> bool" where
  "leads E st w' s' \<longleftrightarrow> (\<exists>cs'. (sys_step E)\<^sup>*\<^sup>* st (w', s', cs'))"

lemma leadsI: "(sys_step E)\<^sup>*\<^sup>* st (w', s', cs') \<Longrightarrow> leads E st w' s'"
  by (auto simp: leads_def)

lemma leads_trans: "leads E (w, s, cs) w1 s1 \<Longrightarrow> (\<And>cs1. leads E (w1, s1, cs1) w2 s2) \<Longrightarrow> leads E (w, s, cs) w2 s2"
  unfolding leads_def by (meson rtranclp_trans)

lemma leads_request: "leads E (w, s, cs) (serve E req w) s"
  by (rule leadsI [where cs' = cs]) (intro r_into_rtranclp sys_step.request)

lemma asked_none: "\<nexists>req. x = Inr (Some req) \<Longrightarrow> asked ask pay x = []"
  by (cases "(ask, pay, x)" rule: asked.cases) auto

lemma Dispatch_leads:
  assumes "Dispatch (Some (FakeProvider ctx)) pay E (s, w) = (r, s', w')"
  shows "leads E (w, s, cs) w' s'"
proof -
  obtain x w1 where read: "dispatch_read pay E w = (x, w1)" by (cases "dispatch_read pay E w")
  have first: "sys_step E (w, s, cs) (w1, s, asked AskCharge pay x @ cs)" by (rule sys_step.read [OF read])
  show ?thesis
  proof (cases "\<exists>req. x = Inr (Some req)")
    case True
    then obtain req where x: "x = Inr (Some req)" by blast
    obtain a s1 where a: "payment_provider.settle (FakeProvider ctx) req s = (a, s1)"
      by (cases "payment_provider.settle (FakeProvider ctx) req s")
    then have a': "(case prov_lookup (FakeProvider ctx) (Key req) s of Inr v \<Rightarrow> (Inr v, s) | Inl _ \<Rightarrow> prov_charge (FakeProvider ctx) req s) = (a, s1)"
      by (simp add: fake.settle_def split: sum.splits)
    let ?cs = "asked AskCharge pay x @ cs"
    have second: "sys_step E (w1, s, ?cs) (w1, s1, charge_answer pay req a @ ?cs)"
      by (rule sys_step.charge [OF _ a]) (simp add: x)
    have third: "sys_step E (w1, s1, charge_answer pay req a @ ?cs) (w', s', charge_answer pay req a @ ?cs)"
    proof (cases a)
      case (Inl e)
      with assms read x a' have "w' = snd (mark_reconciliation pay E w1)" "s' = s1"
        by (auto simp: Dispatch_def split: prod.splits sum.splits)
      with Inl show ?thesis by (auto simp: charge_answer_def intro: sys_step.mark)
    next
      case (Inr v)
      with assms read x a' have "w' = snd (Apply ''dispatch'' (Key req @ '':'' @ Status v) pay v E w1)" "s' = s1"
        by (auto simp: Dispatch_def split: prod.splits)
      with Inr sys_step.settle [of pay req v "charge_answer pay req a @ ?cs" E w1 s1] show ?thesis by (simp add: charge_answer_def)
    qed
    have third': "(sys_step E)\<^sup>*\<^sup>* (w1, s1, charge_answer pay req a @ ?cs) (w', s', charge_answer pay req a @ ?cs)"
      using third by blast
    from leadsI [OF converse_rtranclp_into_rtranclp [OF first converse_rtranclp_into_rtranclp [OF second third']]] show ?thesis .
  next
    case False
    with assms read have "w' = w1" "s' = s" by (auto simp: Dispatch_def split: sum.splits option.splits)
    with first asked_none [OF False] show ?thesis by (auto intro!: leadsI r_into_rtranclp)
  qed
qed

lemma DispatchRefund_leads:
  assumes "DispatchRefund (Some (FakeProvider ctx)) pay E (s, w) = (r, s', w')"
  shows "leads E (w, s, cs) w' s'"
proof -
  obtain x w1 where read: "refund_read pay E w = (x, w1)" by (cases "refund_read pay E w")
  have first: "sys_step E (w, s, cs) (w1, s, asked AskRefund pay x @ cs)" by (rule sys_step.read_refund [OF read])
  show ?thesis
  proof (cases "\<exists>req. x = Inr (Some req)")
    case True
    then obtain req where x: "x = Inr (Some req)" by blast
    obtain a s1 where a: "prov_refund (FakeProvider ctx) req s = (a, s1)" by (cases "prov_refund (FakeProvider ctx) req s")
    let ?cs = "asked AskRefund pay x @ cs"
    have second: "sys_step E (w1, s, ?cs) (w1, s1, refund_answer pay a @ ?cs)"
      by (rule sys_step.give_back [OF _ a]) (simp add: x)
    have "(sys_step E)\<^sup>*\<^sup>* (w1, s1, refund_answer pay a @ ?cs) (w', s', refund_answer pay a @ ?cs)"
    proof (cases a)
      case (Inl e)
      with assms read x a have "w' = snd (refund_unknown pay E w1)" "s' = s1" by (auto simp: DispatchRefund_def)
      with Inl show ?thesis by (auto simp: refund_answer_def intro!: r_into_rtranclp sys_step.mark_refund)
    next
      case (Inr v)
      show ?thesis
      proof (cases "Status v = ''SUCCEEDED''")
        case True
        with Inr assms read x a have "w' = snd (in_tx (refund_settle pay) E w1)" "s' = s1"
          by (auto simp: DispatchRefund_def split: prod.splits)
        with Inr True show ?thesis by (auto simp: refund_answer_def intro!: r_into_rtranclp sys_step.settle_refund)
      next
        case False
        with Inr assms read x a show ?thesis by (auto simp: DispatchRefund_def)
      qed
    qed
    from leadsI [OF converse_rtranclp_into_rtranclp [OF first converse_rtranclp_into_rtranclp [OF second this]]] show ?thesis .
  next
    case False
    with assms read have "w' = w1" "s' = s" by (auto simp: DispatchRefund_def split: sum.splits option.splits)
    with first asked_none [OF False] show ?thesis by (auto intro!: leadsI r_into_rtranclp)
  qed
qed

lemma publish_leads:
  assumes "dispatcher_Publish consumer (Some (FakeProvider ctx)) e E (s, w) = (r, s', w')"
  shows "leads E (w, s, cs) w' s'"
proof -
  consider "Dispatch (Some (FakeProvider ctx)) (ev_aggregate e) E (s, w) = (r, s', w')"
    | "DispatchRefund (Some (FakeProvider ctx)) (ev_aggregate e) E (s, w) = (r, s', w')"
    | "w' = serve E (Receipt consumer e) w" "s' = s"
    using assms by (auto simp: dispatcher_Publish_def on_db_def split: if_splits prod.splits)
  then show ?thesis by cases (auto intro: Dispatch_leads DispatchRefund_leads simp del: serve.simps, rule leads_request)
qed

lemma publish_all_leads:
  assumes "publish_all (dispatcher_Publish consumer (Some (FakeProvider ctx))) es E (s, w) = (r, s', w')"
  shows "leads E (w, s, cs) w' s'"
  using assms
proof (induction es arbitrary: s w cs)
  case Nil
  then show ?case by (auto intro: leadsI)
next
  case (Cons e es)
  obtain x s1 w1 where p: "dispatcher_Publish consumer (Some (FakeProvider ctx)) e E (s, w) = (x, s1, w1)"
    by (cases "dispatcher_Publish consumer (Some (FakeProvider ctx)) e E (s, w)") auto
  let ?ok = "case x of Inl _ \<Rightarrow> False | Inr _ \<Rightarrow> True"
  obtain y w2 where rec: "record_outcome e ?ok E w1 = (y, w2)" by (cases "record_outcome e ?ok E w1")
  have two: "leads E (w1, s1, cs1) w2 s1" for cs1
    using leads_request [of E w1 s1 cs1 "Outcome e ?ok"] rec by simp
  have rest: "leads E (w2, s1, cs2) w' s'" for cs2
  proof (cases y)
    case (Inl err)
    with Cons.prems p rec have "w' = w2" "s' = s1" by (auto simp: on_db_def)
    then show ?thesis by (auto intro: leadsI)
  next
    case (Inr u)
    with Cons.prems p rec have "publish_all (dispatcher_Publish consumer (Some (FakeProvider ctx))) es E (s1, w2) = (r, s', w')"
      by (auto simp: on_db_def)
    then show ?thesis by (rule Cons.IH)
  qed
  show ?case by (rule leads_trans [OF publish_leads [OF p] leads_trans [OF two rest]])
qed

lemma worker_round_leads:
  "leads E (w, s, cs) (snd (worker_round (Some (FakeProvider ctx)) E (s, w))) (fst (worker_round (Some (FakeProvider ctx)) E (s, w)))"
proof -
  let ?pub = "dispatcher_Publish ''domain-ledger'' (Some (FakeProvider ctx))"
  let ?w1 = "snd (ExpireHolds 25 E w)"
  have e: "snd (on_db (ExpireHolds 25) E (s, w)) = (s, ?w1)" by (simp add: on_db_def split: prod.splits)
  have one: "leads E (w, s, cs) ?w1 s" using leads_request [of E w s cs "Expire 25"] by simp
  obtain y w2 where c: "claim 10 E ?w1 = (y, w2)" by (cases "claim 10 E ?w1")
  have two: "leads E (?w1, s, cs1) w2 s" for cs1 using leads_request [of E ?w1 s cs1 "Claim 10"] c by simp
  show ?thesis
  proof (cases y)
    case (Inl err)
    then have "worker_round (Some (FakeProvider ctx)) E (s, w) = (s, w2)"
      unfolding worker_round_def e using c by (simp add: Batch_def on_db_def)
    then show ?thesis using leads_trans [OF one two] by simp
  next
    case (Inr es)
    obtain r s' w' where p: "publish_all ?pub es E (s, w2) = (r, s', w')" by (cases "publish_all ?pub es E (s, w2)") auto
    have "worker_round (Some (FakeProvider ctx)) E (s, w) = (s', w')"
      unfolding worker_round_def e using c Inr p by (simp add: Batch_def on_db_def split: sum.splits)
    then show ?thesis using leads_trans [OF one leads_trans [OF two publish_all_leads [OF p]]] by simp
  qed
qed

end
