(* ===== verification/SystemProps.thy ===== *)
theory SystemProps
  imports System PaymentProps
begin

text \<open>
  The properties of whole runs: requests, workers and provider calls interleaved in any order, with
  failing statements and lost answers.  The start is any state that satisfies the invariant, as the
  empty database does.
\<close>

definition empty_fake :: fake where
  "empty_fake = \<lparr>results = [], Calls = 0\<rparr>"

lemma sys_ok_start:
  assumes "ledger_ok d" and "commerce_ok d" and "map pa_payment (attempts d) = map p_id (payments d)" and "outbox d = []"
  shows "sys_ok E (demo_world d, empty_fake, [])"
  using assms by (simp add: demo_world_def empty_fake_def known_keys_def tally_def outbox_ok_def)

lemma demo_paying_commerce: "commerce_ok (demo_paying h)"
proof -
  have "pnr_ok ''AAAAAAAA''" "pnr_ok ''BBBBBBBB''" "currency_ok ''EGP''" by code_simp+
  then show ?thesis
    by (simp add: commerce_ok_def quotes_ok_def bookings_ok_def demo_paying_def demo_rows demo_payment_def sold_quote_def
        items_of_def segments_of_def expected_count_def count_where_def demo_quote_def demo_item_def demo_segment_def
        demo_passenger_def item_ok_def item_terms_def segment_terms_def fare_check_def demo_fare_def MaxInt64_def
        conj_disj_distribR ex_disj_distrib)
qed

definition demo_state :: system where
  "demo_state = (demo_world (demo_paying (1900 * second)), empty_fake, [])"

lemma demo_state_ok: "sys_ok demo_env demo_state"
  unfolding demo_state_def using demo_paying_ledger demo_paying_commerce
  by (rule sys_ok_start) (simp_all add: demo_paying_def demo_payment_def demo_rows)

lemma demo_state_run: "(sys_step demo_env)\<^sup>*\<^sup>* demo_state (demo_applied, empty_fake, [])"
proof -
  have "serve demo_env (Webhook ''fake'' ''e1'' (demo_text 61) demo_result) (demo_world (demo_paying (1900 * second))) = demo_applied"
    by (simp add: demo_apply_run)
  with sys_step.request [of demo_env "demo_world (demo_paying (1900 * second))" empty_fake "[]"
      "Webhook ''fake'' ''e1'' (demo_text 61) demo_result"]
  show ?thesis by (simp add: demo_state_def r_into_rtranclp)
qed

text \<open>C1. No interleaving breaks the invariant: whatever requests, provider answers and worker
  rounds run in whatever order, and however often they fail, repeat or stop half way, seats and
  assignments agree, every confirmed booking is paid for, every payment is of its booking's price,
  no refund exceeds its payment, and the provider saw only keys of recorded attempts and refunds.\<close>

theorem runs_keep_invariant:
  assumes "uuid_codec E" and "sys_ok E st" and "(sys_step E)\<^sup>*\<^sup>* st (w, s, cs)"
  shows "inventory_ok (db w) \<and> ledger_ok (db w) \<and> commerce_ok (db w) \<and> tally E (known_keys s cs) (db w)"
  using sys_steps_ok [OF assms(3,1,2)] ledger_inventory by simp

theorem runs_keep_invariant_witness:
  "inventory_ok (db demo_applied) \<and> ledger_ok (db demo_applied) \<and> commerce_ok (db demo_applied) \<and>
   tally demo_env (known_keys empty_fake []) (db demo_applied)"
  by (rule runs_keep_invariant [OF demo_codec demo_state_ok demo_state_run])

text \<open>C3. A booked seat is paid for, once and in full: in every reachable state the booking of a
  BOOKED seat is CONFIRMED or TICKETED and has exactly one payment, which succeeded and is of
  exactly the prices and taxes of the booking's segments.\<close>

theorem booked_seats_are_paid:
  assumes "uuid_codec E" and "sys_ok E st" and "(sys_step E)\<^sup>*\<^sup>* st (w, s, cs)"
    and "x \<in> set (seats (db w))" and "fs_state x = BOOKED"
  shows "\<exists>b p. b \<in> set (bookings (db w)) \<and> fs_booking x = Some (b_id b) \<and> b_status b \<in> {B_CONFIRMED, B_TICKETED} \<and>
    p \<in> set (payments (db w)) \<and> p_booking p = b_id b \<and> p_status p = P_SUCCEEDED \<and> p_currency p = b_currency b \<and>
    p_amount p = sum_list (map (\<lambda>g. bs_price g + bs_taxes g) (segments_of (b_id b) (db w))) \<and>
    (\<forall>q \<in> set (payments (db w)). p_booking q = b_id b \<longrightarrow> q = p)"
proof -
  from sys_steps_ok [OF assms(3,1,2)] have ok: "ledger_ok (db w)" "commerce_ok (db w)" by simp_all
  have "seat_check x" using ledger_inventory [OF ok(1)] assms(4) by (simp add: inventory_ok_def list_all_iff)
  with assms(5) obtain u where u: "fs_booking x = Some u" by (auto simp: seat_check_def)
  with ledger_seat [OF ok(1) assms(4)] assms(5) have st: "bstat (db w) u \<in> {Some B_CONFIRMED, Some B_TICKETED}"
    by (simp add: seat_status_ok_def)
  with ledger_confirmed [OF ok(1)] obtain p where p: "p \<in> set (payments (db w))" "p_booking p = u" "p_status p = P_SUCCEEDED"
    by (auto simp: confirmed_paid_def)
  from ok(2) p(1) obtain b where b: "b \<in> set (bookings (db w))" "b_id b = p_booking p" "b_total b = p_amount p" "b_currency b = p_currency p"
    by (auto simp: commerce_ok_def bookings_ok_def)
  have stat: "bstat (db w) u = Some (b_status b)"
    using bstat_row [of "db w" b] ledger_keys [OF ok(1)] b p(2) by (simp add: keys_ok_def)
  have single: "\<forall>q \<in> set (payments (db w)). p_booking q = b_id b \<longrightarrow> q = p"
    using ledger_keys [OF ok(1)] p b(2) by (auto simp: keys_ok_def distinct_map inj_on_def)
  show ?thesis
  proof (intro exI conjI)
    show "fs_booking x = Some (b_id b)" using u p(2) b(2) by simp
    show "b_status b \<in> {B_CONFIRMED, B_TICKETED}" using st stat by auto
    show "p_amount p = sum_list (map (\<lambda>g. bs_price g + bs_taxes g) (segments_of (b_id b) (db w)))"
      using booking_price(1) [OF ok(2) b(1)] b(3) by (rule trans [OF sym, rotated])
  qed (rule b(1) p(1) p(3) b(2) [symmetric] b(4) [symmetric] single)+
qed

theorem booked_seats_are_paid_witness:
  "\<exists>b p. b \<in> set (bookings (db demo_applied)) \<and> p \<in> set (payments (db demo_applied)) \<and> p_booking p = b_id b \<and>
    p_status p = P_SUCCEEDED"
proof -
  have "list_ex (\<lambda>x. fs_state x = BOOKED) (seats (db demo_applied))" by code_simp
  then obtain x where "x \<in> set (seats (db demo_applied))" "fs_state x = BOOKED" by (auto simp: list_ex_iff)
  from booked_seats_are_paid [OF demo_codec demo_state_ok demo_state_run this] show ?thesis by blast
qed




end
