(* ===== verification/Auth.thy ===== *)
theory Auth
  imports Schema Encoding
begin

text \<open>
  \<^verbatim>\<open>internal/auth\<close>: accounts with Argon2id password hashes, sessions, and the access and refresh
  tokens of a session, of which the database keeps only SHA-256 sums.  The theory has its own
  database; the rest of the program sees a session only as the user id of its \<open>principal\<close>.
  \<^verbatim>\<open>argon2.IDKey\<close> and \<^verbatim>\<open>mail.ParseAddress\<close> are the parameters of \<open>auth_lib\<close>, and the number of
  password hashes being computed, of which a process admits four, is an argument.
\<close>

subsection \<open>Strings\<close>

text \<open>\<^verbatim>\<open>strings.Split(s, string(sep))\<close> and \<^verbatim>\<open>strings.HasPrefix\<close>.\<close>

fun split_on :: "char \<Rightarrow> string \<Rightarrow> string list" where
  "split_on sep [] = [[]]"
| "split_on sep (c # cs) =
     (if c = sep then [] # split_on sep cs
      else case split_on sep cs of [] \<Rightarrow> [[c]] | p # ps \<Rightarrow> (c # p) # ps)"

definition has_prefix :: "string \<Rightarrow> string \<Rightarrow> bool" where
  "has_prefix p s \<longleftrightarrow> take (length p) s = p"

definition trim_prefix :: "string \<Rightarrow> string \<Rightarrow> string" where
  "trim_prefix p s = (if has_prefix p s then drop (length p) s else s)"

subsection \<open>The database of accounts\<close>

datatype account_status = ACTIVE | SUSPENDED | DELETED
datatype account_role = CUSTOMER | AGENT | ADMIN
datatype token_kind = ACCESS | REFRESH

record account =
  ac_user :: uuid
  ac_email :: string
  ac_hash :: string
  ac_first :: string
  ac_last :: string
  ac_role :: account_role
  ac_status :: account_status

record session_row =
  ss_id :: uuid
  ss_user :: uuid
  ss_expires :: ts
  ss_revoked :: "ts option"

record credential =
  cr_hash :: string
  cr_session :: uuid
  cr_kind :: token_kind
  cr_expires :: ts
  cr_used :: "ts option"

record auth_db =
  accounts :: "account list"
  sessions :: "session_row list"
  credentials :: "credential list"
  audits :: "(uuid \<times> string) list"

type_synonym 'a auth_act = "(auth_db, 'a) act"

primrec role_text :: "account_role \<Rightarrow> string" where
  "role_text CUSTOMER = ''CUSTOMER''"
| "role_text AGENT = ''AGENT''"
| "role_text ADMIN = ''ADMIN''"

record auth_lib =
  argon2 :: "string \<Rightarrow> nat list \<Rightarrow> nat list"
  mail_address :: "string \<Rightarrow> string option"

subsection \<open>Principals\<close>

record principal =
  pr_user :: string
  pr_session :: string
  pr_role :: string

definition FromContext :: "principal option \<Rightarrow> principal \<times> bool" where
  "FromContext v = (case v of None \<Rightarrow> (\<lparr>pr_user = [], pr_session = [], pr_role = []\<rparr>, False) | Some p \<Rightarrow> (p, pr_user p \<noteq> []))"

fun HasRole :: "principal \<Rightarrow> string list \<Rightarrow> bool" where
  "HasRole p [] = False"
| "HasRole p (r # rs) = (if pr_role p = r then True else HasRole p rs)"

subsection \<open>Passwords\<close>

definition passwordPrefix :: string where
  "passwordPrefix = ''$argon2id$v=19$m=19456,t=2,p=1$''"

definition HashPassword :: "auth_lib \<Rightarrow> string \<Rightarrow> ('d, string) act" where
  "HashPassword L password =
     andthen (ensure (\<not> (length password < 12 \<or> length password > 128)) AuthErrInvalidInput) (\<lambda>_.
     andthen (draw_bytes 16) (\<lambda>salt.
     ret (passwordPrefix @ base64_encode False salt @ ''$'' @ base64_encode False (argon2 L password salt))))"

text \<open>The salt and the key a stored hash names, if it is well formed.\<close>

definition parse_hash :: "string \<Rightarrow> (nat list \<times> nat list) option" where
  "parse_hash encoded =
     (if has_prefix passwordPrefix encoded then
        (case split_on CHR ''$'' (trim_prefix passwordPrefix encoded) of
           [x, y] \<Rightarrow>
             (case (base64_decode False x, base64_decode False y) of
                (Some a, Some b) \<Rightarrow> if length a = 16 \<and> length b = 32 then Some (a, b) else None
              | _ \<Rightarrow> None)
         | _ \<Rightarrow> None)
      else None)"

definition verifyPassword :: "auth_lib \<Rightarrow> string \<Rightarrow> string \<Rightarrow> bool" where
  "verifyPassword L encoded password =
     (let (salt, expected, valid) =
        (case parse_hash encoded of Some (a, b) \<Rightarrow> (a, b, True) | None \<Rightarrow> (replicate 16 0, replicate 32 0, False)) in
      argon2 L password salt = expected \<and> valid)"

subsection \<open>Accounts\<close>

definition normalizeEmail :: "auth_lib \<Rightarrow> string \<Rightarrow> string \<times> bool" where
  "normalizeEmail L email0 =
     (let email = ToLower (TrimSpace email0) in
      if length email > 254 then (email, False)
      else (email, mail_address L email = Some email \<and> length email \<le> 254))"

text \<open>\<^verbatim>\<open>char_length\<close> counts the characters, that is, the bytes that do not continue one.\<close>

definition char_length :: "string \<Rightarrow> nat" where
  "char_length s = length (filter (\<lambda>c. \<not> (128 \<le> byte c \<and> byte c < 192)) s)"

text \<open>\<^verbatim>\<open>INSERT INTO users ... ON CONFLICT (lower(email)) DO NOTHING\<close> with the audit row of the inserted
  user.\<close>

definition insert_account :: "uuid \<Rightarrow> string \<Rightarrow> string \<Rightarrow> string \<Rightarrow> string \<Rightarrow> auth_db \<Rightarrow> gerr + unit \<times> auth_db" where
  "insert_account new email hash given family d =
     (if \<not> (3 \<le> char_length email \<and> char_length email \<le> 320) then Inl (PgError check_violation)
      else if ToLower email \<in> (\<lambda>a. ToLower (ac_email a)) ` set (accounts d) then Inr ((), d)
      else guarded [(unique_violation, new \<notin> ac_user ` set (accounts d))]
        ((), d\<lparr>accounts := accounts d @ [\<lparr>ac_user = new, ac_email = email, ac_hash = hash, ac_first = given, ac_last = family,
                 ac_role = CUSTOMER, ac_status = ACTIVE\<rparr>],
               audits := audits d @ [(new, ''REGISTER'')]\<rparr>))"

text \<open>Admission to the password hashing: \<open>in_use\<close> hashes are being computed.\<close>

definition admit :: "nat \<Rightarrow> ('d, unit) act" where
  "admit in_use = ensure (in_use < 4) AuthErrBusy"

definition Register :: "auth_lib \<Rightarrow> nat \<Rightarrow> string \<Rightarrow> string \<Rightarrow> string \<Rightarrow> string \<Rightarrow> unit auth_act" where
  "Register L in_use email0 password given family =
     (case normalizeEmail L email0 of (email, valid) \<Rightarrow>
      if \<not> valid \<or> length given < 1 \<or> length given > 100 \<or> length family < 1 \<or> length family > 100 then fail AuthErrInvalidInput
      else
        andthen (admit in_use) (\<lambda>_.
        andthen (HashPassword L password) (\<lambda>hash.
        stmt (\<lambda>E w. insert_account (gen_uuid E (pc w) 0) email hash given family (db w)))))"

subsection \<open>Tokens\<close>

record tokens =
  AccessToken :: string
  RefreshToken :: string
  ExpiresIn :: int

definition token :: "('d, string \<times> string) act" where
  "token = andthen (draw_bytes 32) (\<lambda>raw.
     let v = base64_encode True raw in reading (\<lambda>E. (v, sha256 E v)))"

definition tokenHash :: "env \<Rightarrow> string \<Rightarrow> string option" where
  "tokenHash E v =
     (case base64_decode True v of
        None \<Rightarrow> None
      | Some decoded \<Rightarrow> if length decoded \<noteq> 32 \<or> length v \<noteq> 43 then None else Some (sha256 E v))"

definition audit :: "uuid \<Rightarrow> string \<Rightarrow> unit auth_act" where
  "audit u ev = stmt (\<lambda>E w. guarded [(foreign_key_violation, u \<in> ac_user ` set (accounts (db w)))]
     ((), (db w)\<lparr>audits := audits (db w) @ [(u, ev)]\<rparr>))"

text \<open>The two rows of \<^verbatim>\<open>issue\<close>, for each session with the id (at most one): the access token ends after
  ten minutes or with the session, the refresh token with the session.\<close>

definition issued :: "string \<Rightarrow> string \<Rightarrow> ts \<Rightarrow> session_row list \<Rightarrow> credential list" where
  "issued ah rh t rows =
     map (\<lambda>s. \<lparr>cr_hash = ah, cr_session = ss_id s, cr_kind = ACCESS, cr_expires = min (ss_expires s) (t + 10 * minute), cr_used = None\<rparr>) rows @
     map (\<lambda>s. \<lparr>cr_hash = rh, cr_session = ss_id s, cr_kind = REFRESH, cr_expires = ss_expires s, cr_used = None\<rparr>) rows"

definition insert_credentials :: "string \<Rightarrow> string \<Rightarrow> ts \<Rightarrow> uuid \<Rightarrow> auth_db \<Rightarrow> gerr + unit \<times> auth_db" where
  "insert_credentials ah rh t s d =
     (let rows = issued ah rh t (filter (\<lambda>r. ss_id r = s) (sessions d)) in
      guarded
        [(check_violation, list_all (\<lambda>c. length (cr_hash c) = 32) rows),
         (unique_violation, distinct (map cr_hash (credentials d @ rows)))]
        ((), d\<lparr>credentials := credentials d @ rows\<rparr>))"

definition issue :: "uuid \<Rightarrow> tokens auth_act" where
  "issue s =
     andthen token (\<lambda>(access, ah).
     andthen token (\<lambda>(refresh, rh).
     andthen (stmt (\<lambda>E w. insert_credentials ah rh (clock E (pc w)) s (db w))) (\<lambda>_.
     ret \<lparr>AccessToken = access, RefreshToken = refresh, ExpiresIn = 600\<rparr>)))"

subsection \<open>Login\<close>

definition insert_session :: "uuid \<Rightarrow> uuid \<Rightarrow> ts \<Rightarrow> ts \<Rightarrow> auth_db \<Rightarrow> gerr + uuid \<times> auth_db" where
  "insert_session new u current created d =
     (let expires = current + 30 * 24 * 60 * minute in
      guarded
        [(check_violation, expires > created),
         (unique_violation, new \<notin> ss_id ` set (sessions d)),
         (foreign_key_violation, u \<in> ac_user ` set (accounts d))]
        (new, d\<lparr>sessions := sessions d @ [\<lparr>ss_id = new, ss_user = u, ss_expires = expires, ss_revoked = None\<rparr>]\<rparr>))"

definition login_body :: "uuid \<Rightarrow> tokens tx_end auth_act" where
  "login_body u =
     andthen (select (\<lambda>t d. map_option ac_status (find_row (\<lambda>a. ac_user a = u) (accounts d)))) (\<lambda>row.
     case row of None \<Rightarrow> fail ErrNoRows | Some status \<Rightarrow>
     andthen (ensure (\<not> status \<noteq> ACTIVE) AuthErrUnauthorized) (\<lambda>_.
     andthen (stmt (\<lambda>E w. insert_session (gen_uuid E (pc w) 0) u (clock E (pc w)) (txn w) (db w))) (\<lambda>s.
     andthen (issue s) (\<lambda>tk.
     andthen (audit u ''LOGIN'') (\<lambda>_.
     ret (Commit (Inr tk)))))))"

definition Login :: "auth_lib \<Rightarrow> nat \<Rightarrow> string \<Rightarrow> string \<Rightarrow> tokens auth_act" where
  "Login L in_use email0 password =
     (case normalizeEmail L email0 of (email, valid) \<Rightarrow>
      if \<not> valid \<or> length password > 128 then fail AuthErrUnauthorized
      else
        andthen (admit in_use) (\<lambda>_.
        andthen (select (\<lambda>t d. map_option (\<lambda>a. (ac_user a, ac_hash a, ac_status a))
           (find_row (\<lambda>a. ToLower (ac_email a) = email) (accounts d)))) (\<lambda>row.
        let hash = (case row of None \<Rightarrow> [] | Some (u, h, st) \<Rightarrow> h); matched = verifyPassword L hash password in
        case row of None \<Rightarrow> fail AuthErrUnauthorized | Some (u, h, status) \<Rightarrow>
        if \<not> matched \<or> status \<noteq> ACTIVE then fail AuthErrUnauthorized
        else in_tx (login_body u))))"

subsection \<open>Using and renewing tokens\<close>

definition principal_row :: "string \<Rightarrow> ts \<Rightarrow> auth_db \<Rightarrow> (uuid \<times> uuid \<times> account_role) option" where
  "principal_row h t d =
     first_row [(ac_user u, ss_id s, ac_role u). c \<leftarrow> credentials d, s \<leftarrow> sessions d, u \<leftarrow> accounts d,
       ss_id s = cr_session c \<and> ac_user u = ss_user s \<and> cr_hash c = h \<and> cr_kind c = ACCESS \<and> cr_expires c > t \<and>
       ss_expires s > t \<and> ss_revoked s = None \<and> ac_status u = ACTIVE]"

definition Authenticate :: "string \<Rightarrow> principal auth_act" where
  "Authenticate v =
     andthen (reading (\<lambda>E. tokenHash E v)) (\<lambda>hash.
     case hash of None \<Rightarrow> fail AuthErrUnauthorized | Some h \<Rightarrow>
     andthen (select (\<lambda>t d. principal_row h t d)) (\<lambda>row.
     case row of None \<Rightarrow> fail AuthErrUnauthorized | Some (u, s, role) \<Rightarrow>
     reading (\<lambda>E. \<lparr>pr_user = uuid_text E u, pr_session = uuid_text E s, pr_role = role_text role\<rparr>)))"

definition refresh_row :: "string \<Rightarrow> ts \<Rightarrow> auth_db \<Rightarrow> (uuid \<times> uuid \<times> ts option \<times> ts option \<times> bool) option" where
  "refresh_row h t d =
     first_row [(ss_id s, ss_user s, ss_revoked s, cr_used c, ss_expires s > t \<and> cr_expires c > t \<and> ac_status u = ACTIVE).
       c \<leftarrow> credentials d, s \<leftarrow> sessions d, u \<leftarrow> accounts d,
       ss_id s = cr_session c \<and> ac_user u = ss_user s \<and> cr_hash c = h \<and> cr_kind c = REFRESH]"

definition use_credential :: "string \<Rightarrow> unit auth_act" where
  "use_credential h = stmt (\<lambda>E w. Inr ((), (db w)\<lparr>credentials :=
     update_where (\<lambda>c. cr_hash c = h) (\<lambda>c. c\<lparr>cr_used := Some (clock E (pc w))\<rparr>) (credentials (db w))\<rparr>))"

definition revoke :: "(session_row \<Rightarrow> bool) \<Rightarrow> unit auth_act" where
  "revoke p = stmt (\<lambda>E w. Inr ((), (db w)\<lparr>sessions :=
     update_where p (\<lambda>s. s\<lparr>ss_revoked := Some (clock E (pc w))\<rparr>) (sessions (db w))\<rparr>))"

definition refresh_body :: "string \<Rightarrow> tokens tx_end auth_act" where
  "refresh_body h =
     andthen (select (\<lambda>t d. refresh_row h t d)) (\<lambda>row.
     case row of None \<Rightarrow> fail AuthErrUnauthorized | Some (s, u, revoked, used, live) \<Rightarrow>
     if revoked \<noteq> None \<or> \<not> live then fail AuthErrUnauthorized
     else if used \<noteq> None then
       andthen (revoke (\<lambda>r. ss_id r = s)) (\<lambda>_.
       andthen (audit u ''REFRESH_REUSE'') (\<lambda>_.
       ret (Commit (Inl AuthErrUnauthorized))))
     else
       andthen (use_credential h) (\<lambda>_.
       andthen (issue s) (\<lambda>tk.
       ret (Commit (Inr tk)))))"

definition Refresh :: "string \<Rightarrow> tokens auth_act" where
  "Refresh v =
     andthen (reading (\<lambda>E. tokenHash E v)) (\<lambda>hash.
     case hash of None \<Rightarrow> fail AuthErrUnauthorized | Some h \<Rightarrow> in_tx (refresh_body h))"

subsection \<open>Logout\<close>

text \<open>An id that is no UUID cannot be sent as an argument of type \<^verbatim>\<open>uuid\<close>.\<close>

definition uuid_arg :: "string \<Rightarrow> ('d, uuid) act" where
  "uuid_arg v = andthen (reading (\<lambda>E. scan_uuid E v)) (\<lambda>x.
     case x of None \<Rightarrow> fail (OtherError ''cannot encode uuid'') | Some u \<Rightarrow> ret u)"

definition logout_body :: "principal \<Rightarrow> bool \<Rightarrow> unit tx_end auth_act" where
  "logout_body p all =
     andthen (uuid_arg (pr_user p)) (\<lambda>u.
     andthen nop_stmt (\<lambda>_.
     andthen (uuid_arg (pr_session p)) (\<lambda>s.
     andthen (revoke (\<lambda>r. ss_user r = u \<and> (all \<or> ss_id r = s) \<and> ss_revoked r = None)) (\<lambda>_.
     andthen (audit u (if all then ''LOGOUT_ALL'' else ''LOGOUT'')) (\<lambda>_.
     ret (Commit (Inr ())))))))"

definition Logout :: "principal \<Rightarrow> bool \<Rightarrow> unit auth_act" where
  "Logout p all = in_tx (logout_body p all)"

end
