(* ===== verification/AuthRun.thy ===== *)
theory AuthRun
  imports Auth
begin

text \<open>How the operations of \<open>Auth\<close> run, and what every one of them keeps.\<close>

subsection \<open>What a run wrote\<close>

definition token_pair :: "env \<Rightarrow> uuid \<Rightarrow> auth_db \<Rightarrow> tokens \<Rightarrow> ts \<Rightarrow> credential list \<Rightarrow> bool" where
  "token_pair E s d tk t new \<longleftrightarrow>
     (\<exists>n a r. rand_read E n 32 = Inr a \<and> rand_read E (Suc n) 32 = Inr r \<and>
        tk = \<lparr>AccessToken = base64_encode True a, RefreshToken = base64_encode True r, ExpiresIn = 600\<rparr> \<and>
        new = issued (sha256 E (AccessToken tk)) (sha256 E (RefreshToken tk)) t (filter (\<lambda>x. ss_id x = s) (sessions d)) \<and>
        distinct (map cr_hash (credentials d @ new)))"

lemma token_Inr:
  "token E w = (Inr x, w') \<longleftrightarrow> (\<exists>raw. rand_read E (draws w) 32 = Inr raw \<and>
     x = (base64_encode True raw, sha256 E (base64_encode True raw)) \<and> w' = w\<lparr>draws := Suc (draws w)\<rparr>)"
  by (auto simp: token_def andthen_Inr draw_bytes_Inr Let_def)

lemma issue_Inr:
  assumes "issue s E w = (Inr tk, w')"
  shows "\<exists>new t. token_pair E s (db w) tk t new \<and> db w' = (db w)\<lparr>credentials := credentials (db w) @ new\<rparr> \<and>
    t = clock E (pc w)"
proof -
  from assms obtain a r where r: "rand_read E (draws w) 32 = Inr a" "rand_read E (Suc (draws w)) 32 = Inr r"
    "tk = \<lparr>AccessToken = base64_encode True a, RefreshToken = base64_encode True r, ExpiresIn = 600\<rparr>"
    "insert_credentials (sha256 E (base64_encode True a)) (sha256 E (base64_encode True r)) (clock E (pc w)) s (db w) = Inr ((), db w')"
    by (auto simp: issue_def andthen_Inr token_Inr stmt_Inr)
  from r(4) have "db w' = (db w)\<lparr>credentials := credentials (db w) @
      issued (sha256 E (base64_encode True a)) (sha256 E (base64_encode True r)) (clock E (pc w)) (filter (\<lambda>x. ss_id x = s) (sessions (db w)))\<rparr>"
    "distinct (map cr_hash (credentials (db w) @
      issued (sha256 E (base64_encode True a)) (sha256 E (base64_encode True r)) (clock E (pc w)) (filter (\<lambda>x. ss_id x = s) (sessions (db w)))))"
    by (simp_all add: insert_credentials_def guarded_Inr Let_def)
  with r(1-3) show ?thesis unfolding token_pair_def by auto
qed

lemma issue_Inl_db: "issue s E w = (r, w') \<Longrightarrow> accounts (db w') = accounts (db w) \<and> sessions (db w') = sessions (db w)"
  by (auto simp: issue_def token_def andthen_def draw_bytes_def Let_def stmt_def insert_credentials_def guarded_Inr
      split: sum.splits prod.splits option.splits)

text \<open>A successful registration of a new address, a login, and the two outcomes of a refresh that
  write.\<close>

definition logged_in :: "env \<Rightarrow> uuid \<Rightarrow> auth_db \<Rightarrow> tokens \<Rightarrow> auth_db \<Rightarrow> bool" where
  "logged_in E u d tk d' \<longleftrightarrow>
     (\<exists>x t new. let d1 = d\<lparr>sessions := sessions d @ [x]\<rparr> in
        ss_user x = u \<and> ss_revoked x = None \<and> ss_id x \<notin> ss_id ` set (sessions d) \<and> u \<in> ac_user ` set (accounts d) \<and>
        (\<exists>n. ss_expires x = clock E n + 30 * 24 * 60 * minute \<and> t = clock E (Suc n)) \<and>
        token_pair E (ss_id x) d1 tk t new \<and>
        d' = d1\<lparr>credentials := credentials d @ new, audits := audits d @ [(u, ''LOGIN'')]\<rparr>)"

lemma login_body_Inr:
  assumes "login_body u E w = (Inr t, w')"
  shows "\<exists>tk. t = Commit (Inr tk) \<and> logged_in E u (db w) tk (db w')"
proof -
  from assms obtain s w1 w2 tk w3 where run:
    "stmt (\<lambda>E w. insert_session (gen_uuid E (pc w) 0) u (clock E (pc w)) (txn w) (db w)) E w1 = (Inr s, w2)" "db w1 = db w"
    "issue s E w2 = (Inr tk, w3)" "audit u ''LOGIN'' E w3 = (Inr (), w')" "t = Commit (Inr tk)"
    by (auto simp: login_body_def andthen_Inr select_Inr ensure_Inr split: option.splits)
  let ?x = "\<lparr>ss_id = s, ss_user = u, ss_expires = clock E (pc w1) + 30 * 24 * 60 * minute, ss_revoked = None\<rparr>"
  from run(1,2) have s: "s \<notin> ss_id ` set (sessions (db w))" "u \<in> ac_user ` set (accounts (db w))"
    "db w2 = (db w)\<lparr>sessions := sessions (db w) @ [?x]\<rparr>" "pc w2 = Suc (pc w1)"
    by (auto simp: stmt_Inr insert_session_def guarded_Inr Let_def)
  from issue_Inr [OF run(3)] obtain new where new: "token_pair E s (db w2) tk (clock E (pc w2)) new"
    "db w3 = (db w2)\<lparr>credentials := credentials (db w2) @ new\<rparr>" by blast
  from run(4) have "db w' = (db w3)\<lparr>audits := audits (db w3) @ [(u, ''LOGIN'')]\<rparr>"
    by (auto simp: audit_def stmt_Inr guarded_Inr)
  with new s have "logged_in E u (db w) tk (db w')"
    unfolding logged_in_def Let_def
    by (intro exI [of _ ?x] exI [of _ "clock E (pc w2)"] exI [of _ new]) auto
  with run(5) show ?thesis by blast
qed

lemma Login_Inr:
  assumes "Login L in_use email0 password E w = (Inr tk, w')"
  shows "\<exists>a email. normalizeEmail L email0 = (email, True) \<and> length password \<le> 128 \<and> in_use < 4 \<and>
    a \<in> set (accounts (db w)) \<and> ToLower (ac_email a) = email \<and> verifyPassword L (ac_hash a) password \<and>
    ac_status a = ACTIVE \<and> logged_in E (ac_user a) (db w) tk (db w')"
proof -
  from assms obtain a email where a: "normalizeEmail L email0 = (email, True)" "length password \<le> 128" "in_use < 4"
    "find_row (\<lambda>a. ToLower (ac_email a) = email) (accounts (db w)) = Some a" "verifyPassword L (ac_hash a) password"
    "ac_status a = ACTIVE" "in_tx (login_body (ac_user a)) E (w\<lparr>pc := Suc (pc w)\<rparr>) = (Inr tk, w')"
    by (auto simp: Login_def admit_def andthen_Inr select_Inr ensure_Inr Let_def split: prod.splits if_splits option.splits)
  from a(7) [unfolded in_tx_def] have "logged_in E (ac_user a) (db w) tk (db w')"
  proof (cases rule: in_tx_with_Inr)
    case (rolled_back w2)
    with login_body_Inr [OF rolled_back(2)] show ?thesis by simp
  next
    case (committed w2)
    with login_body_Inr [OF committed(2)] show ?thesis by simp
  qed
  with a find_row_SomeD [OF a(4)] show ?thesis by auto
qed

lemma Login_failed:
  assumes "Login L in_use email0 password E w = (Inl e, w')"
  shows "db w' = db w"
proof -
  consider "db w' = db w" | u where "in_tx (login_body u) E (w\<lparr>pc := Suc (pc w)\<rparr>) = (Inl e, w')"
    using assms
    by (auto simp: Login_def admit_def andthen_def select_def stmt_def ensure_def Let_def split: prod.splits if_splits option.splits sum.splits)
  then show ?thesis
  proof cases
    case 2
    have "db w' = db (w\<lparr>pc := Suc (pc w)\<rparr>)"
      using 2 [unfolded in_tx_def] by (rule in_tx_with_Inl_unchanged) (use login_body_Inr in blast)
    then show ?thesis by simp
  qed
qed


text \<open>How a refresh ends: with an error and nothing written, with the revocation of the session of a
  used token, or with a new pair of tokens for the used one.\<close>

definition with_used :: "string \<Rightarrow> ts \<Rightarrow> auth_db \<Rightarrow> auth_db" where
  "with_used h t d = d\<lparr>credentials := update_where (\<lambda>c. cr_hash c = h) (\<lambda>c. c\<lparr>cr_used := Some t\<rparr>) (credentials d)\<rparr>"

definition refreshed :: "env \<Rightarrow> string \<Rightarrow> auth_db \<Rightarrow> tokens \<Rightarrow> auth_db \<Rightarrow> bool" where
  "refreshed E h d tk d' \<longleftrightarrow>
     (\<exists>c x a t t' new.
        c \<in> set (credentials d) \<and> cr_hash c = h \<and> cr_kind c = REFRESH \<and> cr_used c = None \<and>
        x \<in> set (sessions d) \<and> ss_id x = cr_session c \<and> ss_revoked x = None \<and>
        a \<in> set (accounts d) \<and> ac_user a = ss_user x \<and> ac_status a = ACTIVE \<and>
        token_pair E (ss_id x) (with_used h t' d) tk t new \<and>
        d' = (with_used h t' d)\<lparr>credentials := credentials (with_used h t' d) @ new\<rparr>)"

definition reused :: "string \<Rightarrow> auth_db \<Rightarrow> auth_db \<Rightarrow> bool" where
  "reused h d d' \<longleftrightarrow>
     (\<exists>c x t. c \<in> set (credentials d) \<and> cr_hash c = h \<and> cr_kind c = REFRESH \<and> cr_used c \<noteq> None \<and>
        x \<in> set (sessions d) \<and> ss_id x = cr_session c \<and>
        d' = d\<lparr>sessions := update_where (\<lambda>r. ss_id r = ss_id x) (\<lambda>s. s\<lparr>ss_revoked := Some t\<rparr>) (sessions d),
               audits := audits d @ [(ss_user x, ''REFRESH_REUSE'')]\<rparr>)"

lemma refresh_row_Some:
  assumes "refresh_row h t d = Some (s, u, revoked, used, live)"
  obtains c x a where "c \<in> set (credentials d)" "cr_hash c = h" "cr_kind c = REFRESH" "cr_used c = used"
    "x \<in> set (sessions d)" "ss_id x = cr_session c" "ss_id x = s" "ss_user x = u" "ss_revoked x = revoked"
    "a \<in> set (accounts d)" "ac_user a = u" "live = (ss_expires x > t \<and> cr_expires c > t \<and> ac_status a = ACTIVE)"
  using first_row_Some [OF assms [unfolded refresh_row_def]] that by (auto split: if_splits)

lemma refresh_body_end:
  assumes "refresh_body h E w = (Inr t, w')"
  shows "(t = Commit (Inl AuthErrUnauthorized) \<and> reused h (db w) (db w')) \<or> (\<exists>tk. t = Commit (Inr tk) \<and> refreshed E h (db w) tk (db w'))"
proof -
  let ?w = "w\<lparr>pc := Suc (pc w)\<rparr>"
  from assms obtain s u revoked used live where row: "refresh_row h (clock E (pc w)) (db w) = Some (s, u, revoked, used, live)"
    and run: "(if revoked \<noteq> None \<or> \<not> live then fail AuthErrUnauthorized
      else if used \<noteq> None then andthen (revoke (\<lambda>r. ss_id r = s)) (\<lambda>_. andthen (audit u ''REFRESH_REUSE'') (\<lambda>_. ret (Commit (Inl AuthErrUnauthorized))))
      else andthen (use_credential h) (\<lambda>_. andthen (issue s) (\<lambda>tk. ret (Commit (Inr tk))))) E ?w = (Inr t, w')"
    by (auto simp: refresh_body_def andthen_Inr select_Inr split: option.splits prod.splits)
  have live: "revoked = None" "live" using run by (auto split: if_splits)
  note r = row live
  from r(1) obtain c x a where row: "c \<in> set (credentials (db w))" "cr_hash c = h" "cr_kind c = REFRESH" "cr_used c = used"
    "x \<in> set (sessions (db w))" "ss_id x = cr_session c" "ss_id x = s" "ss_user x = u" "ss_revoked x = revoked"
    "a \<in> set (accounts (db w))" "ac_user a = u"
    "live = (ss_expires x > clock E (pc w) \<and> cr_expires c > clock E (pc w) \<and> ac_status a = ACTIVE)" by (rule refresh_row_Some)
  show ?thesis
  proof (cases used)
    case (Some t0)
    with run live obtain t1 where "t = Commit (Inl AuthErrUnauthorized)"
      "db w' = (db w)\<lparr>sessions := update_where (\<lambda>r. ss_id r = s) (\<lambda>s. s\<lparr>ss_revoked := Some t1\<rparr>) (sessions (db w)),
          audits := audits (db w) @ [(u, ''REFRESH_REUSE'')]\<rparr>"
      by (auto simp: andthen_Inr revoke_def audit_def stmt_Inr guarded_Inr)
    with row Some show ?thesis unfolding reused_def by blast
  next
    case None
    with run live obtain w2 tk where w2: "use_credential h E ?w = (Inr (), w2)" and u2: "issue s E w2 = (Inr tk, w')" "t = Commit (Inr tk)"
      by (auto simp: andthen_Inr)
    from w2 obtain t1 where u1: "db w2 = with_used h t1 (db w)"
      by (auto simp: use_credential_def stmt_Inr with_used_def)
    note u = u1 u2
    from issue_Inr [OF u(2)] obtain new t2 where "token_pair E s (db w2) tk t2 new" "db w' = (db w2)\<lparr>credentials := credentials (db w2) @ new\<rparr>" by blast
    with row r(2,3) None u(1,3) have "refreshed E h (db w) tk (db w')"
      unfolding refreshed_def
      by (intro exI [of _ c] exI [of _ x] exI [of _ a] exI [of _ t2] exI [of _ t1] exI [of _ new]) auto
    with u(3) show ?thesis by blast
  qed
qed

lemma Refresh_Inr:
  assumes "Refresh v E w = (Inr tk, w')"
  obtains h where "tokenHash E v = Some h" and "refreshed E h (db w) tk (db w')"
proof -
  from assms obtain h where h: "tokenHash E v = Some h" "in_tx (refresh_body h) E w = (Inr tk, w')"
    by (auto simp: Refresh_def andthen_Inr split: option.splits)
  from h(2) [unfolded in_tx_def] have "refreshed E h (db w) tk (db w')"
  proof (cases rule: in_tx_with_Inr)
    case (rolled_back w2)
    with refresh_body_end [OF rolled_back(2)] show ?thesis by simp
  next
    case (committed w2)
    with refresh_body_end [OF committed(2)] show ?thesis by simp
  qed
  with h(1) that show thesis by blast
qed

lemma Refresh_Inl:
  assumes "Refresh v E w = (Inl e, w')"
  obtains (unchanged) "db w' = db w"
  | (reuse) h where "tokenHash E v = Some h" and "reused h (db w) (db w')" and "e = AuthErrUnauthorized"
proof (cases "tokenHash E v")
  case None
  with assms that(1) show thesis by (simp add: Refresh_def andthen_def)
next
  case (Some h)
  with assms have run: "in_tx (refresh_body h) E w = (Inl e, w')" by (simp add: Refresh_def andthen_def)
  from run [unfolded in_tx_def] show thesis
  proof (cases rule: in_tx_with_cases)
    case unchanged
    then show thesis by (rule that(1))
  next
    case (committed w1 w2)
    with refresh_body_end [OF committed(3)] Some that(2) show thesis by auto
  qed
qed

text \<open>Logging out and registering.\<close>

definition logged_out :: "uuid \<Rightarrow> uuid \<Rightarrow> bool \<Rightarrow> auth_db \<Rightarrow> auth_db \<Rightarrow> bool" where
  "logged_out u s all d d' \<longleftrightarrow>
     (\<exists>t ev. d' = d\<lparr>sessions := update_where (\<lambda>r. ss_user r = u \<and> (all \<or> ss_id r = s) \<and> ss_revoked r = None)
          (\<lambda>r. r\<lparr>ss_revoked := Some t\<rparr>) (sessions d), audits := audits d @ [(u, ev)]\<rparr>)"

lemma uuid_arg_Inr: "uuid_arg v E w = (Inr u, w') \<longleftrightarrow> scan_uuid E v = Some u \<and> w' = w"
  by (auto simp: uuid_arg_def andthen_Inr split: option.splits)

lemma logout_body_Inr:
  assumes "logout_body p all E w = (Inr t, w')"
  shows "t = Commit (Inr ()) \<and> (\<exists>u s. scan_uuid E (pr_user p) = Some u \<and> scan_uuid E (pr_session p) = Some s \<and>
    logged_out u s all (db w) (db w'))"
proof -
  let ?w1 = "w\<lparr>pc := Suc (pc w)\<rparr>"
  from assms obtain u s w2 where r: "scan_uuid E (pr_user p) = Some u" "scan_uuid E (pr_session p) = Some s" "db ?w1 = db w"
    "revoke (\<lambda>r. ss_user r = u \<and> (all \<or> ss_id r = s) \<and> ss_revoked r = None) E ?w1 = (Inr (), w2)"
    "audit u (if all then ''LOGOUT_ALL'' else ''LOGOUT'') E w2 = (Inr (), w')" "t = Commit (Inr ())"
    by (auto simp: logout_body_def andthen_Inr uuid_arg_Inr nop_stmt_Inr)
  from r(3,4) obtain t1 where "db w2 = (db w)\<lparr>sessions := update_where (\<lambda>r. ss_user r = u \<and> (all \<or> ss_id r = s) \<and> ss_revoked r = None)
      (\<lambda>r. r\<lparr>ss_revoked := Some t1\<rparr>) (sessions (db w))\<rparr>" by (auto simp: revoke_def stmt_Inr)
  moreover from r(5) have "db w' = (db w2)\<lparr>audits := audits (db w2) @ [(u, if all then ''LOGOUT_ALL'' else ''LOGOUT'')]\<rparr>"
    by (auto simp: audit_def stmt_Inr guarded_Inr)
  ultimately have "logged_out u s all (db w) (db w')"
    unfolding logged_out_def by (intro exI [of _ t1] exI [of _ "if all then ''LOGOUT_ALL'' else ''LOGOUT''"]) simp
  with r(1,2,6) show ?thesis by blast
qed

lemma Logout_Inr:
  assumes "Logout p all E w = (Inr x, w')"
  obtains u s where "scan_uuid E (pr_user p) = Some u" and "scan_uuid E (pr_session p) = Some s"
    and "logged_out u s all (db w) (db w')"
  using assms [unfolded Logout_def in_tx_def]
proof (cases rule: in_tx_with_Inr)
  case (rolled_back w2)
  with logout_body_Inr [OF rolled_back(2)] show thesis by simp
next
  case (committed w2)
  with logout_body_Inr [OF committed(2)] that show thesis by auto
qed

lemma Logout_failed: "Logout p all E w = (Inl e, w') \<Longrightarrow> db w' = db w"
  unfolding Logout_def in_tx_def by (erule in_tx_with_Inl_unchanged) (use logout_body_Inr in blast)

definition hash_text :: "auth_lib \<Rightarrow> string \<Rightarrow> nat list \<Rightarrow> string" where
  "hash_text L password salt = passwordPrefix @ base64_encode False salt @ ''$'' @ base64_encode False (argon2 L password salt)"

definition registered :: "env \<Rightarrow> auth_lib \<Rightarrow> string \<Rightarrow> string \<Rightarrow> auth_db \<Rightarrow> auth_db \<Rightarrow> bool" where
  "registered E L email password d d' \<longleftrightarrow>
     (\<exists>new salt n given family. rand_read E n 16 = Inr salt \<and> new \<notin> ac_user ` set (accounts d) \<and>
        ToLower email \<notin> (\<lambda>a. ToLower (ac_email a)) ` set (accounts d) \<and>
        d' = d\<lparr>accounts := accounts d @ [\<lparr>ac_user = new, ac_email = email, ac_hash = hash_text L password salt, ac_first = given,
                 ac_last = family, ac_role = CUSTOMER, ac_status = ACTIVE\<rparr>], audits := audits d @ [(new, ''REGISTER'')]\<rparr>)"

lemma HashPassword_Inr:
  "HashPassword L password E w = (Inr h, w') \<longleftrightarrow> 12 \<le> length password \<and> length password \<le> 128 \<and>
     (\<exists>salt. rand_read E (draws w) 16 = Inr salt \<and> h = hash_text L password salt) \<and> w' = w\<lparr>draws := Suc (draws w)\<rparr>"
  by (auto simp: HashPassword_def andthen_Inr ensure_Inr draw_bytes_Inr hash_text_def)

lemma Register_Inr:
  assumes "Register L in_use email0 password given family E w = (Inr x, w')"
  obtains email where "normalizeEmail L email0 = (email, True)" and "12 \<le> length password" and "length password \<le> 128"
    and "db w' = db w \<and> ToLower email \<in> (\<lambda>a. ToLower (ac_email a)) ` set (accounts (db w)) \<or> registered E L email password (db w) (db w')"
proof -
  from assms obtain email h w1 where r: "normalizeEmail L email0 = (email, True)" "HashPassword L password E w = (Inr h, w1)"
    "stmt (\<lambda>E w. insert_account (gen_uuid E (pc w) 0) email h given family (db w)) E w1 = (Inr x, w')"
    by (auto simp: Register_def admit_def andthen_Inr ensure_Inr split: prod.splits if_splits)
  from r(2) obtain salt where h: "12 \<le> length password" "length password \<le> 128" "rand_read E (draws w) 16 = Inr salt"
    "h = hash_text L password salt" "db w1 = db w" by (auto simp: HashPassword_Inr)
  from r(3) have "db w' = db w \<and> ToLower email \<in> (\<lambda>a. ToLower (ac_email a)) ` set (accounts (db w)) \<or> registered E L email password (db w) (db w')"
    unfolding registered_def using h(3,4,5)
    by (auto simp: stmt_Inr insert_account_def guarded_Inr split: if_splits)
  with r(1) h(1,2) that show thesis by blast
qed

lemma Register_failed:
  assumes "Register L in_use email0 password given family E w = (Inl e, w')"
  shows "db w' = db w"
  using assms
  by (auto simp: Register_def HashPassword_def admit_def andthen_def ensure_def draw_bytes_def stmt_def Let_def
      split: prod.splits if_splits sum.splits option.splits)

lemma Authenticate_db: "Authenticate v E w = (r, w') \<Longrightarrow> db w' = db w"
  by (auto simp: Authenticate_def andthen_def select_def stmt_def Let_def split: option.splits sum.splits prod.splits)

subsection \<open>What every operation keeps\<close>

definition unused :: "uuid \<Rightarrow> credential list \<Rightarrow> credential list" where
  "unused s cs = filter (\<lambda>c. cr_session c = s \<and> cr_kind c = REFRESH \<and> cr_used c = None) cs"

definition auth_ok :: "auth_db \<Rightarrow> bool" where
  "auth_ok d \<longleftrightarrow>
     distinct (map ac_user (accounts d)) \<and> distinct (map (\<lambda>a. ToLower (ac_email a)) (accounts d)) \<and>
     distinct (map ss_id (sessions d)) \<and> distinct (map cr_hash (credentials d)) \<and>
     (\<forall>s \<in> set (sessions d). ss_user s \<in> ac_user ` set (accounts d)) \<and>
     (\<forall>c \<in> set (credentials d). \<exists>s \<in> set (sessions d). ss_id s = cr_session c \<and> cr_expires c \<le> ss_expires s) \<and>
     (\<forall>s. length (unused s (credentials d)) \<le> 1)"

text \<open>The order in which the database grows: accounts and credentials stay, a session keeps its user
  and its end, and neither a revocation nor the use of a token is ever undone.\<close>

definition session_le :: "session_row \<Rightarrow> session_row \<Rightarrow> bool" where
  "session_le s s' \<longleftrightarrow> ss_id s' = ss_id s \<and> ss_user s' = ss_user s \<and> ss_expires s' = ss_expires s \<and>
     (ss_revoked s \<noteq> None \<longrightarrow> ss_revoked s' \<noteq> None)"

definition credential_le :: "credential \<Rightarrow> credential \<Rightarrow> bool" where
  "credential_le c c' \<longleftrightarrow> cr_hash c' = cr_hash c \<and> cr_session c' = cr_session c \<and> cr_kind c' = cr_kind c \<and> cr_expires c' = cr_expires c \<and>
     (cr_used c \<noteq> None \<longrightarrow> cr_used c' \<noteq> None)"

definition later :: "auth_db \<Rightarrow> auth_db \<Rightarrow> bool" where
  "later d d' \<longleftrightarrow> set (accounts d) \<subseteq> set (accounts d') \<and> (\<forall>s \<in> set (sessions d). \<exists>s' \<in> set (sessions d'). session_le s s') \<and>
     (\<forall>c \<in> set (credentials d). \<exists>c' \<in> set (credentials d'). credential_le c c')"

lemma le_refl [simp]: "session_le s s" "credential_le c c"
  by (simp_all add: session_le_def credential_le_def)

lemma later_refl [simp]: "later d d"
  by (auto simp: later_def intro: le_refl)

lemma later_trans: "later d d1 \<Longrightarrow> later d1 d2 \<Longrightarrow> later d d2"
proof -
  have s: "session_le a b \<Longrightarrow> session_le b c \<Longrightarrow> session_le a c" for a b c by (auto simp: session_le_def)
  have c: "credential_le a b \<Longrightarrow> credential_le b c \<Longrightarrow> credential_le a c" for a b c by (auto simp: credential_le_def)
  assume "later d d1" "later d1 d2"
  then show "later d d2" unfolding later_def by (meson s c order_trans)
qed

lemma auth_okD:
  assumes "auth_ok d"
  shows "distinct (map ac_user (accounts d))" "distinct (map (\<lambda>a. ToLower (ac_email a)) (accounts d))" "distinct (map ss_id (sessions d))"
    "distinct (map cr_hash (credentials d))" "s \<in> set (sessions d) \<Longrightarrow> ss_user s \<in> ac_user ` set (accounts d)"
    "c \<in> set (credentials d) \<Longrightarrow> \<exists>s \<in> set (sessions d). ss_id s = cr_session c \<and> cr_expires c \<le> ss_expires s"
    "length (unused i (credentials d)) \<le> 1"
  using assms by (simp_all add: auth_ok_def)

lemma registered_ok: "auth_ok d \<Longrightarrow> registered E L email password d d' \<Longrightarrow> auth_ok d' \<and> later d d'"
  by (auto simp: registered_def auth_ok_def later_def intro: le_refl)

text \<open>Revoking sessions, using a credential, and adding credentials.\<close>

lemma update_where_related:
  assumes "r \<in> set rows" and "R r r" and "R r (f r)"
  shows "\<exists>r' \<in> set (update_where p f rows). R r r'"
  using assms in_update_where [of r rows p f] in_update_where_same [of r rows p f] by (cases "p r") auto

lemma auth_okI:
  assumes "distinct (map ac_user (accounts d))" and "distinct (map (\<lambda>a. ToLower (ac_email a)) (accounts d))" and "distinct (map ss_id (sessions d))"
    and "distinct (map cr_hash (credentials d))" and "\<And>s. s \<in> set (sessions d) \<Longrightarrow> ss_user s \<in> ac_user ` set (accounts d)"
    and "\<And>c. c \<in> set (credentials d) \<Longrightarrow> \<exists>s \<in> set (sessions d). ss_id s = cr_session c \<and> cr_expires c \<le> ss_expires s"
    and "\<And>i. length (unused i (credentials d)) \<le> 1"
  shows "auth_ok d"
  unfolding auth_ok_def using assms by blast

lemma laterI:
  assumes "set (accounts d) \<subseteq> set (accounts d')" and "\<And>s. s \<in> set (sessions d) \<Longrightarrow> \<exists>s' \<in> set (sessions d'). session_le s s'"
    and "\<And>c. c \<in> set (credentials d) \<Longrightarrow> \<exists>c' \<in> set (credentials d'). credential_le c c'"
  shows "later d d'"
  unfolding later_def using assms by blast

lemma revoked_ok:
  assumes old: "auth_ok d" and d': "d' = d\<lparr>sessions := update_where p (\<lambda>s. s\<lparr>ss_revoked := Some t\<rparr>) (sessions d), audits := a\<rparr>"
  shows "auth_ok d' \<and> later d d'"
proof -
  have same: "accounts d' = accounts d" "credentials d' = credentials d"
    "sessions d' = update_where p (\<lambda>s. s\<lparr>ss_revoked := Some t\<rparr>) (sessions d)" by (simp_all add: d')
  have le: "\<exists>s' \<in> set (sessions d'). session_le s s'" if "s \<in> set (sessions d)" for s
    unfolding same by (rule update_where_related [OF that]) (simp_all add: session_le_def)
  have "auth_ok d'"
  proof (rule auth_okI)
    show "distinct (map ss_id (sessions d'))"
      using auth_okD(3) [OF old] by (simp add: same map_update_where_keep)
    show "ss_user s \<in> ac_user ` set (accounts d')" if "s \<in> set (sessions d')" for s
      using that auth_okD(5) [OF old] by (auto simp: same set_update_where)
    show "\<exists>s \<in> set (sessions d'). ss_id s = cr_session c \<and> cr_expires c \<le> ss_expires s" if "c \<in> set (credentials d')" for c
      using auth_okD(6) [OF old that [unfolded same]] le unfolding session_le_def by metis
  qed (use auth_okD(1,2,4,7) [OF old] in \<open>simp_all add: same\<close>)
  moreover have "later d d'"
    by (rule laterI) (use le in \<open>auto simp: same(1,2) intro: le_refl\<close>)
  ultimately show ?thesis ..
qed

lemma used_ok:
  assumes old: "auth_ok d" and d': "d' = d\<lparr>credentials := update_where p (\<lambda>c. c\<lparr>cr_used := Some t\<rparr>) (credentials d)\<rparr>"
  shows "auth_ok d' \<and> later d d' \<and> unused i (credentials d') = filter (\<lambda>c. \<not> p c) (unused i (credentials d))"
proof -
  have same: "accounts d' = accounts d" "sessions d' = sessions d"
    "credentials d' = update_where p (\<lambda>c. c\<lparr>cr_used := Some t\<rparr>) (credentials d)" by (simp_all add: d')
  have un: "unused i (credentials d') = filter (\<lambda>c. \<not> p c) (unused i (credentials d))" for i
  proof -
    have "unused i (update_where p (\<lambda>c. c\<lparr>cr_used := Some t\<rparr>) cs) = filter (\<lambda>c. \<not> p c) (unused i cs)" for cs
      by (induction cs) (auto simp: unused_def)
    then show ?thesis by (simp add: same)
  qed
  have "auth_ok d'"
  proof (rule auth_okI)
    show "distinct (map cr_hash (credentials d'))"
      using auth_okD(4) [OF old] by (simp add: same map_update_where_keep)
    show "\<exists>s \<in> set (sessions d'). ss_id s = cr_session c \<and> cr_expires c \<le> ss_expires s" if "c \<in> set (credentials d')" for c
      using that auth_okD(6) [OF old] by (auto simp: same set_update_where)
    show "length (unused i (credentials d')) \<le> 1" for i
      unfolding un using auth_okD(7) [OF old, of i] by (rule order_trans [OF length_filter_le])
  qed (use auth_okD(1,2,3,5) [OF old] in \<open>simp_all add: same\<close>)
  moreover have "\<exists>c' \<in> set (credentials d'). credential_le c c'" if "c \<in> set (credentials d)" for c
    unfolding same by (rule update_where_related [OF that]) (simp_all add: credential_le_def)
  then have "later d d'" by (intro laterI) (auto simp: same(1,2) intro: le_refl)
  ultimately show ?thesis using un by blast
qed

lemma one_session: "auth_ok d \<Longrightarrow> length (filter (\<lambda>x. ss_id x = s) (sessions d)) \<le> 1"
proof -
  assume "auth_ok d"
  then have "distinct (map ss_id (filter (\<lambda>x. ss_id x = s) (sessions d)))" by (simp add: auth_ok_def distinct_map_filter)
  moreover have "set (map ss_id (filter (\<lambda>x. ss_id x = s) (sessions d))) \<subseteq> {s}" by auto
  then have "card (set (map ss_id (filter (\<lambda>x. ss_id x = s) (sessions d)))) \<le> 1" using card_mono [of "{s}"] by simp
  ultimately show ?thesis by (simp only: distinct_card length_map)
qed

lemma issued_ok:
  assumes old: "auth_ok d" and none: "unused s (credentials d) = []" and new: "token_pair E s d tk t new"
    and d': "d' = d\<lparr>credentials := credentials d @ new\<rparr>"
  shows "auth_ok d' \<and> later d d'"
proof -
  let ?rows = "filter (\<lambda>x. ss_id x = s) (sessions d)"
  from new obtain ah rh where n: "new = issued ah rh t ?rows" and keys: "distinct (map cr_hash (credentials d @ new))"
    unfolding token_pair_def by blast
  have "\<exists>x \<in> set (sessions d). ss_id x = cr_session c \<and> cr_expires c \<le> ss_expires x" if "c \<in> set new" for c
    using that by (auto simp: n issued_def)
  moreover have "length (unused i (credentials d @ new)) \<le> 1" for i
  proof (cases "i = s")
    case True
    have "unused s new = filter (\<lambda>c. cr_kind c = REFRESH) new" by (auto simp: n issued_def unused_def intro!: filter_cong)
    then have "length (unused s new) \<le> length ?rows" by (simp add: n issued_def comp_def)
    with none True one_session [OF old, of s] show ?thesis by (simp add: unused_def)
  next
    case False
    then have "unused i new = []" by (auto simp: n issued_def unused_def filter_empty_conv)
    with auth_okD(7) [OF old, of i] show ?thesis by (simp add: unused_def)
  qed
  ultimately show ?thesis
    using old keys auth_okD(6) [OF old] by (auto simp: auth_ok_def later_def d' intro: le_refl)
qed

lemma later_frame [simp]: "later d (d'\<lparr>audits := a\<rparr>) = later d d'" "auth_ok (d'\<lparr>audits := a\<rparr>) = auth_ok d'"
  by (simp_all add: later_def auth_ok_def)

lemma logged_in_ok:
  assumes old: "auth_ok d" and new: "logged_in E u d tk d'"
  shows "auth_ok d' \<and> later d d'"
proof -
  from new obtain x t new where x: "ss_user x = u" "ss_id x \<notin> ss_id ` set (sessions d)" "u \<in> ac_user ` set (accounts d)"
    and pair: "token_pair E (ss_id x) (d\<lparr>sessions := sessions d @ [x]\<rparr>) tk t new"
    and d': "d' = d\<lparr>sessions := sessions d @ [x]\<rparr>\<lparr>credentials := credentials d @ new, audits := audits d @ [(u, ''LOGIN'')]\<rparr>"
    unfolding logged_in_def Let_def by blast
  let ?d1 = "d\<lparr>sessions := sessions d @ [x]\<rparr>"
  have one: "auth_ok ?d1 \<and> later d ?d1"
    using old x by (auto simp: auth_ok_def later_def intro: le_refl)
  have "unused (ss_id x) (credentials ?d1) = []"
    unfolding unused_def filter_empty_conv using auth_okD(6) [OF old] x(2) by (auto simp del: One_nat_def) (metis imageI)
  from issued_ok [OF conjunct1 [OF one] this pair refl] one later_trans show ?thesis
    by (simp add: d') blast
qed

lemma refreshed_ok:
  assumes old: "auth_ok d" and new: "refreshed E h d tk d'"
  shows "auth_ok d' \<and> later d d'"
proof -
  from new obtain c x t t' new where c: "c \<in> set (credentials d)" "cr_hash c = h" "cr_kind c = REFRESH" "cr_used c = None" "x \<in> set (sessions d)" "ss_id x = cr_session c"
    and pair: "token_pair E (ss_id x) (with_used h t' d) tk t new"
    and d': "d' = (with_used h t' d)\<lparr>credentials := credentials (with_used h t' d) @ new\<rparr>"
    unfolding refreshed_def by blast
  have one: "auth_ok (with_used h t' d) \<and> later d (with_used h t' d) \<and>
      unused i (credentials (with_used h t' d)) = filter (\<lambda>c. \<not> cr_hash c = h) (unused i (credentials d))" for i
    by (rule used_ok [OF old]) (simp add: with_used_def)
  have "c \<in> set (unused (ss_id x) (credentials d))" using c by (simp add: unused_def)
  with auth_okD(7) [OF old, of "ss_id x"] have "unused (ss_id x) (credentials d) = [c]"
    by (cases "unused (ss_id x) (credentials d)") auto
  with one c(2) have "unused (ss_id x) (credentials (with_used h t' d)) = []" by simp
  from issued_ok [OF _ this pair d'] one later_trans show ?thesis by blast
qed

lemma reused_ok: "auth_ok d \<Longrightarrow> reused h d d' \<Longrightarrow> auth_ok d' \<and> later d d'"
  unfolding reused_def using revoked_ok by blast

lemma logged_out_ok: "auth_ok d \<Longrightarrow> logged_out u s all d d' \<Longrightarrow> auth_ok d' \<and> later d d'"
  unfolding logged_out_def using revoked_ok by blast

subsection \<open>Runs\<close>

text \<open>Any sequence of calls, from any number of clients, with whatever faults.\<close>

inductive auth_step :: "env \<Rightarrow> auth_db world \<Rightarrow> auth_db world \<Rightarrow> bool" for E :: env where
  register: "auth_step E w (snd (Register L in_use email password given family E w))"
| login: "auth_step E w (snd (Login L in_use email password E w))"
| authenticate: "auth_step E w (snd (Authenticate v E w))"
| refresh: "auth_step E w (snd (Refresh v E w))"
| logout: "auth_step E w (snd (Logout p all E w))"

inductive_cases auth_stepE: "auth_step E w w'"

lemma auth_step_ok:
  assumes "auth_step E w w'" and "auth_ok (db w)"
  shows "auth_ok (db w') \<and> later (db w) (db w')"
  using assms(1)
proof cases
  case (register L in_use email password given family)
  obtain r where r: "Register L in_use email password given family E w = (r, w')" using register by (metis prod.collapse)
  show ?thesis
  proof (cases r)
    case (Inl e)
    with r Register_failed assms(2) show ?thesis by fastforce
  next
    case (Inr x)
    with r have "Register L in_use email password given family E w = (Inr x, w')" by simp
    then show ?thesis by (rule Register_Inr) (use assms(2) registered_ok in auto)
  qed
next
  case (login L in_use email password)
  obtain r where r: "Login L in_use email password E w = (r, w')" using login by (metis prod.collapse)
  show ?thesis
  proof (cases r)
    case (Inl e)
    with r Login_failed assms(2) show ?thesis by fastforce
  next
    case (Inr x)
    with r Login_Inr [of L in_use email password E w x w'] assms(2) logged_in_ok show ?thesis by blast
  qed
next
  case (authenticate v)
  then have "db w' = db w" using Authenticate_db [OF prod.collapse [symmetric]] by metis
  with assms(2) show ?thesis by simp
next
  case (refresh v)
  obtain r where r: "Refresh v E w = (r, w')" using refresh by (metis prod.collapse)
  show ?thesis
  proof (cases r)
    case (Inl e)
    with r have "Refresh v E w = (Inl e, w')" by simp
    then show ?thesis by (rule Refresh_Inl) (use assms(2) reused_ok in auto)
  next
    case (Inr x)
    with r have "Refresh v E w = (Inr x, w')" by simp
    then show ?thesis by (rule Refresh_Inr) (use assms(2) refreshed_ok in auto)
  qed
next
  case (logout p all)
  obtain r where r: "Logout p all E w = (r, w')" using logout by (metis prod.collapse)
  show ?thesis
  proof (cases r)
    case (Inl e)
    with r Logout_failed assms(2) show ?thesis by fastforce
  next
    case (Inr x)
    with r have "Logout p all E w = (Inr x, w')" by simp
    then show ?thesis by (rule Logout_Inr) (use assms(2) logged_out_ok in auto)
  qed
qed

lemma auth_steps_ok:
  "(auth_step E)\<^sup>*\<^sup>* w w' \<Longrightarrow> auth_ok (db w) \<Longrightarrow> auth_ok (db w') \<and> later (db w) (db w')"
  by (induction rule: rtranclp_induct) (auto dest: auth_step_ok intro: later_trans)

end
