(* ===== verification/AuthProps.thy ===== *)
theory AuthProps
  imports AuthRun Demo
begin

text \<open>What accounts, sessions and tokens promise: a stored password hash accepts the password, a login
  gives a token that stands for its user until it ends, a refresh token works once, and a revoked
  session stays dead.\<close>

subsection \<open>Random bytes and token texts\<close>

definition bytes_ok :: "nat list \<Rightarrow> bool" where
  "bytes_ok bs \<longleftrightarrow> list_all (\<lambda>b. b < 256) bs"

definition rand_ok :: "env \<Rightarrow> bool" where
  "rand_ok E \<longleftrightarrow> (\<forall>n len bs. rand_read E n len = Inr bs \<longrightarrow> length bs = len \<and> bytes_ok bs)"

lemma rand_okD: "rand_ok E \<Longrightarrow> rand_read E n len = Inr bs \<Longrightarrow> length bs = len \<and> bytes_ok bs"
  by (simp add: rand_ok_def)

lemma decode_encode: "bytes_ok bs \<Longrightarrow> base64_decode url (base64_encode url bs) = Some bs"
  by (rule base64_decode_encode) (simp add: bytes_ok_def list_all_iff)

lemma token_opens:
  assumes "rand_ok E" and "token_pair E s d tk t new"
  shows "tokenHash E (AccessToken tk) = Some (sha256 E (AccessToken tk))"
    and "tokenHash E (RefreshToken tk) = Some (sha256 E (RefreshToken tk))"
proof -
  from assms(2) obtain n a r where ar: "rand_read E n 32 = Inr a" "rand_read E (Suc n) 32 = Inr r"
    "tk = \<lparr>AccessToken = base64_encode True a, RefreshToken = base64_encode True r, ExpiresIn = 600\<rparr>"
    unfolding token_pair_def by blast
  from rand_okD [OF assms(1) ar(1)] rand_okD [OF assms(1) ar(2)]
  show "tokenHash E (AccessToken tk) = Some (sha256 E (AccessToken tk))" "tokenHash E (RefreshToken tk) = Some (sha256 E (RefreshToken tk))"
    by (simp_all add: ar(3) tokenHash_def decode_encode length_base64)
qed

text \<open>The standard alphabet has no dollar sign, so a stored hash splits where it was joined.\<close>

lemma dollar_free: "CHR ''$'' \<notin> set (base64_encode False bs)"
proof -
  have "base64_char False d \<noteq> CHR ''$''" if "d < 64" for d
    using byte_base64 [OF that, of False] that by (auto simp: byte_eq_iff [symmetric] byte_def split: if_splits)
  then show ?thesis using sextets_less by (fastforce simp: base64_encode_def)
qed

lemma split_on_free: "c \<notin> set xs \<Longrightarrow> split_on c xs = [xs]"
  by (induction xs) auto

lemma split_on_join: "c \<notin> set xs \<Longrightarrow> split_on c (xs @ c # ys) = xs # split_on c ys"
  by (induction xs) auto

lemma parse_hash_text:
  assumes "length salt = 16" and "bytes_ok salt" and "length (argon2 L password salt) = 32" and "bytes_ok (argon2 L password salt)"
  shows "parse_hash (hash_text L password salt) = Some (salt, argon2 L password salt)"
  using assms
  by (simp add: parse_hash_def hash_text_def has_prefix_def trim_prefix_def split_on_join split_on_free dollar_free decode_encode)

subsection \<open>Rows found by a token\<close>

definition live_access :: "string \<Rightarrow> ts \<Rightarrow> auth_db \<Rightarrow> session_row \<Rightarrow> account \<Rightarrow> bool" where
  "live_access h t d s u \<longleftrightarrow> s \<in> set (sessions d) \<and> u \<in> set (accounts d) \<and> ac_user u = ss_user s \<and> ss_expires s > t \<and>
     ss_revoked s = None \<and> ac_status u = ACTIVE \<and>
     (\<exists>c \<in> set (credentials d). ss_id s = cr_session c \<and> cr_hash c = h \<and> cr_kind c = ACCESS \<and> cr_expires c > t)"

lemma distinct_key: "distinct (map k xs) \<Longrightarrow> x \<in> set xs \<Longrightarrow> y \<in> set xs \<Longrightarrow> k x = k y \<Longrightarrow> x = y"
  by (auto simp: distinct_map inj_on_def)

lemma principal_row_live:
  "principal_row h t d = Some (u, s, role) \<Longrightarrow> \<exists>x a. live_access h t d x a \<and> u = ac_user a \<and> s = ss_id x \<and> role = ac_role a"
proof -
  assume "principal_row h t d = Some (u, s, role)"
  then have "(u, s, role) \<in> set [(ac_user u, ss_id s, ac_role u). c \<leftarrow> credentials d, s \<leftarrow> sessions d, u \<leftarrow> accounts d,
       ss_id s = cr_session c \<and> ac_user u = ss_user s \<and> cr_hash c = h \<and> cr_kind c = ACCESS \<and> cr_expires c > t \<and>
       ss_expires s > t \<and> ss_revoked s = None \<and> ac_status u = ACTIVE]"
    unfolding principal_row_def by (rule first_row_Some)
  then obtain c x a where "c \<in> set (credentials d)" "x \<in> set (sessions d)" "a \<in> set (accounts d)"
    "ss_id x = cr_session c \<and> ac_user a = ss_user x \<and> cr_hash c = h \<and> cr_kind c = ACCESS \<and> cr_expires c > t \<and>
       ss_expires x > t \<and> ss_revoked x = None \<and> ac_status a = ACTIVE"
    "u = ac_user a" "s = ss_id x" "role = ac_role a"
    by (auto split: if_splits)
  then have "live_access h t d x a \<and> u = ac_user a \<and> s = ss_id x \<and> role = ac_role a"
    unfolding live_access_def by blast
  then show ?thesis by blast
qed

lemma live_access_unique:
  assumes "auth_ok d" and "live_access h t d x a" and "live_access h t d x' a'"
  shows "x' = x \<and> a' = a"
  using assms distinct_key [OF auth_okD(4) [OF assms(1)]] distinct_key [OF auth_okD(3) [OF assms(1)]] distinct_key [OF auth_okD(1) [OF assms(1)]]
  unfolding live_access_def by metis

lemma principal_row_iff:
  assumes "auth_ok d"
  shows "live_access h t d x a \<Longrightarrow> principal_row h t d = Some (ac_user a, ss_id x, ac_role a)"
    and "(\<And>x a. \<not> live_access h t d x a) \<Longrightarrow> principal_row h t d = None"
proof -
  assume live: "live_access h t d x a"
  then have "principal_row h t d \<noteq> None"
    unfolding principal_row_def first_row_def live_access_def by (auto split: list.splits if_splits)
  then obtain u s role where row: "principal_row h t d = Some (u, s, role)" by auto
  with principal_row_live [OF row] live_access_unique [OF assms live] show "principal_row h t d = Some (ac_user a, ss_id x, ac_role a)"
    by blast
next
  assume "\<And>x a. \<not> live_access h t d x a"
  then show "principal_row h t d = None"
    using principal_row_live by (cases "principal_row h t d") (auto, blast)
qed

lemma Authenticate_Inr:
  assumes "Authenticate v E w = (Inr p, w')"
  obtains h x a where "tokenHash E v = Some h" and "live_access h (clock E (pc w)) (db w) x a"
    and "p = \<lparr>pr_user = uuid_text E (ac_user a), pr_session = uuid_text E (ss_id x), pr_role = role_text (ac_role a)\<rparr>"
proof -
  from assms obtain h u s role where h: "tokenHash E v = Some h" "principal_row h (clock E (pc w)) (db w) = Some (u, s, role)"
    "p = \<lparr>pr_user = uuid_text E u, pr_session = uuid_text E s, pr_role = role_text role\<rparr>"
    by (auto simp: Authenticate_def andthen_Inr select_Inr split: option.splits)
  from principal_row_live [OF h(2)] h(1,3) that show thesis by auto
qed

lemma Authenticate_row:
  assumes "tokenHash E v = Some h" and "fault E (pc w) = None"
  shows "fst (Authenticate v E w) = (case principal_row h (clock E (pc w)) (db w) of None \<Rightarrow> Inl AuthErrUnauthorized
    | Some (u, s, role) \<Rightarrow> Inr \<lparr>pr_user = uuid_text E u, pr_session = uuid_text E s, pr_role = role_text role\<rparr>)"
  using assms by (simp add: Authenticate_def andthen_def select_def stmt_def split: option.splits prod.splits)

text \<open>A revoked session authenticates no token and renews none, now and ever after.\<close>

definition dead :: "uuid \<Rightarrow> auth_db \<Rightarrow> bool" where
  "dead s d \<longleftrightarrow> (\<exists>x \<in> set (sessions d). ss_id x = s \<and> ss_revoked x \<noteq> None)"

lemma dead_later: "dead s d \<Longrightarrow> later d d' \<Longrightarrow> dead s d'"
  unfolding dead_def later_def session_le_def by metis

lemma dead_authenticates_nothing:
  assumes "auth_ok (db w)" and "dead s (db w)" and "inj (uuid_text E)" and "Authenticate v E w = (Inr p, w')"
  shows "pr_session p \<noteq> uuid_text E s"
proof
  assume s: "pr_session p = uuid_text E s"
  from assms(4) obtain h x a where "live_access h (clock E (pc w)) (db w) x a" "pr_session p = uuid_text E (ss_id x)"
    by (rule Authenticate_Inr) simp
  with s assms(2,3) distinct_key [OF auth_okD(3) [OF assms(1)]] show False
    unfolding dead_def live_access_def by (metis injD)
qed

subsection \<open>A demo library and database\<close>

text \<open>Characters by a table, for evaluation.\<close>

lemma base64_char_table [code]:
  "base64_char url n = (if n < 62 then ''ABCDEFGHIJKLMNOPQRSTUVWXYZabcdefghijklmnopqrstuvwxyz0123456789'' ! n
     else if n = 62 then (if url then CHR ''-'' else CHR ''+'') else (if url then CHR ''_'' else CHR ''/''))"
proof (cases "n < 62")
  case True
  let ?ns = "[0, 1, 2, 3, 4, 5, 6, 7, 8, 9, 10, 11, 12, 13, 14, 15, 16, 17, 18, 19, 20, 21, 22, 23, 24, 25, 26, 27, 28, 29, 30, 31,
    32, 33, 34, 35, 36, 37, 38, 39, 40, 41, 42, 43, 44, 45, 46, 47, 48, 49, 50, 51, 52, 53, 54, 55, 56, 57, 58, 59, 60, 61]"
  have "[0..<62] = ?ns" by (simp add: upt_conv_Cons)
  moreover have "list_all (\<lambda>n. base64_char url n = ''ABCDEFGHIJKLMNOPQRSTUVWXYZabcdefghijklmnopqrstuvwxyz0123456789'' ! n) ?ns"
    by (simp add: base64_char_def char_of_def bit_Suc_0_iff)
  ultimately have "list_all (\<lambda>n. base64_char url n = ''ABCDEFGHIJKLMNOPQRSTUVWXYZabcdefghijklmnopqrstuvwxyz0123456789'' ! n) [0..<62]" by (simp only:)
  with True show ?thesis by (simp add: list_all_iff)
qed (auto simp: base64_char_def char_of_def bit_Suc_0_iff)

definition demo_lib :: auth_lib where
  "demo_lib = \<lparr>argon2 = (\<lambda>p s. replicate 31 0 @ [if p = ''correct horse'' then 0 else 1]), mail_address = (\<lambda>s. Some s)\<rparr>"

definition demo_sum :: "string \<Rightarrow> string" where
  "demo_sum s = take 32 (rev s @ replicate 32 (CHR ''x''))"

definition demo_auth :: env where
  "demo_auth = demo_env\<lparr>sha256 := demo_sum,
     rand_read := \<lambda>n len. Inr (if len = 0 then [] else replicate (len - 1) 0 @ [if n = 0 then 0 else if n = 1 then 1 else 2])\<rparr>"

definition demo_hash :: string where
  "demo_hash = passwordPrefix @ replicate 22 (CHR ''A'') @ ''$'' @ replicate 43 (CHR ''A'')"

definition demo_token :: "char \<Rightarrow> string" where
  "demo_token c = replicate 42 (CHR ''A'') @ [c]"

text \<open>User 1, and of that user the session 2 with the unused refresh token \<open>A...AI\<close> and the used one
  \<open>A...AY\<close>.\<close>

definition demo_credential :: "char \<Rightarrow> token_kind \<Rightarrow> ts option \<Rightarrow> credential" where
  "demo_credential c k used = \<lparr>cr_hash = demo_sum (demo_token c), cr_session = 2, cr_kind = k, cr_expires = 5000 * second, cr_used = used\<rparr>"

definition demo_accounts :: auth_db where
  "demo_accounts = \<lparr>
     accounts = [\<lparr>ac_user = 1, ac_email = ''a@b.eg'', ac_hash = demo_hash, ac_first = ''A'', ac_last = ''B'', ac_role = CUSTOMER, ac_status = ACTIVE\<rparr>],
     sessions = [\<lparr>ss_id = 2, ss_user = 1, ss_expires = 6000 * second, ss_revoked = None\<rparr>],
     credentials = [demo_credential (CHR ''Q'') ACCESS None, demo_credential (CHR ''Y'') REFRESH (Some 0), demo_credential (CHR ''I'') REFRESH None],
     audits = []\<rparr>"

lemma demo_lib_ok: "length (argon2 demo_lib p s) = 32 \<and> bytes_ok (argon2 demo_lib p s)"
  by (simp add: demo_lib_def bytes_ok_def list_all_iff)

lemma demo_rand_ok: "rand_ok demo_auth"
  by (auto simp: rand_ok_def demo_auth_def bytes_ok_def list_all_iff)

lemma demo_auth_ok: "auth_ok demo_accounts"
  unfolding auth_ok_def
proof (intro conjI)
  show "\<forall>s. length (unused s (credentials demo_accounts)) \<le> 1"
    by (simp add: unused_def demo_accounts_def demo_credential_def)
qed (simp_all add: demo_accounts_def demo_credential_def demo_token_def demo_sum_def second_def)

definition demo_login :: "(gerr + tokens) \<times> auth_db world" where
  "demo_login = Login demo_lib 0 '' A@B.eg '' ''correct horse'' demo_auth (demo_world demo_accounts)"

lemma demo_login_facts: "case fst demo_login of Inr tk \<Rightarrow> ExpiresIn tk = 600 | _ \<Rightarrow> False"
  by code_simp

definition demo_refresh :: "char \<Rightarrow> (gerr + tokens) \<times> auth_db world" where
  "demo_refresh c = Refresh (demo_token c) demo_auth (demo_world demo_accounts)"

lemma demo_refresh_facts: "case fst (demo_refresh (CHR ''I'')) of Inr tk \<Rightarrow> ExpiresIn tk = 600 | _ \<Rightarrow> False"
  by code_simp

lemma demo_reuse_facts: "case fst (demo_refresh (CHR ''Y'')) of Inl e \<Rightarrow> e = AuthErrUnauthorized | _ \<Rightarrow> False"
  by code_simp

subsection \<open>Properties\<close>

text \<open>C35. A password hash can be checked: if the key derivation gives 32 bytes, the text \<open>HashPassword\<close>
  returns is accepted by \<open>verifyPassword\<close> with the password it was made from, and with another password
  only if that gives the same key for the salt of the text.\<close>

theorem password_roundtrip:
  assumes lib: "\<And>p s. length (argon2 L p s) = 32 \<and> bytes_ok (argon2 L p s)" and rand: "rand_ok E"
    and run: "HashPassword L password E w = (Inr h, w')"
  shows "verifyPassword L h password \<and> (\<exists>salt. length salt = 16 \<and>
    (\<forall>p. verifyPassword L h p \<longleftrightarrow> argon2 L p salt = argon2 L password salt))"
proof -
  from run obtain salt where s: "rand_read E (draws w) 16 = Inr salt" "h = hash_text L password salt"
    by (auto simp: HashPassword_Inr)
  from rand_okD [OF rand s(1)] lib have "parse_hash h = Some (salt, argon2 L password salt)"
    unfolding s(2) by (intro parse_hash_text) auto
  then have "verifyPassword L h p \<longleftrightarrow> argon2 L p salt = argon2 L password salt" for p
    by (simp add: verifyPassword_def)
  with rand_okD [OF rand s(1)] show ?thesis by blast
qed

definition demo_hashed :: "(gerr + string) \<times> auth_db world" where
  "demo_hashed = HashPassword demo_lib ''correct horse'' demo_auth (demo_world demo_accounts)"

lemma demo_hashed_facts: "case fst demo_hashed of Inr h \<Rightarrow> h = demo_hash | _ \<Rightarrow> False"
  by code_simp

theorem password_roundtrip_witness:
  "verifyPassword demo_lib demo_hash ''correct horse''"
proof -
  have "fst demo_hashed = Inr demo_hash" using demo_hashed_facts by (auto split: sum.splits)
  then have "HashPassword demo_lib ''correct horse'' demo_auth (demo_world demo_accounts) = (Inr demo_hash, snd demo_hashed)"
    by (simp add: demo_hashed_def run_eq)
  from conjunct1 [OF password_roundtrip [OF demo_lib_ok demo_rand_ok this]] show ?thesis .
qed

text \<open>C14. A login is a proof of the password and its access token stands for the account it was given to:
  a successful \<open>Login\<close> names an active account with that email and an accepted password, and the access
  token it returns authenticates as that user, with its role, at exactly the moments before the end of
  the session or ten minutes, whichever is first.\<close>

theorem login_issues:
  assumes ok: "auth_ok (db w)" and rand: "rand_ok E" and run: "Login L in_use email0 password E w = (Inr tk, w')"
  shows "\<exists>a s n. a \<in> set (accounts (db w)) \<and> normalizeEmail L email0 = (ToLower (ac_email a), True) \<and>
    verifyPassword L (ac_hash a) password \<and> ac_status a = ACTIVE \<and> s \<notin> ss_id ` set (sessions (db w)) \<and>
    (\<forall>w2. db w2 = db w' \<and> fault E (pc w2) = None \<longrightarrow> fst (Authenticate (AccessToken tk) E w2) =
       (if clock E (pc w2) < min (clock E n + 30 * 24 * 60 * minute) (clock E (Suc n) + 10 * minute)
        then Inr \<lparr>pr_user = uuid_text E (ac_user a), pr_session = uuid_text E s, pr_role = role_text (ac_role a)\<rparr>
        else Inl AuthErrUnauthorized))"
proof -
  from Login_Inr [OF run] obtain a where a: "normalizeEmail L email0 = (ToLower (ac_email a), True)" "a \<in> set (accounts (db w))"
    "verifyPassword L (ac_hash a) password" "ac_status a = ACTIVE" "logged_in E (ac_user a) (db w) tk (db w')" by auto
  from logged_in_ok [OF ok a(5)] have ok': "auth_ok (db w')" ..
  from a(5) obtain x n new where x: "ss_user x = ac_user a" "ss_revoked x = None" "ss_id x \<notin> ss_id ` set (sessions (db w))"
      "ss_expires x = clock E n + 30 * 24 * 60 * minute"
    and pair: "token_pair E (ss_id x) ((db w)\<lparr>sessions := sessions (db w) @ [x]\<rparr>) tk (clock E (Suc n)) new"
    and d': "db w' = (db w)\<lparr>sessions := sessions (db w) @ [x], credentials := credentials (db w) @ new, audits := audits (db w) @ [(ac_user a, ''LOGIN'')]\<rparr>"
    unfolding logged_in_def Let_def by auto
  let ?ah = "sha256 E (AccessToken tk)" and ?stop = "min (clock E n + 30 * 24 * 60 * minute) (clock E (Suc n) + 10 * minute)"
  have only: "filter (\<lambda>r. ss_id r = ss_id x) (sessions (db w) @ [x]) = [x]" using x(3) by (auto simp: filter_empty_conv) (metis imageI)
  from pair have new: "new = issued ?ah (sha256 E (RefreshToken tk)) (clock E (Suc n)) [x]"
    unfolding token_pair_def using only by auto
  define c where "c = \<lparr>cr_hash = ?ah, cr_session = ss_id x, cr_kind = ACCESS, cr_expires = ?stop, cr_used = None\<rparr>"
  have c: "c \<in> set (credentials (db w'))" by (simp add: d' new issued_def c_def x(4))
  have live: "live_access ?ah t (db w') x a" if "t < ?stop" for t
    unfolding live_access_def using a(2,4) x(1,2,4) c that by (auto simp: d' c_def intro!: bexI [of _ c])
  have over: "\<not> live_access ?ah t (db w') x' a'" if "\<not> t < ?stop" for t x' a'
    using that c distinct_key [OF auth_okD(4) [OF ok'] _ c] unfolding live_access_def by (force simp: c_def)
  have "fst (Authenticate (AccessToken tk) E w2) = (if clock E (pc w2) < ?stop
      then Inr \<lparr>pr_user = uuid_text E (ac_user a), pr_session = uuid_text E (ss_id x), pr_role = role_text (ac_role a)\<rparr>
      else Inl AuthErrUnauthorized)" if "db w2 = db w'" "fault E (pc w2) = None" for w2
    using Authenticate_row [OF token_opens(1) [OF rand pair] that(2)] that(1)
      principal_row_iff(1) [OF ok' live] principal_row_iff(2) [OF ok' over] by simp
  with a x(3) show ?thesis by blast
qed

theorem login_issues_witness:
  "\<exists>tk. fst demo_login = Inr tk \<and>
    (\<exists>s. fst (Authenticate (AccessToken tk) demo_auth (snd demo_login)) = Inr \<lparr>pr_user = demo_text 1, pr_session = s, pr_role = ''CUSTOMER''\<rparr>)"
proof -
  obtain tk where tk: "fst demo_login = Inr tk" using demo_login_facts by (auto split: sum.splits)
  then have run: "Login demo_lib 0 '' A@B.eg '' ''correct horse'' demo_auth (demo_world demo_accounts) = (Inr tk, snd demo_login)"
    by (simp add: demo_login_def run_eq)
  from login_issues [OF _ demo_rand_ok run] demo_auth_ok obtain a s n where a: "a \<in> set (accounts demo_accounts)"
    "fst (Authenticate (AccessToken tk) demo_auth (snd demo_login)) =
       (if clock demo_auth (pc (snd demo_login)) < min (clock demo_auth n + 30 * 24 * 60 * minute) (clock demo_auth (Suc n) + 10 * minute)
        then Inr \<lparr>pr_user = uuid_text demo_auth (ac_user a), pr_session = uuid_text demo_auth s, pr_role = role_text (ac_role a)\<rparr>
        else Inl AuthErrUnauthorized)"
    by (auto simp: demo_world_def demo_auth_def)
  have "clock demo_auth m < min (clock demo_auth n + 30 * 24 * 60 * minute) (clock demo_auth (Suc n) + 10 * minute)" for m
    by (simp add: demo_auth_def demo_env_def minute_def second_def)
  with a(2) have r: "fst (Authenticate (AccessToken tk) demo_auth (snd demo_login)) = Inr \<lparr>pr_user = uuid_text demo_auth (ac_user a),
      pr_session = uuid_text demo_auth s, pr_role = role_text (ac_role a)\<rparr>" by simp
  have "ac_user a = 1" "role_text (ac_role a) = ''CUSTOMER''" using a(1) by (simp_all add: demo_accounts_def)
  moreover have "uuid_text demo_auth = demo_text" by (simp add: demo_auth_def demo_env_def)
  ultimately show ?thesis using tk r by metis
qed

text \<open>A used refresh token stays used.\<close>

lemma refreshed_used:
  assumes "refreshed E h d tk d'"
  shows "\<exists>c \<in> set (credentials d'). cr_hash c = h \<and> cr_used c \<noteq> None"
proof -
  from assms obtain c t new where c: "c \<in> set (credentials d)" "cr_hash c = h"
    "d' = (with_used h t d)\<lparr>credentials := credentials (with_used h t d) @ new\<rparr>"
    unfolding refreshed_def by blast
  have "c\<lparr>cr_used := Some t\<rparr> \<in> set (credentials (with_used h t d))"
    using in_update_where [OF c(1), of "\<lambda>c. cr_hash c = h" "\<lambda>c. c\<lparr>cr_used := Some t\<rparr>"] c(2) by (simp add: with_used_def)
  then show ?thesis using c(2,3) by (intro bexI [of _ "c\<lparr>cr_used := Some t\<rparr>"]) simp_all
qed

lemma used_not_refreshed:
  assumes "auth_ok d" and "c \<in> set (credentials d)" and "cr_used c \<noteq> None"
  shows "\<not> refreshed E (cr_hash c) d tk d'"
  using distinct_key [OF auth_okD(4) [OF assms(1)] assms(2)] assms(3) unfolding refreshed_def by metis

text \<open>C12. A refresh token works once: after \<open>Refresh\<close> returned new tokens for a token, no call of any
  later run, whatever other clients do in between, returns tokens for it again.\<close>

theorem refresh_once:
  assumes ok: "auth_ok (db w)" and run: "Refresh v E w = (Inr tk, w1)" and steps: "(auth_step E)\<^sup>*\<^sup>* w1 w2"
  shows "fst (Refresh v E w2) \<noteq> Inr tk'"
proof
  assume again: "fst (Refresh v E w2) = Inr tk'"
  from run obtain h where h: "tokenHash E v = Some h" "refreshed E h (db w) tk (db w1)" by (rule Refresh_Inr)
  from run_eq [OF again] obtain h' where "tokenHash E v = Some h'" "refreshed E h' (db w2) tk' (db (snd (Refresh v E w2)))"
    by (rule Refresh_Inr)
  with h(1) have again: "refreshed E h (db w2) tk' (db (snd (Refresh v E w2)))" by simp
  from refreshed_ok [OF ok h(2)] auth_steps_ok [OF steps] have w2: "auth_ok (db w2)" "later (db w1) (db w2)" by auto
  from refreshed_used [OF h(2)] w2(2) obtain c where "c \<in> set (credentials (db w2))" "cr_hash c = h" "cr_used c \<noteq> None"
    unfolding later_def credential_le_def by metis
  with used_not_refreshed [OF w2(1)] again show False by blast
qed

lemma demo_refreshed: "\<exists>tk. Refresh (demo_token (CHR ''I'')) demo_auth (demo_world demo_accounts) = (Inr tk, snd (demo_refresh (CHR ''I'')))"
proof -
  obtain tk where "fst (demo_refresh (CHR ''I'')) = Inr tk" using demo_refresh_facts by (auto split: sum.splits)
  from run_eq [OF this] show ?thesis by (auto simp: demo_refresh_def)
qed

theorem refresh_once_witness:
  "\<nexists>tk. fst (Refresh (demo_token (CHR ''I'')) demo_auth (snd (demo_refresh (CHR ''I'')))) = Inr tk"
proof -
  obtain tk where run: "Refresh (demo_token (CHR ''I'')) demo_auth (demo_world demo_accounts) = (Inr tk, snd (demo_refresh (CHR ''I'')))"
    using demo_refreshed by blast
  have ok: "auth_ok (db (demo_world demo_accounts))" using demo_auth_ok by (simp add: demo_world_def)
  show ?thesis using refresh_once [OF ok run rtranclp.rtrancl_refl] by blast
qed

definition token_of :: "string \<Rightarrow> uuid \<Rightarrow> token_kind \<Rightarrow> auth_db \<Rightarrow> bool" where
  "token_of h s k d \<longleftrightarrow> (\<exists>c \<in> set (credentials d). cr_hash c = h \<and> cr_session c = s \<and> cr_kind c = k)"

lemma refresh_row_iff:
  assumes "auth_ok d" and "c \<in> set (credentials d)" and "cr_kind c = REFRESH" and "x \<in> set (sessions d)" and "ss_id x = cr_session c"
    and "a \<in> set (accounts d)" and "ac_user a = ss_user x"
  shows "refresh_row (cr_hash c) t d =
    Some (ss_id x, ss_user x, ss_revoked x, cr_used c, ss_expires x > t \<and> cr_expires c > t \<and> ac_status a = ACTIVE)"
proof -
  have "refresh_row (cr_hash c) t d \<noteq> None"
    unfolding refresh_row_def first_row_def using assms(2-7) by (auto split: list.splits if_splits)
  then obtain s u rv us live where row: "refresh_row (cr_hash c) t d = Some (s, u, rv, us, live)" by auto
  then obtain c' x' a' where r: "c' \<in> set (credentials d)" "cr_hash c' = cr_hash c" "cr_used c' = us" "x' \<in> set (sessions d)"
    "ss_id x' = cr_session c'" "ss_id x' = s" "ss_user x' = u" "ss_revoked x' = rv" "a' \<in> set (accounts d)" "ac_user a' = u"
    "live = (ss_expires x' > t \<and> cr_expires c' > t \<and> ac_status a' = ACTIVE)"
    by (rule refresh_row_Some)
  have c: "c' = c" using distinct_key [OF auth_okD(4) [OF assms(1)] r(1) assms(2)] r(2) by simp
  then have x: "x' = x" using distinct_key [OF auth_okD(3) [OF assms(1)] r(4) assms(4)] r(5) assms(5) by simp
  then have a: "a' = a" using distinct_key [OF auth_okD(1) [OF assms(1)] r(9) assms(6)] r(7,10) assms(7) by simp
  show ?thesis using row r(3,6-8,11) by (simp add: c x a)
qed

lemma dead_not_refreshed:
  assumes "auth_ok d" and "dead s d" and "token_of h s REFRESH d"
  shows "\<not> refreshed E h d tk d'"
  using assms distinct_key [OF auth_okD(4) [OF assms(1)]] distinct_key [OF auth_okD(3) [OF assms(1)]]
  unfolding refreshed_def token_of_def dead_def by metis

lemma token_of_later: "token_of h s k d \<Longrightarrow> later d d' \<Longrightarrow> token_of h s k d'"
  unfolding token_of_def later_def credential_le_def by metis



text \<open>Logging out ends what it says: after \<open>Logout\<close> succeeded, the sessions that are revoked are the ones
  that were and those of the user (all of them, or the one of the principal), and none of these
  authenticates an access token in any later run.\<close>

theorem logout_ends:
  assumes ok: "auth_ok (db w)" and ids: "inj (uuid_text E)" and run: "Logout p all E w = (Inr (), w1)" and steps: "(auth_step E)\<^sup>*\<^sup>* w1 w2"
  shows "\<exists>u s. scan_uuid E (pr_user p) = Some u \<and> scan_uuid E (pr_session p) = Some s \<and>
    map ss_id (sessions (db w1)) = map ss_id (sessions (db w)) \<and>
    (\<forall>x \<in> set (sessions (db w)).
      (dead (ss_id x) (db w1) \<longleftrightarrow> ss_revoked x \<noteq> None \<or> ss_user x = u \<and> (all \<or> ss_id x = s)) \<and>
      (ss_user x = u \<and> (all \<or> ss_id x = s) \<longrightarrow>
        (\<forall>v q. fst (Authenticate v E w2) = Inr q \<longrightarrow> pr_session q \<noteq> uuid_text E (ss_id x))))"
proof -
  from run obtain u s where us: "scan_uuid E (pr_user p) = Some u" "scan_uuid E (pr_session p) = Some s" "logged_out u s all (db w) (db w1)"
    by (rule Logout_Inr)
  from logged_out_ok [OF ok us(3)] have ok1: "auth_ok (db w1)" ..
  from us(3) obtain t ev where "db w1 = (db w)\<lparr>sessions := update_where (\<lambda>r. ss_user r = u \<and> (all \<or> ss_id r = s) \<and> ss_revoked r = None)
      (\<lambda>r. r\<lparr>ss_revoked := Some t\<rparr>) (sessions (db w)), audits := audits (db w) @ [(u, ev)]\<rparr>" unfolding logged_out_def by blast
  then have after: "sessions (db w1) = update_where (\<lambda>r. ss_user r = u \<and> (all \<or> ss_id r = s) \<and> ss_revoked r = None)
      (\<lambda>r. r\<lparr>ss_revoked := Some t\<rparr>) (sessions (db w))" by simp
  have ids1: "map ss_id (sessions (db w1)) = map ss_id (sessions (db w))" unfolding after by (rule map_update_where_keep) simp
  have dead: "dead (ss_id x) (db w1) \<longleftrightarrow> ss_revoked x \<noteq> None \<or> ss_user x = u \<and> (all \<or> ss_id x = s)"
    if x: "x \<in> set (sessions (db w))" for x
  proof -
    let ?f = "\<lambda>r. if ss_user r = u \<and> (all \<or> ss_id r = s) \<and> ss_revoked r = None then r\<lparr>ss_revoked := Some t\<rparr> else r"
    have "dead (ss_id x) (db w1) \<longleftrightarrow> (\<exists>y \<in> set (sessions (db w)). ss_id (?f y) = ss_id x \<and> ss_revoked (?f y) \<noteq> None)"
      unfolding dead_def after set_update_where by blast
    also have "\<dots> \<longleftrightarrow> (\<exists>y \<in> set (sessions (db w)). ss_id y = ss_id x \<and> ss_revoked (?f y) \<noteq> None)"
      by (intro bex_cong refl) simp
    also have "\<dots> \<longleftrightarrow> ss_revoked (?f x) \<noteq> None" using x distinct_key [OF auth_okD(3) [OF ok] _ x] by blast
    also have "\<dots> \<longleftrightarrow> ss_revoked x \<noteq> None \<or> ss_user x = u \<and> (all \<or> ss_id x = s)" by (cases "ss_revoked x") auto
    finally show ?thesis .
  qed
  have "pr_session q \<noteq> uuid_text E (ss_id x)"
    if "x \<in> set (sessions (db w))" "ss_user x = u \<and> (all \<or> ss_id x = s)" "fst (Authenticate v E w2) = Inr q" for x v q
  proof -
    from dead [OF that(1)] that(2) have "dead (ss_id x) (db w1)" by blast
    with auth_steps_ok [OF steps ok1] have "auth_ok (db w2)" "dead (ss_id x) (db w2)" using dead_later by auto
    from dead_authenticates_nothing [OF this ids run_eq [OF that(3)]] show ?thesis .
  qed
  with us(1,2) ids1 dead show ?thesis by blast
qed

definition demo_principal :: principal where
  "demo_principal = \<lparr>pr_user = demo_text 1, pr_session = demo_text 2, pr_role = ''CUSTOMER''\<rparr>"

definition demo_logout :: "(gerr + unit) \<times> auth_db world" where
  "demo_logout = Logout demo_principal True demo_auth (demo_world demo_accounts)"

lemma demo_logout_facts: "fst demo_logout = Inr ()"
  by code_simp

theorem logout_ends_witness:
  "fst (Authenticate (demo_token (CHR ''Q'')) demo_auth (snd demo_logout)) \<noteq> Inr demo_principal"
proof -
  let ?x = "\<lparr>ss_id = 2, ss_user = 1, ss_expires = 6000 * second, ss_revoked = None\<rparr>"
  have run: "Logout demo_principal True demo_auth (demo_world demo_accounts) = (Inr (), snd demo_logout)"
    using run_eq [OF demo_logout_facts] by (simp add: demo_logout_def)
  have t: "uuid_text demo_auth = demo_text" "inj (uuid_text demo_auth)"
    using demo_text_inj by (simp_all add: demo_auth_def demo_env_def inj_def)
  have ok: "auth_ok (db (demo_world demo_accounts))" using demo_auth_ok by (simp add: demo_world_def)
  have x: "?x \<in> set (sessions (db (demo_world demo_accounts)))" by (simp add: demo_world_def demo_accounts_def)
  have "scan_uuid demo_auth (pr_user demo_principal) = Some 1" by code_simp
  then have "ss_user ?x = u" if "scan_uuid demo_auth (pr_user demo_principal) = Some u" for u using that by simp
  then have "\<forall>q v. fst (Authenticate v demo_auth (snd demo_logout)) = Inr q \<longrightarrow> pr_session q \<noteq> uuid_text demo_auth (ss_id ?x)"
    using logout_ends [OF ok t(2) run rtranclp.rtrancl_refl] x by metis
  then show ?thesis by (auto simp: t(1) demo_principal_def)
qed

text \<open>Registering does not tell whether the address is known: with valid input the result is the same
  for a new address and a taken one.  A taken one changes nothing; a new one gets one active customer
  account, under the normalized address, whose stored hash accepts the password.\<close>

theorem register_uniform:
  assumes lib: "\<And>p s. length (argon2 L p s) = 32 \<and> bytes_ok (argon2 L p s)" and rand: "rand_ok E"
    and run: "Register L in_use email0 password given family E w = (r, w')"
  shows "case r of
      Inl e \<Rightarrow> db w' = db w
    | Inr _ \<Rightarrow> \<exists>email. normalizeEmail L email0 = (email, True) \<and>
        (if ToLower email \<in> (\<lambda>a. ToLower (ac_email a)) ` set (accounts (db w)) then db w' = db w
         else \<exists>a. accounts (db w') = accounts (db w) @ [a] \<and> ac_email a = email \<and> ac_role a = CUSTOMER \<and> ac_status a = ACTIVE \<and>
           verifyPassword L (ac_hash a) password \<and> sessions (db w') = sessions (db w) \<and> credentials (db w') = credentials (db w))"
proof (cases r)
  case (Inl e)
  with run Register_failed show ?thesis by fastforce
next
  case (Inr x)
  with run have "Register L in_use email0 password given family E w = (Inr x, w')" by simp
  then obtain email where e: "normalizeEmail L email0 = (email, True)"
    "db w' = db w \<and> ToLower email \<in> (\<lambda>a. ToLower (ac_email a)) ` set (accounts (db w)) \<or> registered E L email password (db w) (db w')"
    by (rule Register_Inr)
  have "\<exists>a. accounts (db w') = accounts (db w) @ [a] \<and> ac_email a = email \<and> ac_role a = CUSTOMER \<and> ac_status a = ACTIVE \<and>
      verifyPassword L (ac_hash a) password \<and> sessions (db w') = sessions (db w) \<and> credentials (db w') = credentials (db w)"
    if new: "ToLower email \<notin> (\<lambda>a. ToLower (ac_email a)) ` set (accounts (db w))"
  proof -
    from e(2) new obtain u salt n given family where d: "rand_read E n 16 = Inr salt"
      "db w' = (db w)\<lparr>accounts := accounts (db w) @ [\<lparr>ac_user = u, ac_email = email, ac_hash = hash_text L password salt, ac_first = given,
         ac_last = family, ac_role = CUSTOMER, ac_status = ACTIVE\<rparr>], audits := audits (db w) @ [(u, ''REGISTER'')]\<rparr>"
      unfolding registered_def by blast
    from rand_okD [OF rand d(1)] lib have "parse_hash (hash_text L password salt) = Some (salt, argon2 L password salt)"
      by (intro parse_hash_text) auto
    then show ?thesis by (simp add: d(2) verifyPassword_def)
  qed
  with e Inr show ?thesis unfolding registered_def by auto
qed

definition demo_register :: "(gerr + unit) \<times> auth_db world" where
  "demo_register = Register demo_lib 0 ''new@b.eg'' ''correct horse'' ''A'' ''B'' demo_auth (demo_world demo_accounts)"

lemma demo_register_facts: "case demo_register of (r, w) \<Rightarrow> r = Inr () \<and> length (accounts (db w)) = 2"
  by code_simp

theorem register_uniform_witness:
  "\<exists>a. accounts (db (snd demo_register)) = accounts demo_accounts @ [a] \<and> verifyPassword demo_lib (ac_hash a) ''correct horse''"
proof -
  have run: "Register demo_lib 0 ''new@b.eg'' ''correct horse'' ''A'' ''B'' demo_auth (demo_world demo_accounts) = (Inr (), snd demo_register)"
    using demo_register_facts run_eq [of demo_register "Inr ()"] by (simp add: prod.case_eq_if demo_register_def)
  have len: "length (accounts (db (snd demo_register))) = 2" using demo_register_facts by (simp add: prod.case_eq_if)
  have old: "db (demo_world demo_accounts) = demo_accounts" "length (accounts demo_accounts) = 1"
    by (simp_all add: demo_world_def demo_accounts_def)
  with len have "db (snd demo_register) \<noteq> demo_accounts" by auto
  then show ?thesis
    using register_uniform [OF demo_lib_ok demo_rand_ok run] unfolding old by (auto split: if_splits)
qed

text \<open>C36. Whatever the clients do, the accounts stay well formed: over any run of registrations, logins,
  token uses, renewals and logouts, failing ones included, emails and token hashes stay unique, every
  session has its user, every token its session and an end not after it, a session has at most one
  unused refresh token, and nothing that was revoked or used becomes valid again.\<close>

theorem auth_runs_keep:
  assumes "(auth_step E)\<^sup>*\<^sup>* w w'" and "auth_ok (db w)"
  shows "auth_ok (db w') \<and> later (db w) (db w')"
  using auth_steps_ok [OF assms] .

theorem auth_runs_keep_witness:
  "auth_ok (db (snd (demo_refresh (CHR ''Y''))))"
proof -
  have "auth_step demo_auth (demo_world demo_accounts) (snd (demo_refresh (CHR ''Y'')))"
    unfolding demo_refresh_def by (rule auth_step.refresh)
  then have "(auth_step demo_auth)\<^sup>*\<^sup>* (demo_world demo_accounts) (snd (demo_refresh (CHR ''Y'')))" by (rule r_into_rtranclp)
  then show ?thesis using auth_runs_keep demo_auth_ok by (fastforce simp: demo_world_def)
qed

end
