(* ===== verification/Flight.thy ===== *)
theory Flight
  imports Schema Calendar Bookings
begin

text \<open>
  \<^verbatim>\<open>internal/flight/store.go\<close>: the search for flights, a flight, its fares and its seat map.  These
  operations only read.  The tables that no part of the program writes after seeding (airports, the
  flights behind the flight instances, arrival times, fare codes) are the \<open>catalogue\<close>, an argument.
\<close>

subsection \<open>The catalogue\<close>

record airport_row =
  ap_id :: uuid
  ap_iata :: string

record service_row =
  sv_id :: uuid
  sv_airline :: string
  sv_number :: string
  sv_origin :: uuid
  sv_destination :: uuid

text \<open>The columns \<^verbatim>\<open>flight_id\<close> and \<^verbatim>\<open>scheduled_arrival_at\<close> of \<^verbatim>\<open>flight_instances\<close>, and
  \<^verbatim>\<open>fare_code\<close> of \<^verbatim>\<open>fare_offers\<close>, by the id of the row.\<close>

record catalogue =
  airports :: "airport_row list"
  services :: "service_row list"
  service_of :: "uuid \<Rightarrow> uuid"
  arrival_of :: "uuid \<Rightarrow> ts"
  fare_code_of :: "uuid \<Rightarrow> string"

primrec flight_text :: "flight_status \<Rightarrow> string" where
  "flight_text SCHEDULED = ''SCHEDULED''"
| "flight_text BOARDING = ''BOARDING''"
| "flight_text DEPARTED = ''DEPARTED''"
| "flight_text ARRIVED = ''ARRIVED''"
| "flight_text DELAYED = ''DELAYED''"
| "flight_text FLIGHT_CANCELLED = ''CANCELLED''"

subsection \<open>Results\<close>

record flight_info =
  fl_id :: string
  fl_airline :: string
  fl_number :: string
  fl_origin :: string
  fl_destination :: string
  fl_status :: string
  fl_departure :: ts
  fl_arrival :: ts

record seat_info =
  st_id :: string
  st_number :: string
  st_cabin :: string
  st_availability :: string

record fare_info =
  fr_id :: string
  fr_code :: string
  fr_cabin :: string
  fr_currency :: string
  fr_price :: int
  fr_taxes :: int
  fr_refundable :: bool

record search =
  Origin :: string
  Destination :: string
  Date :: string
  AfterID :: string
  AfterDeparture :: ts
  Limit :: int

text \<open>\<^verbatim>\<open>time.Time{}\<close> is the first instant of the year 1.\<close>

definition zero_time :: ts where
  "zero_time = - 62135596800 * second"

definition nil_uuid :: string where
  "nil_uuid = ''00000000-0000-0000-0000-000000000000''"

subsection \<open>Flights\<close>

text \<open>The joins of \<open>Search\<close> and \<open>Get\<close>: an instance with its service and the codes of its airports.\<close>

type_synonym listed = "flight_instance \<times> service_row \<times> string \<times> string"

definition joined :: "catalogue \<Rightarrow> database \<Rightarrow> listed list" where
  "joined C d =
     [(fi, f, ap_iata o1, ap_iata d1). fi \<leftarrow> flights d, f \<leftarrow> services C, o1 \<leftarrow> airports C, d1 \<leftarrow> airports C,
       sv_id f = service_of C (fi_id fi) \<and> ap_id o1 = sv_origin f \<and> ap_id d1 = sv_destination f]"

definition flight_of :: "env \<Rightarrow> catalogue \<Rightarrow> listed \<Rightarrow> flight_info" where
  "flight_of E C = (\<lambda>(fi, f, og, dn). \<lparr>fl_id = uuid_text E (fi_id fi), fl_airline = sv_airline f, fl_number = sv_number f,
     fl_origin = og, fl_destination = dn, fl_status = flight_text (fi_status fi),
     fl_departure = fi_departure fi, fl_arrival = arrival_of C (fi_id fi)\<rparr>)"

definition open_status :: "flight_status \<Rightarrow> bool" where
  "open_status st \<longleftrightarrow> st = SCHEDULED \<or> st = DELAYED"

definition departs_before :: "listed \<Rightarrow> listed \<Rightarrow> bool" where
  "departs_before x y \<longleftrightarrow> fi_departure (fst x) < fi_departure (fst y) \<or>
     (fi_departure (fst x) = fi_departure (fst y) \<and> fi_id (fst x) < fi_id (fst y))"

definition search_rows :: "catalogue \<Rightarrow> string \<Rightarrow> string \<Rightarrow> ts \<Rightarrow> ts \<Rightarrow> ts \<Rightarrow> uuid \<Rightarrow> nat \<Rightarrow> ts \<Rightarrow> database \<Rightarrow> listed list" where
  "search_rows C og dn from until aft after_id limit t d =
     take limit (sort_by departs_before
       (filter (\<lambda>x. fst (snd (snd x)) = og \<and> snd (snd (snd x)) = dn \<and> fi_departure (fst x) \<ge> from \<and> fi_departure (fst x) < until \<and>
          open_status (fi_status (fst x)) \<and> fi_departure (fst x) > t \<and>
          (fi_departure (fst x) > aft \<or> fi_departure (fst x) = aft \<and> fi_id (fst x) > after_id)) (joined C d)))"

definition search_invalid :: "env \<Rightarrow> search \<Rightarrow> bool" where
  "search_invalid E q \<longleftrightarrow> ParseDate (Date q) = None \<or> \<not> validate_Airport (Origin q) \<or> \<not> validate_Airport (Destination q) \<or>
     Origin q = Destination q \<or> Limit q < 1 \<or> Limit q > 100 \<or>
     (AfterID q \<noteq> [] \<and> (\<not> validate_UUID E (AfterID q) \<or> AfterDeparture q = zero_time))"

definition flight_Search :: "catalogue \<Rightarrow> search \<Rightarrow> flight_info list dbact" where
  "flight_Search C q =
     andthen (reading (\<lambda>E. search_invalid E q)) (\<lambda>invalid.
     if invalid then fail FlightErrInvalid else
     let date = (case ParseDate (Date q) of None \<Rightarrow> 0 | Some x \<Rightarrow> x);
         aft = (if AfterID q = [] then nil_uuid else AfterID q) in
     andthen (reading (\<lambda>E. uuid_of E aft)) (\<lambda>after_id.
     andthen (select (\<lambda>t d. search_rows C (Origin q) (Destination q) date (AddDate 0 0 1 date) (AfterDeparture q) after_id (nat (Limit q)) t d)) (\<lambda>rows.
     reading (\<lambda>E. map (flight_of E C) rows))))"

definition flight_Get :: "catalogue \<Rightarrow> string \<Rightarrow> flight_info dbact" where
  "flight_Get C i =
     andthen (reading (\<lambda>E. (validate_UUID E i, uuid_of E i))) (\<lambda>(valid, u).
     if \<not> valid then fail FlightErrInvalid else
     andthen (select (\<lambda>t d. find_row (\<lambda>x. fi_id (fst x) = u) (joined C d))) (\<lambda>row.
     case row of None \<Rightarrow> fail FlightErrNotFound | Some x \<Rightarrow> reading (\<lambda>E. flight_of E C x)))"

subsection \<open>Fares\<close>

definition fare_rows :: "uuid \<Rightarrow> ts \<Rightarrow> database \<Rightarrow> fare_offer list" where
  "fare_rows f t d =
     take 100 (sort_by (\<lambda>x y. fo_id x < fo_id y)
       [fo. fo \<leftarrow> fares d, fi \<leftarrow> flights d, fi_id fi = fo_flight fo \<and> fo_flight fo = f \<and> fo_active fo \<and> fo_from fo \<le> t \<and>
         (case fo_until fo of None \<Rightarrow> True | Some e \<Rightarrow> e > t) \<and> open_status (fi_status fi) \<and> fi_departure fi > t])"

definition fare_view :: "env \<Rightarrow> catalogue \<Rightarrow> fare_offer \<Rightarrow> fare_info" where
  "fare_view E C fo = \<lparr>fr_id = uuid_text E (fo_id fo), fr_code = fare_code_of C (fo_id fo), fr_cabin = cabin_text (fo_cabin fo),
     fr_currency = fo_currency fo, fr_price = fo_price fo, fr_taxes = fo_taxes fo, fr_refundable = fo_refundable fo\<rparr>"

definition flight_Fares :: "catalogue \<Rightarrow> string \<Rightarrow> fare_info list dbact" where
  "flight_Fares C i =
     andthen (reading (\<lambda>E. (validate_UUID E i, uuid_of E i))) (\<lambda>(valid, f).
     if \<not> valid then fail FlightErrInvalid else
     andthen (select (\<lambda>t d. fare_rows f t d)) (\<lambda>rows.
     reading (\<lambda>E. map (fare_view E C) rows)))"

subsection \<open>The seat map\<close>

text \<open>The CASE of the query: what the map shows for a seat at time \<open>t\<close>.\<close>

definition seat_free :: "ts \<Rightarrow> database \<Rightarrow> seat_row \<Rightarrow> flight_instance \<Rightarrow> bool" where
  "seat_free t d fs fi \<longleftrightarrow> open_status (fi_status fi) \<and> fi_departure fi > t \<and>
     ((fs_state fs = AVAILABLE \<and> \<not> list_ex (\<lambda>a. sa_seat a = fs_id fs \<and> active a) (assignments d)) \<or>
      (fs_state fs = SEAT_HELD \<and> (case fs_hold fs of None \<Rightarrow> False | Some h \<Rightarrow> h \<le> t) \<and>
       list_ex (\<lambda>a. sa_seat a = fs_id fs \<and> sa_status a = A_HELD \<and> fs_booking fs = Some (sa_booking a) \<and>
          sa_hold a \<noteq> None \<and> sa_hold a = fs_hold fs) (assignments d)))"

definition seat_rows :: "uuid \<Rightarrow> uuid \<Rightarrow> nat \<Rightarrow> ts \<Rightarrow> database \<Rightarrow> (seat_row \<times> aircraft_seat \<times> string) list" where
  "seat_rows f after_id limit t d =
     take limit (sort_by (\<lambda>x y. fs_id (fst x) < fs_id (fst y))
       [(fs, a, if seat_free t d fs fi then ''AVAILABLE'' else ''UNAVAILABLE''). fs \<leftarrow> seats d, a \<leftarrow> aircraft_seats d, fi \<leftarrow> flights d,
         ast_id a = fs_aircraft_seat fs \<and> fi_id fi = fs_flight fs \<and> fs_flight fs = f \<and> fs_id fs > after_id])"

definition seat_info_of :: "env \<Rightarrow> seat_row \<times> aircraft_seat \<times> string \<Rightarrow> seat_info" where
  "seat_info_of E = (\<lambda>(fs, a, availability). \<lparr>st_id = uuid_text E (fs_id fs), st_number = ast_number a,
     st_cabin = cabin_text (ast_cabin a), st_availability = availability\<rparr>)"

definition flight_Seats :: "catalogue \<Rightarrow> string \<Rightarrow> string \<Rightarrow> int \<Rightarrow> seat_info list dbact" where
  "flight_Seats C i aft limit =
     andthen (reading (\<lambda>E. \<not> validate_UUID E i \<or> limit < 1 \<or> limit > 100 \<or> (aft \<noteq> [] \<and> \<not> validate_UUID E aft))) (\<lambda>invalid.
     if invalid then fail FlightErrInvalid else
     andthen (flight_Get C i) (\<lambda>_.
     let cursor = (if aft = [] then nil_uuid else aft) in
     andthen (reading (\<lambda>E. (uuid_of E i, uuid_of E cursor))) (\<lambda>(f, after_id).
     andthen (select (\<lambda>t d. seat_rows f after_id (nat limit) t d)) (\<lambda>rows.
     reading (\<lambda>E. map (seat_info_of E) rows)))))"

end
