(* ===== verification/FlightProps.thy ===== *)
theory FlightProps
  imports Flight HoldSafety Paging Demo
begin

text \<open>The properties of the flight search and of the seat map.\<close>

subsection \<open>Searching\<close>

interpretation departures: keyset departs_before "\<lambda>x. fi_id (fst x)"
  by unfold_locales (auto simp: departs_before_def)

text \<open>The catalogue has each service and each airport once, and the instances are distinct.\<close>

definition catalogue_ok :: "catalogue \<Rightarrow> database \<Rightarrow> bool" where
  "catalogue_ok C d \<longleftrightarrow> distinct (map sv_id (services C)) \<and> distinct (map ap_id (airports C)) \<and> distinct (map fi_id (flights d))"

definition joined_one :: "catalogue \<Rightarrow> flight_instance \<Rightarrow> listed list" where
  "joined_one C fi = [(fi, f, ap_iata o1, ap_iata d1). f \<leftarrow> services C, o1 \<leftarrow> airports C, d1 \<leftarrow> airports C,
       sv_id f = service_of C (fi_id fi) \<and> ap_id o1 = sv_origin f \<and> ap_id d1 = sv_destination f]"

lemma joined_one: "joined C d = concat (map (joined_one C) (flights d))"
  by (simp add: joined_def joined_one_def [abs_def])

lemma length_one_key:
  assumes "distinct (map k xs)" and "\<And>x. k x \<noteq> v \<Longrightarrow> g x = []" and "\<And>x. length (g x) \<le> 1"
  shows "length (concat (map g xs)) \<le> 1"
proof (cases "v \<in> k ` set xs")
  case True
  then obtain x where "x \<in> set xs" "k x = v" by blast
  then obtain ys zs where xs: "xs = ys @ x # zs" by (metis split_list)
  with assms(1) \<open>k x = v\<close> have "k y \<noteq> v" if "y \<in> set ys \<union> set zs" for y
    using that by (auto simp: image_iff)
  with assms(2) have "concat (map g ys) = []" "concat (map g zs) = []" by (simp_all only: concat_eq_Nil_conv set_map) blast+
  with assms(3) [of x] show ?thesis by (simp only: xs map_append list.map concat_append concat.simps append_Nil append_Nil2)
next
  case False
  then have "k x \<noteq> v" if "x \<in> set xs" for x using that by (auto simp: image_iff)
  with assms(2) have "concat (map g xs) = []" by (simp only: concat_eq_Nil_conv set_map) blast
  then show ?thesis by (simp only: list.size)
qed

lemma length_joined_one:
  assumes "catalogue_ok C d"
  shows "length (joined_one C fi) \<le> 1"
proof -
  have ap: "distinct (map ap_id (airports C))" and sv: "distinct (map sv_id (services C))"
    using assms by (simp_all add: catalogue_ok_def)
  show ?thesis
    unfolding joined_one_def
  proof (rule length_one_key [OF sv, of "service_of C (fi_id fi)"], goal_cases)
    case (2 f)
    show ?case
    proof (rule length_one_key [OF ap, of "sv_origin f"], goal_cases)
      case (2 o1)
      show ?case by (rule length_one_key [OF ap, of "sv_destination f"]) auto
    qed simp
  qed simp
qed

lemma joined_distinct:
  assumes "catalogue_ok C d"
  shows "distinct (map (\<lambda>x. fi_id (fst x)) (joined C d))"
  unfolding joined_one
  by (rule distinct_join [where k = fi_id]) (use assms length_joined_one in \<open>auto simp: catalogue_ok_def joined_one_def\<close>)


definition searched :: "catalogue \<Rightarrow> search \<Rightarrow> ts \<Rightarrow> listed \<Rightarrow> bool" where
  "searched C q t x \<longleftrightarrow> fst (snd (snd x)) = Origin q \<and> snd (snd (snd x)) = Destination q \<and>
     (\<exists>date. ParseDate (Date q) = Some date \<and> fi_departure (fst x) \<ge> date \<and> fi_departure (fst x) < AddDate 0 0 1 date) \<and>
     open_status (fi_status (fst x)) \<and> fi_departure (fst x) > t"

definition departing :: "catalogue \<Rightarrow> search \<Rightarrow> ts \<Rightarrow> database \<Rightarrow> listed list" where
  "departing C q t d = sort_by departs_before (filter (searched C q t) (joined C d))"

lemma flight_Search_Inr:
  assumes "flight_Search C q E w = (Inr page, w')"
  shows "page = map (flight_of E C) (take (nat (Limit q)) (sort_by departs_before (filter (\<lambda>x. fi_departure (fst x) > AfterDeparture q \<or>
      fi_departure (fst x) = AfterDeparture q \<and> fi_id (fst x) > uuid_of E (if AfterID q = [] then nil_uuid else AfterID q))
      (filter (searched C q (clock E (pc w))) (joined C (db w))))))"
    and "1 \<le> Limit q"
proof -
  from assms obtain date where date: "ParseDate (Date q) = Some date" and l: "1 \<le> Limit q"
    and page: "page = map (flight_of E C) (search_rows C (Origin q) (Destination q) date (AddDate 0 0 1 date) (AfterDeparture q)
      (uuid_of E (if AfterID q = [] then nil_uuid else AfterID q)) (nat (Limit q)) (clock E (pc w)) (db w))"
    by (auto simp: flight_Search_def search_invalid_def andthen_Inr reading_Inr run_simps Let_def split: if_splits)
  show "1 \<le> Limit q" by (rule l)
  show "page = map (flight_of E C) (take (nat (Limit q)) (sort_by departs_before (filter (\<lambda>x. fi_departure (fst x) > AfterDeparture q \<or>
      fi_departure (fst x) = AfterDeparture q \<and> fi_id (fst x) > uuid_of E (if AfterID q = [] then nil_uuid else AfterID q))
      (filter (searched C q (clock E (pc w))) (joined C (db w))))))"
    unfolding page search_rows_def filter_filter
    by (intro arg_cong [where f = "map (flight_of E C)"] arg_cong [where f = "take (nat (Limit q))"] arg_cong [where f = "sort_by departs_before"] filter_cong)
      (auto simp: searched_def date)
qed

lemma search_first:
  assumes "flight_Search C (q\<lparr>AfterID := [], AfterDeparture := zero_time, Limit := n\<rparr>) E w = (Inr page, w')" and "zero_time \<le> clock E (pc w)"
  shows "page = map (flight_of E C) (take (nat n) (departing C q (clock E (pc w)) (db w)))" and "1 \<le> n"
proof -
  have same: "searched C (q\<lparr>AfterID := [], AfterDeparture := zero_time, Limit := n\<rparr>) t = searched C q t" for t
    by (rule ext) (simp add: searched_def)
  have late: "filter (\<lambda>x. searched C q (clock E (pc w)) x \<and> (fi_departure (fst x) > zero_time \<or> P x)) xs =
      filter (searched C q (clock E (pc w))) xs" for P xs
    using assms(2) by (intro filter_cong refl) (auto simp: searched_def)
  show "page = map (flight_of E C) (take (nat n) (departing C q (clock E (pc w)) (db w)))"
    using flight_Search_Inr(1) [OF assms(1)] by (simp add: same late departing_def)
  show "1 \<le> n" using flight_Search_Inr(2) [OF assms(1)] by simp
qed

text \<open>Paging through a search neither skips nor repeats a flight: a page followed by the page after its
  last flight is the longer page asked for at the time of the first, in order of departure, as long as
  that last flight has not departed when the second page is read.\<close>

theorem search_pages_follow:
  assumes ids: "\<forall>f \<in> set (flights (db w)). validate_UUID E (uuid_text E (fi_id f)) \<and> uuid_of E (uuid_text E (fi_id f)) = fi_id f"
    and cat: "catalogue_ok C (db w)" and era: "zero_time \<le> clock E (pc w)"
    and first: "flight_Search C (q\<lparr>AfterID := [], AfterDeparture := zero_time, Limit := n\<rparr>) E w = (Inr page, w1)" and "page \<noteq> []"
    and rest: "flight_Search C (q\<lparr>AfterID := fl_id (last page), AfterDeparture := fl_departure (last page), Limit := m\<rparr>) E w2 = (Inr following, w3)"
    and same: "db w2 = db w" and later: "clock E (pc w) \<le> clock E (pc w2)" "clock E (pc w2) < fl_departure (last page)"
    and whole: "flight_Search C (q\<lparr>AfterID := [], AfterDeparture := zero_time, Limit := n + m\<rparr>) E w = (Inr all, w5)"
  shows "all = page @ following"
proof -
  let ?t = "clock E (pc w)" and ?t2 = "clock E (pc w2)"
  let ?rows = "filter (searched C q ?t) (joined C (db w))"
  let ?h = "departing C q ?t (db w)"
  note first = search_first [OF first era]
  define c where "c = last (take (nat n) ?h)"
  from assms(5) first have ne: "take (nat n) ?h \<noteq> []" by auto
  then have split: "?h = butlast (take (nat n) ?h) @ c # drop (nat n) ?h"
    unfolding c_def using append_butlast_last_id [OF ne] append_take_drop_id [of "nat n" ?h]
    by (metis append.assoc append_Cons append_Nil)
  have last: "last page = flight_of E C c" using ne by (simp add: first(1) c_def last_map)
  then have cur: "fl_id (last page) = uuid_text E (fi_id (fst c))" "fl_departure (last page) = fi_departure (fst c)"
    by (simp_all add: flight_of_def split: prod.splits)
  have "c \<in> set ?h" using last_in_set [OF ne] by (auto simp: c_def dest: in_set_takeD)
  then have c: "c \<in> set (joined C (db w))" "searched C q ?t c" by (simp_all add: departing_def)
  from c(1) have "fst c \<in> set (flights (db w))" by (auto simp: joined_def split: if_splits)
  with ids have id: "validate_UUID E (uuid_text E (fi_id (fst c)))" "uuid_of E (uuid_text E (fi_id (fst c))) = fi_id (fst c)" by auto
  have nonempty: "uuid_text E (fi_id (fst c)) \<noteq> []" using id(1) by (auto simp: validate_UUID_def dashed_def)
  have rows2: "filter (\<lambda>x. fi_departure (fst x) > fi_departure (fst c) \<or> fi_departure (fst x) = fi_departure (fst c) \<and> fi_id (fst x) > fi_id (fst c))
      (filter (searched C q ?t2) (joined C (db w))) = filter (departs_before c) ?rows"
    unfolding filter_filter using later cur(2) by (intro filter_cong refl) (auto simp: searched_def departs_before_def)
  have same': "searched C (q\<lparr>AfterID := i, AfterDeparture := a, Limit := l\<rparr>) = searched C q" for i a l
    by (intro ext) (simp add: searched_def)
  have "following = map (flight_of E C) (take (nat m) (sort_by departs_before (filter (departs_before c) ?rows)))"
    using flight_Search_Inr(1) [OF rest] rows2 by (simp add: same same' cur id nonempty)
  also have "sort_by departs_before (filter (departs_before c) ?rows) = drop (nat n) ?h"
    using departures.next_page [OF distinct_map_filter [OF joined_distinct [OF cat]] split [unfolded departing_def]]
    unfolding departing_def .
  finally have rest': "following = map (flight_of E C) (take (nat m) (drop (nat n) ?h))" .
  have "1 \<le> m" using flight_Search_Inr(2) [OF rest] by simp
  with first(2) have "nat (n + m) = nat n + nat m" by (simp add: nat_add_distrib)
  with search_first(1) [OF whole era] show ?thesis by (simp add: take_add first(1) rest')
qed

definition demo_catalogue :: catalogue where
  "demo_catalogue = \<lparr>airports = [\<lparr>ap_id = 61, ap_iata = ''CAI''\<rparr>, \<lparr>ap_id = 62, ap_iata = ''DXB''\<rparr>],
     services = [\<lparr>sv_id = 63, sv_airline = ''DM'', sv_number = ''101'', sv_origin = 61, sv_destination = 62\<rparr>],
     service_of = (\<lambda>_. 63), arrival_of = (\<lambda>_. 110000 * second), fare_code_of = (\<lambda>_. ''ECONOMY'')\<rparr>"

definition demo_flights :: "database world" where
  "demo_flights = demo_world (demo_db\<lparr>flights :=
     [\<lparr>fi_id = 44, fi_aircraft = 8, fi_departure = 100000 * second, fi_status = DELAYED\<rparr>,
      \<lparr>fi_id = 4, fi_aircraft = 8, fi_departure = 90000 * second, fi_status = SCHEDULED\<rparr>]\<rparr>)"

definition demo_query :: search where
  "demo_query = \<lparr>Origin = ''CAI'', Destination = ''DXB'', Date = ''1970-01-02'', AfterID = [], AfterDeparture = zero_time, Limit = 1\<rparr>"

definition demo_next :: search where
  "demo_next = demo_query\<lparr>AfterID := demo_text 4, AfterDeparture := 90000 * second, Limit := 1\<rparr>"

definition demo_search :: "search \<Rightarrow> (gerr + flight_info list) \<times> database world" where
  "demo_search q = flight_Search demo_catalogue q demo_env demo_flights"

lemma demo_search_facts:
  "case fst (demo_search demo_query) of Inr v \<Rightarrow> map fl_id v = [demo_text 4] \<and> map fl_departure v = [90000 * second] | _ \<Rightarrow> False"
  "case fst (demo_search demo_next) of Inr v \<Rightarrow> map fl_id v = [demo_text 44] | _ \<Rightarrow> False"
  "case fst (demo_search (demo_query\<lparr>Limit := 2\<rparr>)) of Inr v \<Rightarrow> True | _ \<Rightarrow> False"
  by code_simp+

theorem search_pages_follow_witness:
  "\<exists>all. fst (demo_search (demo_query\<lparr>Limit := 2\<rparr>)) = Inr all \<and> map fl_id all = [demo_text 4, demo_text 44]"
proof -
  obtain page where page: "fst (demo_search demo_query) = Inr page" "map fl_id page = [demo_text 4]" "map fl_departure page = [90000 * second]"
    using demo_search_facts(1) by (auto split: sum.splits)
  obtain following where rest: "fst (demo_search demo_next) = Inr following" "map fl_id following = [demo_text 44]"
    using demo_search_facts(2) by (auto split: sum.splits)
  obtain all where whole: "fst (demo_search (demo_query\<lparr>Limit := 2\<rparr>)) = Inr all" using demo_search_facts(3) by (auto split: sum.splits)
  have last: "page \<noteq> []" "fl_id (last page) = demo_text 4" "fl_departure (last page) = 90000 * second" using page(2,3) by (cases page; simp)+
  have q: "demo_query\<lparr>AfterID := [], AfterDeparture := zero_time, Limit := 1\<rparr> = demo_query"
    "demo_query\<lparr>AfterID := [], AfterDeparture := zero_time, Limit := 1 + 1\<rparr> = demo_query\<lparr>Limit := 2\<rparr>"
    "demo_query\<lparr>AfterID := fl_id (last page), AfterDeparture := fl_departure (last page), Limit := 1\<rparr> = demo_next"
    by (simp_all add: demo_query_def demo_next_def last)
  have "list_all (\<lambda>f. validate_UUID demo_env (uuid_text demo_env (fi_id f)) \<and> uuid_of demo_env (uuid_text demo_env (fi_id f)) = fi_id f)
      (flights (db demo_flights))"
    by code_simp
  then have ids: "\<forall>f \<in> set (flights (db demo_flights)). validate_UUID demo_env (uuid_text demo_env (fi_id f)) \<and>
      uuid_of demo_env (uuid_text demo_env (fi_id f)) = fi_id f" by (simp add: list_all_iff)
  have cat: "catalogue_ok demo_catalogue (db demo_flights)"
    by (simp add: catalogue_ok_def demo_catalogue_def demo_flights_def demo_world_def)
  have clocks: "zero_time \<le> clock demo_env n" "clock demo_env n < 90000 * second" for n
    by (simp_all add: demo_env_def zero_time_def second_def min_def)
  have "all = page @ following"
    using search_pages_follow [OF ids cat clocks(1), where q = demo_query and n = 1 and m = 1 and page = page and following = following and all = all
      and ?w2.0 = demo_flights] run_eq [OF page(1)] run_eq [OF rest(1)] run_eq [OF whole]
      last clocks(2) unfolding q demo_search_def by simp
  then have "map fl_id all = [demo_text 4, demo_text 44]" by (simp only: map_append page(2) rest(2) append.simps)
  with whole show ?thesis by (intro exI conjI)
qed

subsection \<open>The seat map\<close>

lemma seat_free_iff:
  assumes "inventory_ok d" and "s \<in> set (seats d)"
  shows "seat_free t d s fi \<longleftrightarrow> open_status (fi_status fi) \<and> fi_departure fi > t \<and>
    (fs_state s = AVAILABLE \<or> fs_state s = SEAT_HELD \<and> (\<exists>h. fs_hold s = Some h \<and> h \<le> t))"
proof -
  have ok: "active_unique (assignments d)" "seat_ok (assignments d) s"
    using assms by (auto simp: inventory_ok_def list_all_iff)
  show ?thesis
  proof (cases "taken s")
    case True
    with ok seat_ok_taken obtain a where "a \<in> set (assignments d)" "active a" "sa_seat a = fs_id s" "seat_matches s a" by blast
    then show ?thesis using True
      by (auto simp: seat_free_def taken_def seat_matches_def list_ex_iff split: option.splits)
  next
    case False
    with ok(2) have "\<forall>a \<in> set (assignments d). active a \<longrightarrow> sa_seat a \<noteq> fs_id s" by (simp add: seat_ok_free)
    then have "\<not> list_ex (\<lambda>a. sa_seat a = fs_id s \<and> active a) (assignments d)" by (auto simp: list_ex_iff)
    with False show ?thesis by (auto simp: seat_free_def taken_def)
  qed
qed

lemma flight_Seats_Inr:
  assumes "flight_Seats C i aft n E w = (Inr page, w')"
  shows "\<exists>p after_id. pc w \<le> p \<and> p < pc w' \<and> page = map (seat_info_of E) (seat_rows (uuid_of E i) after_id (nat n) (clock E p) (db w))"
proof -
  from assms have "page = map (seat_info_of E) (seat_rows (uuid_of E i) (uuid_of E (if aft = [] then nil_uuid else aft)) (nat n)
      (clock E (Suc (pc w))) (db w)) \<and> w' = w\<lparr>pc := Suc (Suc (pc w))\<rparr>"
    by (auto simp: flight_Seats_def flight_Get_def andthen_Inr reading_Inr run_simps Let_def split: if_splits option.splits)
  then show ?thesis
    by (intro exI [where x = "Suc (pc w)"] exI [where x = "uuid_of E (if aft = [] then nil_uuid else aft)"]) simp
qed

text \<open>C34. The seat map tells the truth about holds: in a consistent inventory a seat is shown as AVAILABLE
  exactly if its flight is still open at the time of the query and every booking may take the seat, that
  is, nobody holds it or the hold has run out.\<close>

theorem seat_map_honest:
  assumes ok: "inventory_ok (db w)" and run: "flight_Seats C i aft n E w = (Inr page, w')" and v: "v \<in> set page"
  shows "\<exists>s \<in> set (seats (db w)). \<exists>fi \<in> set (flights (db w)). \<exists>p. pc w \<le> p \<and> p < pc w' \<and>
    st_id v = uuid_text E (fs_id s) \<and> fs_flight s = uuid_of E i \<and> fi_id fi = uuid_of E i \<and>
    (st_availability v = ''AVAILABLE'' \<longleftrightarrow>
       open_status (fi_status fi) \<and> fi_departure fi > clock E p \<and> (\<forall>params h. takeable E params (clock E p) h s))"
proof -
  from flight_Seats_Inr [OF run] obtain p after_id where p: "pc w \<le> p" "p < pc w'"
    "page = map (seat_info_of E) (seat_rows (uuid_of E i) after_id (nat n) (clock E p) (db w))" by blast
  with v obtain x where x: "x \<in> set (seat_rows (uuid_of E i) after_id (nat n) (clock E p) (db w))" "v = seat_info_of E x" by auto
  from x(1) obtain s a fi where s: "s \<in> set (seats (db w))" "fi \<in> set (flights (db w))" "fi_id fi = fs_flight s" "fs_flight s = uuid_of E i"
    "x = (s, a, if seat_free (clock E p) (db w) s fi then ''AVAILABLE'' else ''UNAVAILABLE'')"
    unfolding seat_rows_def by (auto dest!: in_set_takeD split: if_splits)
  have v': "st_id v = uuid_text E (fs_id s)" "st_availability v = ''AVAILABLE'' \<longleftrightarrow> seat_free (clock E p) (db w) s fi"
    by (simp_all add: x(2) s(5) seat_info_of_def)
  have "(\<forall>params h. takeable E params (clock E p) h s) \<longleftrightarrow>
      fs_state s = AVAILABLE \<or> fs_state s = SEAT_HELD \<and> (\<exists>h. fs_hold s = Some h \<and> h \<le> clock E p)"
  proof
    assume "\<forall>params h. takeable E params (clock E p) h s"
    then have "takeable E params (clock E p) (case fs_hold s of None \<Rightarrow> 0 | Some h \<Rightarrow> h + 1) s" for params by blast
    then show "fs_state s = AVAILABLE \<or> fs_state s = SEAT_HELD \<and> (\<exists>h. fs_hold s = Some h \<and> h \<le> clock E p)"
      by (cases "fs_hold s") (auto simp: takeable_def)
  qed (auto simp: takeable_def)
  with seat_free_iff [OF ok s(1)] v' s p(1,2) show ?thesis by metis
qed

definition demo_map :: "(gerr + seat_info list) \<times> database world" where
  "demo_map = flight_Seats demo_catalogue (demo_text 4) [] 10 demo_env (demo_world (demo_held B_HELD (2000 * second)))"

lemma demo_map_facts:
  "case fst demo_map of Inr v \<Rightarrow> map st_availability v = [''UNAVAILABLE'', ''UNAVAILABLE'', ''UNAVAILABLE''] | _ \<Rightarrow> False"
  by code_simp

theorem seat_map_honest_witness:
  "\<exists>page s. fst demo_map = Inr page \<and> s \<in> set (seats (demo_held B_HELD (2000 * second))) \<and> st_id (hd page) = demo_text (fs_id s) \<and>
    \<not> (\<exists>p. \<forall>params h. takeable demo_env params (clock demo_env p) h s)"
proof -
  obtain page where page: "fst demo_map = Inr page" "map st_availability page = [''UNAVAILABLE'', ''UNAVAILABLE'', ''UNAVAILABLE'']"
    using demo_map_facts by (auto split: sum.splits)
  have run: "flight_Seats demo_catalogue (demo_text 4) [] 10 demo_env (demo_world (demo_held B_HELD (2000 * second))) = (Inr page, snd demo_map)"
    using run_eq [OF page(1)] by (simp add: demo_map_def)
  have ok: "inventory_ok (db (demo_world (demo_held B_HELD (2000 * second))))" by code_simp
  have v: "hd page \<in> set page" "st_availability (hd page) = ''UNAVAILABLE''" using page(2) by (cases page; simp)+
  have shown: "uuid_text demo_env = demo_text" by (simp add: demo_env_def)
  have start: "db (demo_world (demo_held B_HELD (2000 * second))) = demo_held B_HELD (2000 * second)" by (simp add: demo_world_def)
  have "''UNAVAILABLE'' \<noteq> ''AVAILABLE''" by simp
  with seat_map_honest [OF ok run v(1), unfolded start shown v(2)] obtain s fi p where s: "s \<in> set (seats (demo_held B_HELD (2000 * second)))"
    "fi \<in> set (flights (demo_held B_HELD (2000 * second)))" "st_id (hd page) = demo_text (fs_id s)"
    "\<not> (open_status (fi_status fi) \<and> fi_departure fi > clock demo_env p \<and> (\<forall>params h. takeable demo_env params (clock demo_env p) h s))"
    by metis
  have fi: "open_status (fi_status fi)" "fi_departure fi = 90000 * second"
    using s(2) by (simp_all add: demo_held_def demo_db_def open_status_def)
  have clocks: "1000 * second \<le> clock demo_env n \<and> clock demo_env n < 2000 * second" for n
    by (simp add: demo_env_def second_def min_def)
  have "\<not> (\<forall>params h. takeable demo_env params (clock demo_env p) h s)"
    using s(4) fi clocks [of p] by (simp add: second_def)
  then have "\<not> takeable demo_env params (clock demo_env n) (clock demo_env n) s" for params n
    using s(1) clocks [of n] by (auto simp: takeable_def demo_held_def demo_held_seat_def demo_seat_def demo_db_def)
  then show ?thesis using page(1) s(1,3) by blast
qed

end
