(* ===== verification/Http.thy ===== *)
theory Http
  imports Auth Flight HoldSeats "HOL-Library.Word"
begin

unbundle bit_operations_syntax

text \<open>
  The plumbing of \<^verbatim>\<open>internal/httpapi\<close> (\<^verbatim>\<open>http.go\<close>, \<^verbatim>\<open>rate.go\<close> and the wrappers of
  \<^verbatim>\<open>auth.go\<close>): requests and responses, strict decoding of JSON bodies, the client address
  behind trusted proxies, the rate limiter, authentication of a request, and the outer middleware.
  A handler is a \<open>reply\<close>: it runs on the whole server and always ends with a response.  The text
  grammars of \<^verbatim>\<open>net/netip\<close>, \<^verbatim>\<open>mime\<close> and the JSON scanner are the parameters of
  \<open>http_lib\<close>.
\<close>

subsection \<open>Requests, responses, the server\<close>

record request =
  rq_id :: string
  rq_method :: string
  rq_authorization :: string
  rq_key :: string
  rq_content_type :: string
  rq_origin :: string
  rq_tls :: bool
  rq_host :: string
  rq_remote :: string
  rq_forwarded :: string
  rq_timestamp :: string
  rq_signature :: string
  rq_url :: string
  rq_path :: "string \<Rightarrow> string"
  rq_query :: "string \<Rightarrow> string"
  rq_body :: string
  rq_limit :: "nat option"

record response =
  rs_status :: nat
  rs_headers :: "(string \<times> string) list"
  rs_body :: "jval option"

record bucket =
  bk_key :: string
  bk_window :: int
  bk_requests :: int

record server =
  srv_auth :: auth_db
  srv_data :: database
  srv_buckets :: "bucket list"

type_synonym reply = "env \<Rightarrow> server world \<Rightarrow> response \<times> server world"

text \<open>An action on one of the stores, as an action on the server.\<close>

definition within :: "(server \<Rightarrow> 'd) \<Rightarrow> ('d \<Rightarrow> server \<Rightarrow> server) \<Rightarrow> ('d, 'a) act \<Rightarrow> (server, 'a) act" where
  "within get put f E w =
     (case f E \<lparr>db = get (db w), pc = pc w, draws = draws w, txn = txn w\<rparr> of
        (r, v) \<Rightarrow> (r, \<lparr>db = put (db v) (db w), pc = pc v, draws = draws v, txn = txn v\<rparr>))"

definition on_auth :: "'a auth_act \<Rightarrow> (server, 'a) act" where
  "on_auth = within srv_auth (\<lambda>d s. s\<lparr>srv_auth := d\<rparr>)"

definition on_data :: "'a dbact \<Rightarrow> (server, 'a) act" where
  "on_data = within srv_data (\<lambda>d s. s\<lparr>srv_data := d\<rparr>)"

definition on_buckets :: "(bucket list, 'a) act \<Rightarrow> (server, 'a) act" where
  "on_buckets = within srv_buckets (\<lambda>d s. s\<lparr>srv_buckets := d\<rparr>)"

definition answer :: "response \<Rightarrow> reply" where
  "answer x E w = (x, w)"

text \<open>\<^verbatim>\<open>if err != nil { failure(w, r, err); return }\<close>.\<close>

definition attempt :: "(server, 'a) act \<Rightarrow> (gerr \<Rightarrow> response) \<Rightarrow> ('a \<Rightarrow> reply) \<Rightarrow> reply" where
  "attempt f failure k E w = (case f E w of (Inl e, w') \<Rightarrow> (failure e, w') | (Inr x, w') \<Rightarrow> k x E w')"

definition with_headers :: "(string \<times> string) list \<Rightarrow> response \<Rightarrow> response" where
  "with_headers hs x = x\<lparr>rs_headers := hs @ rs_headers x\<rparr>"

definition JSON :: "nat \<Rightarrow> jval \<Rightarrow> response" where
  "JSON status v = \<lparr>rs_status = status, rs_headers = [(''Content-Type'', ''application/json'')], rs_body = Some v\<rparr>"

definition no_content :: response where
  "no_content = \<lparr>rs_status = 204, rs_headers = [], rs_body = None\<rparr>"

definition error_json :: "string \<Rightarrow> string \<Rightarrow> string \<Rightarrow> jval" where
  "error_json code message i =
     JObj [(''error'', JObj ([(''code'', JStr code), (''message'', JStr message)] @ (if i = [] then [] else [(''request_id'', JStr i)])))]"

definition Error :: "request \<Rightarrow> nat \<Rightarrow> string \<Rightarrow> string \<Rightarrow> response" where
  "Error r status code message = JSON status (error_json code message (rq_id r))"

subsection \<open>Decoding\<close>

text \<open>What the scanner of \<^verbatim>\<open>encoding/json\<close> finds at the start of a text: a value and the rest, a
  text no value starts with, or a text that ends before the value does.\<close>

datatype scanned = Doc jval string | Malformed | Unfinished

datatype ip = V4 "32 word" | V6 "128 word" string

record http_lib =
  scan_json :: "string \<Rightarrow> scanned"
  media_type :: "string \<Rightarrow> string option"
  parse_addr :: "string \<Rightarrow> ip option"
  parse_peer :: "string \<Rightarrow> ip option"
  addr_text :: "ip \<Rightarrow> string"
  parse_time :: "string \<Rightarrow> ts option"

text \<open>A field of a struct takes a JSON value or refuses its type; \<^verbatim>\<open>null\<close> leaves it alone.  Names match
  without regard to case, and a name that is no field is an error.\<close>

type_synonym 'a field = "string \<times> (jval \<Rightarrow> 'a \<Rightarrow> 'a option)"

definition set_field :: "'a field list \<Rightarrow> string \<times> jval \<Rightarrow> 'a option \<Rightarrow> 'a option" where
  "set_field fs kv acc =
     (case acc of None \<Rightarrow> None | Some x \<Rightarrow>
        (case find_row (\<lambda>f. fst f = ToLower (fst kv)) fs of None \<Rightarrow> None | Some f \<Rightarrow> snd f (snd kv) x))"

definition decode_struct :: "'a field list \<Rightarrow> 'a \<Rightarrow> jval \<Rightarrow> 'a option" where
  "decode_struct fs init v =
     (case v of JNull \<Rightarrow> Some init | JObj kvs \<Rightarrow> fold (set_field fs) kvs (Some init) | _ \<Rightarrow> None)"

definition string_field :: "string \<Rightarrow> (string \<Rightarrow> 'a \<Rightarrow> 'a) \<Rightarrow> 'a field" where
  "string_field name upd = (name, \<lambda>v x. case v of JNull \<Rightarrow> Some x | JStr s \<Rightarrow> Some (upd s x) | _ \<Rightarrow> None)"

definition int_field :: "string \<Rightarrow> (int \<Rightarrow> 'a \<Rightarrow> 'a) \<Rightarrow> 'a field" where
  "int_field name upd = (name, \<lambda>v x. case v of JNull \<Rightarrow> Some x
     | JNum i \<Rightarrow> if - (2 ^ 63) \<le> i \<and> i < 2 ^ 63 then Some (upd i x) else None | _ \<Rightarrow> None)"

definition list_field :: "string \<Rightarrow> 'b field list \<Rightarrow> 'b \<Rightarrow> ('b list \<Rightarrow> 'a \<Rightarrow> 'a) \<Rightarrow> 'a field" where
  "list_field name fs init upd = (name, \<lambda>v x. case v of JNull \<Rightarrow> Some (upd [] x)
     | JArr vs \<Rightarrow> map_option (\<lambda>ys. upd ys x) (those (map (decode_struct fs init) vs)) | _ \<Rightarrow> None)"

definition blank :: "string \<Rightarrow> bool" where
  "blank s \<longleftrightarrow> list_all (\<lambda>c. byte c = 32 \<or> byte c = 9 \<or> byte c = 10 \<or> byte c = 13) s"

text \<open>Only the first \<open>limit\<close> bytes of the body can be read (\<^verbatim>\<open>MaxBytesReader\<close>); wanting more is the
  error \<^verbatim>\<open>MaxBytesError\<close> if there is more.\<close>

definition Decode :: "http_lib \<Rightarrow> request \<Rightarrow> (jval \<Rightarrow> 'a option) \<Rightarrow> response + 'a" where
  "Decode L r dst =
     (if media_type L (rq_content_type r) \<noteq> Some ''application/json''
      then Inl (Error r 415 ''unsupported_media_type'' ''Content-Type must be application/json'')
      else
        (let data = (case rq_limit r of None \<Rightarrow> rq_body r | Some n \<Rightarrow> take n (rq_body r));
             more = length data < length (rq_body r);
             invalid = Inl (Error r 400 ''invalid_json'' ''Expected one valid JSON document with known fields'');
             ended = (if more then Inl (Error r 413 ''body_too_large'' ''Request body is too large'') else invalid) in
         case scan_json L data of
           Malformed \<Rightarrow> invalid
         | Unfinished \<Rightarrow> ended
         | Doc v rest \<Rightarrow>
             (case dst v of None \<Rightarrow> invalid | Some x \<Rightarrow>
                (if blank rest then (if more then ended else Inr x)
                 else case scan_json L rest of Unfinished \<Rightarrow> ended | _ \<Rightarrow> invalid))))"

definition decoding :: "response + 'a \<Rightarrow> ('a \<Rightarrow> reply) \<Rightarrow> reply" where
  "decoding d k E w = (case d of Inl x \<Rightarrow> (x, w) | Inr v \<Rightarrow> k v E w)"

subsection \<open>The client address\<close>

text \<open>\<^verbatim>\<open>netip.Addr.Unmap\<close> and \<^verbatim>\<open>netip.Prefix.Contains\<close>.\<close>

definition Unmap :: "ip \<Rightarrow> ip" where
  "Unmap a = (case a of V4 x \<Rightarrow> V4 x | V6 x z \<Rightarrow> if drop_bit 32 x = 0xFFFF then V4 (ucast x) else V6 x z)"

record prefix =
  px_addr :: ip
  px_bits :: nat

definition Contains :: "prefix \<Rightarrow> ip \<Rightarrow> bool" where
  "Contains p a =
     (case (px_addr p, a) of
        (V4 x, V4 y) \<Rightarrow> px_bits p \<le> 32 \<and> drop_bit (32 - px_bits p) (x XOR y) = 0
      | (V6 x z, V6 y z') \<Rightarrow> px_bits p \<le> 128 \<and> z' = [] \<and> drop_bit (128 - px_bits p) (x XOR y) = 0
      | _ \<Rightarrow> False)"

definition trusted_by :: "prefix list \<Rightarrow> ip \<Rightarrow> bool" where
  "trusted_by trusted a \<longleftrightarrow> list_ex (\<lambda>p. Contains p a) trusted"

text \<open>The loop of \<open>ClientIP\<close>, over the chain from its last entry.\<close>

fun walk :: "http_lib \<Rightarrow> prefix list \<Rightarrow> ip \<Rightarrow> ip \<Rightarrow> string list \<Rightarrow> ip" where
  "walk L trusted peer current [] = current"
| "walk L trusted peer current (x # chain) =
     (if trusted_by trusted current then
        (case parse_addr L (TrimSpace x) of None \<Rightarrow> peer | Some a \<Rightarrow> walk L trusted peer (Unmap a) chain)
      else current)"

definition ClientIP :: "http_lib \<Rightarrow> prefix list \<Rightarrow> request \<Rightarrow> string" where
  "ClientIP L trusted r =
     (case parse_peer L (rq_remote r) of None \<Rightarrow> ''unknown'' | Some a \<Rightarrow>
        (let peer = Unmap a; chain = split_on CHR '','' (rq_forwarded r) in
         if length chain > 16 then addr_text L peer
         else addr_text L (walk L trusted peer peer (rev chain))))"

subsection \<open>Rate limiting\<close>

text \<open>The start of the window of \<open>n\<close> seconds a time lies in, in seconds of the epoch.\<close>

definition window_start :: "int \<Rightarrow> ts \<Rightarrow> int" where
  "window_start n t = t div (n * second) * n"

text \<open>\<^verbatim>\<open>INSERT INTO rate_limit_buckets ... ON CONFLICT DO UPDATE ... RETURNING requests\<close>.\<close>

definition count_request :: "string \<Rightarrow> int \<Rightarrow> int \<Rightarrow> bucket list \<Rightarrow> gerr + int \<times> bucket list" where
  "count_request h win limit bs =
     (let hit = (\<lambda>b. bk_key b = h \<and> bk_window b = win) in
      if length h \<noteq> 32 then Inl (PgError check_violation)
      else case find_row hit bs of
        None \<Rightarrow> Inr (1, bs @ [\<lparr>bk_key = h, bk_window = win, bk_requests = 1\<rparr>])
      | Some b \<Rightarrow>
          (let n = min (bk_requests b + 1) (limit + 1) in
           guarded [(check_violation, n > 0)] (n, update_where hit (\<lambda>b. b\<lparr>bk_requests := n\<rparr>) bs)))"

definition Allow :: "string \<Rightarrow> int \<Rightarrow> int \<Rightarrow> (bucket list, bool) act" where
  "Allow key limit window =
     andthen (stmt (\<lambda>E w. count_request (sha256 E key) (window_start window (clock E (pc w))) limit (db w))) (\<lambda>count.
     ret (count \<le> limit))"

subsection \<open>Wrappers of the handlers\<close>

text \<open>What the handlers are built with: the libraries, whether a limiter is configured, the trusted
  proxies, the password hashes being computed.\<close>

record api =
  api_auth :: auth_lib
  api_http :: http_lib
  api_limiter :: bool
  api_trusted :: "prefix list"
  api_hashing :: nat
  api_catalogue :: catalogue
  api_store :: booking_store
  api_provider :: bool
  api_secret :: string
  api_mac :: "string \<Rightarrow> string \<Rightarrow> string"

definition failure :: "request \<Rightarrow> gerr \<Rightarrow> response" where
  "failure r e =
     (if errors_is e AuthErrUnauthorized then Error r 401 ''unauthenticated'' ''Invalid credentials''
      else if errors_is e AuthErrInvalidInput then Error r 400 ''invalid_input'' ''Invalid authentication input''
      else if errors_is e AuthErrBusy then Error r 503 ''unavailable'' ''Service temporarily unavailable''
      else Error r 500 ''internal_error'' ''An internal error occurred'')"

definition Require :: "request \<Rightarrow> (principal \<Rightarrow> reply) \<Rightarrow> reply" where
  "Require r k =
     (if \<not> has_prefix ''Bearer '' (rq_authorization r)
      then answer (Error r 401 ''unauthenticated'' ''Authentication required'')
      else attempt (on_auth (Authenticate (trim_prefix ''Bearer '' (rq_authorization r)))) (failure r) k)"

definition Roles :: "request \<Rightarrow> string list \<Rightarrow> (principal \<Rightarrow> reply) \<Rightarrow> reply" where
  "Roles r roles k = Require r (\<lambda>p.
     if \<not> HasRole p roles then answer (Error r 403 ''forbidden'' ''Operation is not allowed'') else k p)"

definition limit_requests :: "api \<Rightarrow> request \<Rightarrow> string \<Rightarrow> int \<Rightarrow> reply \<Rightarrow> reply" where
  "limit_requests A r key count k =
     (let unavailable = Error r 503 ''unavailable'' ''Service temporarily unavailable'' in
      if \<not> api_limiter A then answer unavailable
      else attempt (on_buckets (Allow key count 60)) (\<lambda>_. unavailable) (\<lambda>allowed.
        if \<not> allowed then answer (with_headers [(''Retry-After'', ''60'')] (Error r 429 ''rate_limited'' ''Too many requests''))
        else k))"

definition limited :: "api \<Rightarrow> request \<Rightarrow> reply \<Rightarrow> reply" where
  "limited A r k = limit_requests A r (''auth-ip:'' @ ClientIP (api_http A) (api_trusted A) r) 30 k"

definition accountLimit :: "api \<Rightarrow> request \<Rightarrow> string \<Rightarrow> reply \<Rightarrow> reply" where
  "accountLimit A r email k = limit_requests A r (''auth-account:'' @ ToLower (TrimSpace email)) 10 k"

subsection \<open>Errors of the packages\<close>

text \<open>\<^verbatim>\<open>database.Temporary\<close>: serialization failures, deadlocks, lock timeouts, cancelled statements and a
  server without a free connection.\<close>

definition Temporary :: "gerr \<Rightarrow> bool" where
  "Temporary e =
     (if (case errors_as_pg e of None \<Rightarrow> False
          | Some c \<Rightarrow> c \<in> {''40001'', ''40P01'', ''55P03'', ''57014'', ''53300'', ''57P03''}) then True
      else errors_is e DeadlineExceeded)"

definition domainError :: "request \<Rightarrow> gerr \<Rightarrow> response" where
  "domainError r e =
     (if errors_is e ErrBookingNotFound \<or> errors_is e ErrPassengerNotFound then Error r 404 ''not_found'' ''Resource not found''
      else if errors_is e ErrInvalidHoldRequest \<or> errors_is e QuoteErrInvalid \<or> errors_is e IdemErrKey
        then Error r 400 ''invalid_input'' ''Invalid request input''
      else if errors_is e ErrSeatUnavailable \<or> errors_is e ErrBookingNotHoldable \<or> errors_is e QuoteErrUnavailable
        then Error r 409 ''unavailable'' ''Resource is not available for this operation''
      else if errors_is e IdemErrConflict
        then Error r 409 ''idempotency_conflict'' ''Idempotency key was used with a different request''
      else if Temporary e
        then with_headers [(''Retry-After'', ''1'')] (Error r 503 ''temporary_conflict'' ''Please retry with the same idempotency key'')
      else Error r 500 ''internal_error'' ''An internal error occurred'')"

definition flightError :: "request \<Rightarrow> gerr \<Rightarrow> response" where
  "flightError r e =
     (if errors_is e FlightErrInvalid then Error r 400 ''invalid_input'' ''Invalid flight query''
      else if errors_is e FlightErrNotFound then Error r 404 ''not_found'' ''Resource not found''
      else Error r 500 ''internal_error'' ''An internal error occurred'')"

subsection \<open>The middleware\<close>

record options =
  op_body_limit :: int
  op_origins :: "string list"

definition body_limit :: "options \<Rightarrow> nat" where
  "body_limit opts = (if op_body_limit opts \<le> 0 then 65536 else nat (op_body_limit opts))"

text \<open>The next handler may panic (\<open>None\<close>), which the middleware turns into a 500.\<close>

type_synonym handler = "request \<Rightarrow> env \<Rightarrow> server world \<Rightarrow> response option \<times> server world"

definition recovered :: "request \<Rightarrow> (string \<times> string) list \<Rightarrow> response option \<Rightarrow> response" where
  "recovered r hs x = with_headers hs (case x of None \<Rightarrow> Error r 500 ''internal_error'' ''An internal error occurred'' | Some y \<Rightarrow> y)"

definition inner :: "options \<Rightarrow> handler \<Rightarrow> request \<Rightarrow> reply" where
  "inner opts next r E w =
     (let run = (\<lambda>hs. case next (r\<lparr>rq_limit := Some (body_limit opts)\<rparr>) E w of (x, w') \<Rightarrow> (recovered r hs x, w'));
          origin = rq_origin r; vary = [(''Vary'', ''Origin'')];
          scheme = (if rq_tls r then ''https'' else ''http'') in
      if origin = [] then run []
      else if \<not> (origin = scheme @ ''://'' @ rq_host r \<or> origin \<in> set (op_origins opts))
        then (with_headers vary (Error r 403 ''origin_denied'' ''Origin is not allowed''), w)
      else
        (let cors = vary @ [(''Access-Control-Allow-Origin'', origin), (''Access-Control-Expose-Headers'', ''X-Request-ID, Retry-After'')] in
         if rq_method r = ''OPTIONS''
         then (with_headers (cors @ [(''Access-Control-Allow-Methods'', ''GET, POST, PATCH, DELETE, OPTIONS''),
                  (''Access-Control-Allow-Headers'', ''Authorization, Content-Type, Idempotency-Key'')]) no_content, w)
         else run cors))"

definition security_headers :: "string \<Rightarrow> (string \<times> string) list" where
  "security_headers i = [(''X-Request-ID'', i), (''X-Content-Type-Options'', ''nosniff''), (''X-Frame-Options'', ''DENY''),
     (''Cache-Control'', ''no-store''), (''Content-Type'', ''application/json''),
     (''Content-Security-Policy'', ''default-src '' @ [CHR 0x27] @ ''none'' @ [CHR 0x27] @ ''; frame-ancestors '' @ [CHR 0x27] @ ''none'' @ [CHR 0x27])]"

text \<open>The handler runs to its end even if the client is told of a timeout (\<open>slow\<close>).\<close>

definition timeout_response :: response where
  "timeout_response = \<lparr>rs_status = 503, rs_headers = [],
     rs_body = Some (JObj [(''error'', JObj [(''code'', JStr ''request_timeout''), (''message'', JStr ''Request timed out'')])])\<rparr>"

definition New :: "options \<Rightarrow> handler \<Rightarrow> bool \<Rightarrow> request \<Rightarrow> reply" where
  "New opts next slow r E w =
     (case draw_bytes 16 E w of
        (Inl e, w1) \<Rightarrow> (Error (r\<lparr>rq_id := []\<rparr>) 503 ''unavailable'' ''Service temporarily unavailable'', w1)
      | (Inr raw, w1) \<Rightarrow>
          (let i = hex_encode (map char_of raw) in
           case inner opts next (r\<lparr>rq_id := i\<rparr>) E w1 of
             (x, w2) \<Rightarrow> (with_headers (security_headers i) (if slow then timeout_response else x), w2)))"

end
