(* ===== verification/Handlers.thy ===== *)
theory Handlers
  imports Http Provider Refund
begin

text \<open>
  The routes of \<^verbatim>\<open>internal/httpapi\<close>: \<^verbatim>\<open>auth.go\<close>, \<^verbatim>\<open>booking.go\<close>, \<^verbatim>\<open>payment.go\<close> and
  \<^verbatim>\<open>flight.go\<close>, one definition per handler, and the type \<open>route\<close> with \<open>serve\<close> that names them all.
\<close>

subsection \<open>Accounts\<close>

record register_dto =
  rd_email :: string
  rd_password :: string
  rd_first :: string
  rd_last :: string

record login_dto =
  ld_email :: string
  ld_password :: string

definition register_fields :: "register_dto field list" where
  "register_fields = [string_field ''email'' (\<lambda>s x. x\<lparr>rd_email := s\<rparr>), string_field ''password'' (\<lambda>s x. x\<lparr>rd_password := s\<rparr>),
     string_field ''first_name'' (\<lambda>s x. x\<lparr>rd_first := s\<rparr>), string_field ''last_name'' (\<lambda>s x. x\<lparr>rd_last := s\<rparr>)]"

definition login_fields :: "login_dto field list" where
  "login_fields = [string_field ''email'' (\<lambda>s x. x\<lparr>ld_email := s\<rparr>), string_field ''password'' (\<lambda>s x. x\<lparr>ld_password := s\<rparr>)]"

definition writeTokens :: "tokens \<Rightarrow> response" where
  "writeTokens t = JSON 200 (JObj [(''access_token'', JStr (AccessToken t)), (''refresh_token'', JStr (RefreshToken t)),
     (''token_type'', JStr ''Bearer''), (''expires_in'', JNum (ExpiresIn t))])"

definition register_handler :: "api \<Rightarrow> request \<Rightarrow> reply" where
  "register_handler A r = limited A r
     (decoding (Decode (api_http A) r (decode_struct register_fields \<lparr>rd_email = [], rd_password = [], rd_first = [], rd_last = []\<rparr>)) (\<lambda>dto.
      attempt (on_auth (Register (api_auth A) (api_hashing A) (rd_email dto) (rd_password dto) (rd_first dto) (rd_last dto))) (failure r) (\<lambda>_.
      answer (JSON 202 (JObj [(''status'', JStr ''accepted'')])))))"

definition login_handler :: "api \<Rightarrow> request \<Rightarrow> reply" where
  "login_handler A r = limited A r
     (decoding (Decode (api_http A) r (decode_struct login_fields \<lparr>ld_email = [], ld_password = []\<rparr>)) (\<lambda>dto.
      accountLimit A r (ld_email dto)
        (attempt (on_auth (Login (api_auth A) (api_hashing A) (ld_email dto) (ld_password dto))) (failure r) (\<lambda>tk.
         answer (writeTokens tk)))))"

definition refresh_handler :: "api \<Rightarrow> request \<Rightarrow> reply" where
  "refresh_handler A r = limited A r
     (decoding (Decode (api_http A) r (decode_struct [string_field ''refresh_token'' (\<lambda>s x. s)] [])) (\<lambda>v.
      attempt (on_auth (Refresh v)) (failure r) (\<lambda>tk. answer (writeTokens tk))))"

definition logout_handler :: "bool \<Rightarrow> request \<Rightarrow> reply" where
  "logout_handler all r = Require r (\<lambda>p.
     attempt (on_auth (Logout p all)) (failure r) (\<lambda>_. answer no_content))"

subsection \<open>Bookings\<close>

definition bookingResponse :: "summary \<Rightarrow> (string \<times> jval) list" where
  "bookingResponse v = [(''id'', JStr (sm_id v)), (''pnr'', JStr (sm_pnr v)), (''status'', JStr (sm_status v)),
     (''currency'', JStr (sm_currency v)), (''total_minor'', JNum (sm_total v)), (''version'', JNum (sm_version v))] @
     (case sm_hold v of None \<Rightarrow> [] | Some t \<Rightarrow> [(''hold_expires_at'', JTime t)])"

definition omit_empty :: "string \<Rightarrow> string \<Rightarrow> (string \<times> jval) list" where
  "omit_empty name s = (if s = [] then [] else [(name, JStr s)])"

definition passengerResponse :: "passenger \<Rightarrow> jval" where
  "passengerResponse v =
     (let date = (case pg_dob v of None \<Rightarrow> [] | Some t \<Rightarrow> FormatDate t) in
      JObj (omit_empty ''id'' (pg_id v) @ [(''passenger_type'', JStr (pg_type v)), (''first_name'', JStr (pg_first v)), (''last_name'', JStr (pg_last v))] @
        omit_empty ''date_of_birth'' date))"

definition items_json :: "jval list \<Rightarrow> jval" where
  "items_json vs = JObj [(''items'', JArr vs)]"

text \<open>\<^verbatim>\<open>strconv.Atoi\<close> on a 64-bit platform.\<close>

definition pageLimit :: "request \<Rightarrow> int" where
  "pageLimit r =
     (let raw = rq_query r ''limit'' in
      if raw = [] then 50 else case ParseInt64 raw of None \<Rightarrow> 0 | Some n \<Rightarrow> n)"

definition list_bookings :: "request \<Rightarrow> reply" where
  "list_bookings r = Require r (\<lambda>p.
     attempt (on_data (booking_List (pr_user p) (rq_query r ''after_id'') (pageLimit r))) (domainError r) (\<lambda>vs.
     answer (JSON 200 (items_json (map (\<lambda>v. JObj (bookingResponse v)) vs)))))"

definition mutation :: "api \<Rightarrow> request \<Rightarrow> (principal \<Rightarrow> reply) \<Rightarrow> reply" where
  "mutation A r k = Require r (\<lambda>p.
     if \<not> idempotency_Valid (rq_key r) then answer (domainError r IdemErrKey)
     else limit_requests A r (''booking-user:'' @ pr_user p) 60 (k p))"

definition selection_fields :: "selection field list" where
  "selection_fields = [string_field ''fare_offer_id'' (\<lambda>s x. x\<lparr>FareOfferID := s\<rparr>),
     int_field ''passenger_count'' (\<lambda>i x. x\<lparr>PassengerCount := i\<rparr>)]"

definition create_quote :: "api \<Rightarrow> request \<Rightarrow> reply" where
  "create_quote A r = Require r (\<lambda>p.
     limit_requests A r (''quote-user:'' @ pr_user p) 30
       (decoding (Decode (api_http A) r (decode_struct
          [list_field ''items'' selection_fields \<lparr>FareOfferID = [], PassengerCount = 0\<rparr> (\<lambda>xs _. xs)] [])) (\<lambda>items.
        attempt (on_data (quote_Create (pr_user p) items)) (domainError r) (\<lambda>v.
        answer (JSON 201 (JObj [(''id'', JStr (q_id v)), (''currency'', JStr (q_currency v)),
          (''total_minor'', JNum (q_total v)), (''expires_at'', JTime (q_expires v))]))))))"

definition create_booking :: "api \<Rightarrow> request \<Rightarrow> reply" where
  "create_booking A r = mutation A r (\<lambda>p.
     decoding (Decode (api_http A) r (decode_struct [string_field ''quote_id'' (\<lambda>s x. s)] [])) (\<lambda>q.
     attempt (on_data (Create (pr_user p) q (rq_key r))) (domainError r) (\<lambda>v.
     answer (JSON 201 (JObj (bookingResponse v))))))"

definition segment_json :: "segment \<Rightarrow> jval" where
  "segment_json s = JObj [(''id'', JStr (sg_id s)), (''flight_instance_id'', JStr (sg_flight s)),
     (''status'', JStr (sg_status s)), (''cabin'', JStr (sg_cabin s))]"

definition get_booking :: "request \<Rightarrow> reply" where
  "get_booking r = Require r (\<lambda>p.
     attempt (on_data (Get (pr_user p) (rq_path r ''booking_id''))) (domainError r) (\<lambda>v.
     answer (JSON 200 (JObj (bookingResponse (dt_summary v) @
       [(''passenger_count'', JNum (int (dt_count v))), (''passengers'', JArr (map passengerResponse (dt_passengers v))),
        (''segments'', JArr (map segment_json (dt_segments v)))])))))"

record passenger_dto =
  pd_type :: string
  pd_first :: string
  pd_last :: string
  pd_birth :: string

definition passenger_fields :: "passenger_dto field list" where
  "passenger_fields = [string_field ''passenger_type'' (\<lambda>s x. x\<lparr>pd_type := s\<rparr>), string_field ''first_name'' (\<lambda>s x. x\<lparr>pd_first := s\<rparr>),
     string_field ''last_name'' (\<lambda>s x. x\<lparr>pd_last := s\<rparr>), string_field ''date_of_birth'' (\<lambda>s x. x\<lparr>pd_birth := s\<rparr>)]"

text \<open>Adding (\<open>passenger_id\<close> is no part of the route, so empty) and changing a passenger.\<close>

definition save_passenger :: "api \<Rightarrow> request \<Rightarrow> reply" where
  "save_passenger A r = mutation A r (\<lambda>p.
     decoding (Decode (api_http A) r (decode_struct passenger_fields \<lparr>pd_type = [], pd_first = [], pd_last = [], pd_birth = []\<rparr>)) (\<lambda>dto.
     let save = (\<lambda>dob. attempt (on_data (SavePassenger (pr_user p) (rq_path r ''booking_id'') (rq_key r)
           \<lparr>pg_id = rq_path r ''passenger_id'', pg_type = pd_type dto, pg_first = pd_first dto, pg_last = pd_last dto, pg_dob = dob\<rparr>))
         (domainError r) (\<lambda>v. answer (JSON 200 (passengerResponse v)))) in
     if pd_birth dto = [] then save None
     else case ParseDate (pd_birth dto) of None \<Rightarrow> answer (domainError r ErrInvalidHoldRequest) | Some t \<Rightarrow> save (Some t)))"

record hold_dto =
  hd_segment :: string
  hd_flight :: string
  hd_seats :: "seat_selection list"

definition seat_fields :: "seat_selection field list" where
  "seat_fields = [string_field ''passenger_id'' (\<lambda>s x. x\<lparr>PassengerID := s\<rparr>), string_field ''flight_seat_id'' (\<lambda>s x. x\<lparr>FlightSeatID := s\<rparr>)]"

definition hold_fields :: "hold_dto field list" where
  "hold_fields = [string_field ''booking_segment_id'' (\<lambda>s x. x\<lparr>hd_segment := s\<rparr>), string_field ''flight_instance_id'' (\<lambda>s x. x\<lparr>hd_flight := s\<rparr>),
     list_field ''seats'' seat_fields \<lparr>PassengerID = [], FlightSeatID = []\<rparr> (\<lambda>xs x. x\<lparr>hd_seats := xs\<rparr>)]"

definition hold_handler :: "api \<Rightarrow> request \<Rightarrow> reply" where
  "hold_handler A r = mutation A r (\<lambda>p.
     decoding (Decode (api_http A) r (decode_struct hold_fields \<lparr>hd_segment = [], hd_flight = [], hd_seats = []\<rparr>)) (\<lambda>dto.
     attempt (on_data (HoldSeats (api_store A) \<lparr>UserID = pr_user p, IdempotencyKey = rq_key r, BookingID = rq_path r ''booking_id'', BookingSegmentID = hd_segment dto,
         FlightInstanceID = hd_flight dto, Seats = hd_seats dto\<rparr>)) (domainError r) (\<lambda>v.
     answer (JSON 200 (JObj [(''booking_id'', JStr (hold_booking v)), (''seat_ids'', JArr (map JStr (hold_seats v))),
       (''expires_at'', JTime (hold_expires v))])))))"

definition release_booking :: "api \<Rightarrow> bool \<Rightarrow> request \<Rightarrow> reply" where
  "release_booking A cancel r = mutation A r (\<lambda>p.
     attempt (on_data (Release (pr_user p) (rq_path r ''booking_id'') (rq_key r) cancel)) (domainError r) (\<lambda>_. answer no_content))"

definition assigned_json :: "assigned_seat \<Rightarrow> jval" where
  "assigned_json v = JObj [(''seat_id'', JStr (as_seat v)), (''passenger_id'', JStr (as_passenger v)),
     (''segment_id'', JStr (as_segment v)), (''status'', JStr (as_status v))]"

definition list_seats :: "request \<Rightarrow> reply" where
  "list_seats r = Require r (\<lambda>p.
     attempt (on_data (booking_Seats (pr_user p) (rq_path r ''booking_id''))) (domainError r) (\<lambda>vs.
     answer (JSON 200 (items_json (map assigned_json vs)))))"

subsection \<open>Payments\<close>

text \<open>The checks the two payment routes share, before the call that is made for the user.\<close>

definition payment_checks :: "api \<Rightarrow> request \<Rightarrow> (principal \<Rightarrow> reply) \<Rightarrow> reply" where
  "payment_checks A r k = Require r (\<lambda>p.
     attempt (on_data (Get (pr_user p) (rq_path r ''booking_id''))) (domainError r) (\<lambda>_.
     if \<not> api_provider A then answer (Error r 503 ''payments_disabled'' ''Payment processing is not configured'')
     else decoding (Decode (api_http A) r (decode_struct [] ())) (\<lambda>_.
       limit_requests A r (''payment-user:'' @ pr_user p) 10 (k p))))"

definition request_refund :: "api \<Rightarrow> request \<Rightarrow> reply" where
  "request_refund A r = payment_checks A r (\<lambda>p.
     attempt (on_data (RequestRefund (pr_user p) (rq_path r ''booking_id'') (rq_key r))) (domainError r) (\<lambda>i.
     answer (JSON 202 (JObj [(''id'', JStr i), (''status'', JStr ''PENDING'')]))))"

definition start_payment :: "api \<Rightarrow> request \<Rightarrow> reply" where
  "start_payment A r = payment_checks A r (\<lambda>p.
     attempt (on_data (Start (pr_user p) (rq_path r ''booking_id'') (rq_key r))) (domainError r) (\<lambda>v.
     answer (JSON 202 (JObj [(''id'', JStr (pay_id v)), (''status'', JStr (pay_status v)),
       (''amount_minor'', JNum (pay_amount v)), (''currency'', JStr (pay_currency v))]))))"

record webhook_dto =
  wd_event :: string
  wd_payment :: string
  wd_status :: string
  wd_reference :: string

definition webhook_fields :: "webhook_dto field list" where
  "webhook_fields = [string_field ''event_id'' (\<lambda>s x. x\<lparr>wd_event := s\<rparr>), string_field ''payment_id'' (\<lambda>s x. x\<lparr>wd_payment := s\<rparr>),
     string_field ''status'' (\<lambda>s x. x\<lparr>wd_status := s\<rparr>), string_field ''reference'' (\<lambda>s x. x\<lparr>wd_reference := s\<rparr>)]"

text \<open>The body is read whole before its signature is checked, so the decoder sees no limit.\<close>

definition payment_webhook :: "api \<Rightarrow> request \<Rightarrow> reply" where
  "payment_webhook A r E w =
     (if length (api_secret A) < 32 then (Error r 503 ''payments_disabled'' ''Payment processing is not configured'', w)
      else if (case rq_limit r of None \<Rightarrow> False | Some n \<Rightarrow> n < length (rq_body r)) then (Error r 400 ''invalid_input'' ''Invalid webhook'', w)
      else if \<not> VerifySignature (api_mac A) (api_secret A) (rq_body r) (rq_timestamp r) (rq_signature r) (wall_time E (pc w))
        then (Error r 401 ''invalid_signature'' ''Invalid webhook signature'', w)
      else decoding (Decode (api_http A) (r\<lparr>rq_limit := None\<rparr>) (decode_struct webhook_fields
             \<lparr>wd_event = [], wd_payment = [], wd_status = [], wd_reference = []\<rparr>)) (\<lambda>dto.
           attempt (on_data (Apply ''configured'' (wd_event dto) (wd_payment dto) \<lparr>Reference = wd_reference dto, Status = wd_status dto\<rparr>))
             (domainError r) (\<lambda>_. answer no_content)) E w)"

subsection \<open>Flights\<close>

definition flightResponse :: "flight_info \<Rightarrow> (string \<times> jval) list" where
  "flightResponse f = [(''id'', JStr (fl_id f)), (''airline'', JStr (fl_airline f)), (''number'', JStr (fl_number f)),
     (''origin'', JStr (fl_origin f)), (''destination'', JStr (fl_destination f)), (''status'', JStr (fl_status f)),
     (''departure'', JTime (fl_departure f)), (''arrival'', JTime (fl_arrival f))]"

text \<open>The lab fault \<^verbatim>\<open>cpu\<close> stretches a digest over the page.\<close>

definition searchSignatureRounds :: nat where
  "searchSignatureRounds = 60000"

definition searchETag :: "env \<Rightarrow> jval list \<Rightarrow> string" where
  "searchETag E items =
     (if \<not> lab_Enabled E ''cpu'' then []
      else
        (let over_items = fold (\<lambda>item sum. ((\<lambda>s. sha256 E (s @ marshal E item)) ^^ searchSignatureRounds) sum) items (sha256 E []);
             sum = (sha256 E ^^ (searchSignatureRounds * 40)) over_items in
         [CHR 0x22] @ hex_encode (take 16 sum) @ [CHR 0x22]))"

definition search_flights :: "api \<Rightarrow> request \<Rightarrow> reply" where
  "search_flights A r =
     (let raw = rq_query r ''after_departure'' in
      case (if raw = [] then Some zero_time else parse_time (api_http A) raw) of
        None \<Rightarrow> answer (flightError r FlightErrInvalid)
      | Some t \<Rightarrow>
          attempt (on_data (flight_Search (api_catalogue A)
              \<lparr>Origin = rq_query r ''origin'', Destination = rq_query r ''destination'', Date = rq_query r ''date'',
               AfterID = rq_query r ''after_id'', AfterDeparture = t, Limit = pageLimit r\<rparr>)) (flightError r) (\<lambda>fs E w.
          let items = map (\<lambda>f. JObj (flightResponse f)) fs; tag = searchETag E items in
          (with_headers (if tag = [] then [] else [(''ETag'', tag)]) (JSON 200 (items_json items)), w)))"

definition fare_json :: "fare_info \<Rightarrow> jval" where
  "fare_json v = JObj [(''id'', JStr (fr_id v)), (''code'', JStr (fr_code v)), (''cabin'', JStr (fr_cabin v)), (''currency'', JStr (fr_currency v)),
     (''price_minor'', JNum (fr_price v)), (''taxes_minor'', JNum (fr_taxes v)), (''refundable'', JBool (fr_refundable v))]"

text \<open>\<^verbatim>\<open>verifyFareFreshness\<close> only waits.\<close>

definition get_flight :: "api \<Rightarrow> request \<Rightarrow> reply" where
  "get_flight A r =
     attempt (on_data (flight_Get (api_catalogue A) (rq_path r ''id''))) (flightError r) (\<lambda>f.
     attempt (on_data (flight_Fares (api_catalogue A) (fl_id f))) (flightError r) (\<lambda>fares.
     answer (JSON 200 (JObj (flightResponse f @ [(''fares'', JArr (map fare_json fares))])))))"

definition seat_json :: "seat_info \<Rightarrow> jval" where
  "seat_json v = JObj [(''id'', JStr (st_id v)), (''number'', JStr (st_number v)), (''cabin'', JStr (st_cabin v)), (''availability'', JStr (st_availability v))]"

definition flight_seat_map :: "api \<Rightarrow> request \<Rightarrow> reply" where
  "flight_seat_map A r =
     attempt (on_data (flight_Seats (api_catalogue A) (rq_path r ''id'') (rq_query r ''after_id'') (pageLimit r))) (flightError r) (\<lambda>vs.
     answer (JSON 200 (items_json (map seat_json vs))))"

subsection \<open>All routes\<close>

datatype route =
    PostRegister | PostLogin | PostRefresh | PostLogout | PostLogoutAll
  | GetFlights | GetFlight | GetFlightSeats
  | GetBookings | PostQuotes | PostBookings | GetBooking | PostPassenger | PatchPassenger
  | PostSeatHolds | DeleteSeatHolds | PostCancel | GetSeats
  | PostRefunds | PostPayments | PostWebhook

fun serve :: "api \<Rightarrow> route \<Rightarrow> request \<Rightarrow> reply" where
  "serve A PostRegister r = register_handler A r"
| "serve A PostLogin r = login_handler A r"
| "serve A PostRefresh r = refresh_handler A r"
| "serve A PostLogout r = logout_handler False r"
| "serve A PostLogoutAll r = logout_handler True r"
| "serve A GetFlights r = search_flights A r"
| "serve A GetFlight r = get_flight A r"
| "serve A GetFlightSeats r = flight_seat_map A r"
| "serve A GetBookings r = list_bookings r"
| "serve A PostQuotes r = create_quote A r"
| "serve A PostBookings r = create_booking A r"
| "serve A GetBooking r = get_booking r"
| "serve A PostPassenger r = save_passenger A r"
| "serve A PatchPassenger r = save_passenger A r"
| "serve A PostSeatHolds r = hold_handler A r"
| "serve A DeleteSeatHolds r = release_booking A False r"
| "serve A PostCancel r = release_booking A True r"
| "serve A GetSeats r = list_seats r"
| "serve A PostRefunds r = request_refund A r"
| "serve A PostPayments r = start_payment A r"
| "serve A PostWebhook r = payment_webhook A r"

end
