(* ===== verification/HttpRun.thy ===== *)
theory HttpRun
  imports Handlers LedgerRefund BookingRun HoldRun QuoteRun LedgerBooking
begin

text \<open>How replies run: what they leave alone, and the shape of what they answer.\<close>

named_theorems typed_rules \<open>replies whose responses are well typed\<close>
named_theorems careful_rules \<open>replies whose error responses write no booking data\<close>

subsection \<open>Running on one of the stores\<close>

definition data_world :: "server world \<Rightarrow> database world" where
  "data_world w = \<lparr>db = srv_data (db w), pc = pc w, draws = draws w, txn = txn w\<rparr>"

definition auth_world :: "server world \<Rightarrow> auth_db world" where
  "auth_world w = \<lparr>db = srv_auth (db w), pc = pc w, draws = draws w, txn = txn w\<rparr>"

lemma db_worlds [simp]: "db (data_world w) = srv_data (db w)" "db (auth_world w) = srv_auth (db w)"
  "pc (data_world w) = pc w" "pc (auth_world w) = pc w"
  by (simp_all add: data_world_def auth_world_def)

lemma on_data_run:
  "on_data f E w = (r, w') \<Longrightarrow> \<exists>v. f E (data_world w) = (r, v) \<and> db w' = (db w)\<lparr>srv_data := db v\<rparr> \<and> data_world w' = v"
  by (auto simp: on_data_def within_def data_world_def split: prod.splits)

lemma on_auth_run:
  "on_auth f E w = (r, w') \<Longrightarrow> \<exists>v. f E (auth_world w) = (r, v) \<and> db w' = (db w)\<lparr>srv_auth := db v\<rparr> \<and> auth_world w' = v"
  by (auto simp: on_auth_def within_def auth_world_def split: prod.splits)

lemma on_buckets_run: "on_buckets f E w = (r, w') \<Longrightarrow> \<exists>bs. db w' = (db w)\<lparr>srv_buckets := bs\<rparr>"
  by (auto simp: on_buckets_def within_def split: prod.splits)

subsection \<open>Well-typed responses\<close>

definition error_object :: "jval \<Rightarrow> bool" where
  "error_object v \<longleftrightarrow> (\<exists>code message more. v = JObj [(''error'', JObj ((''code'', JStr code) # (''message'', JStr message) # more))])"

definition well_typed :: "response \<Rightarrow> bool" where
  "well_typed x \<longleftrightarrow>
     (case rs_body x of
        None \<Rightarrow> rs_status x = 204
      | Some v \<Rightarrow> if rs_status x < 400 then rs_status x \<in> {200, 201, 202} \<and> (\<exists>kvs. v = JObj kvs)
          else rs_status x \<in> {400, 401, 403, 404, 409, 413, 415, 429, 500, 503} \<and> error_object v)"

definition typed :: "reply \<Rightarrow> bool" where
  "typed k \<longleftrightarrow> (\<forall>E w. well_typed (fst (k E w)))"

lemma well_typed_Error [typed_rules, simp]:
  "s \<in> {400, 401, 403, 404, 409, 413, 415, 429, 500, 503} \<Longrightarrow> well_typed (Error r s c m)"
  by (auto simp: well_typed_def Error_def JSON_def error_json_def error_object_def)

lemma well_typed_JSON [typed_rules, simp]: "s \<in> {200, 201, 202} \<Longrightarrow> well_typed (JSON s (JObj kvs))"
  by (auto simp: well_typed_def JSON_def)

lemma well_typed_no_content [typed_rules, simp]: "well_typed no_content"
  by (simp add: well_typed_def no_content_def)

lemma well_typed_headers [simp]: "well_typed (with_headers hs x) = well_typed x"
  by (simp add: well_typed_def with_headers_def split: option.splits)

lemma well_typed_failures [typed_rules, simp]:
  "well_typed (failure r e)" "well_typed (domainError r e)" "well_typed (flightError r e)"
  by (simp_all add: failure_def domainError_def flightError_def)

lemma typed_answer [typed_rules]: "well_typed x \<Longrightarrow> typed (answer x)"
  by (simp add: typed_def answer_def)

lemma typed_attempt [typed_rules]: "(\<And>e. well_typed (g e)) \<Longrightarrow> (\<And>a. typed (k a)) \<Longrightarrow> typed (attempt f g k)"
  by (auto simp: typed_def attempt_def split: prod.splits sum.splits)

lemma typed_decoding [typed_rules]:
  "(\<And>v. typed (k v)) \<Longrightarrow> typed (decoding (Decode L r dst) k)"
  by (auto simp: typed_def decoding_def Decode_def Let_def split: sum.splits scanned.splits option.splits)

lemma typed_if [typed_rules]: "(b \<Longrightarrow> typed k) \<Longrightarrow> (\<not> b \<Longrightarrow> typed k') \<Longrightarrow> typed (if b then k else k')"
  by simp

lemma typed_Require [typed_rules]: "(\<And>p. typed (k p)) \<Longrightarrow> typed (Require r k)"
  unfolding Require_def by (intro typed_rules) auto

lemma typed_limit [typed_rules]: "typed k \<Longrightarrow> typed (limit_requests A r key n k)"
  unfolding limit_requests_def Let_def by (intro typed_rules) auto

lemma typed_limited [typed_rules]: "typed k \<Longrightarrow> typed (limited A r k)" "typed k \<Longrightarrow> typed (accountLimit A r email k)"
  unfolding limited_def accountLimit_def by (intro typed_rules; assumption)+

lemma typed_mutation [typed_rules]: "(\<And>p. typed (k p)) \<Longrightarrow> typed (mutation A r k)"
  unfolding mutation_def by (intro typed_rules) auto

lemma typed_payment_checks [typed_rules]: "(\<And>p. typed (k p)) \<Longrightarrow> typed (payment_checks A r k)"
  unfolding payment_checks_def by (intro typed_rules) auto

lemma typed_applied:
  "well_typed (fst (decoding (Decode L r' dst) (\<lambda>dto. attempt (f dto) (domainError r) (\<lambda>_. answer no_content)) E w))"
proof -
  have "typed (decoding (Decode L r' dst) (\<lambda>dto. attempt (f dto) (domainError r) (\<lambda>_. answer no_content)))"
    by (intro typed_rules)
  then show ?thesis by (simp add: typed_def)
qed

lemma typed_serve: "typed (serve A route r)"
proof (cases route)
  case PostWebhook
  show ?thesis unfolding PostWebhook by (auto simp: typed_def payment_webhook_def intro!: typed_applied)
next
  case GetFlights
  have "typed (attempt f (flightError r) (\<lambda>fs E w.
      let items = map (\<lambda>f. JObj (flightResponse f)) fs; tag = searchETag E items in
      (with_headers (if tag = [] then [] else [(''ETag'', tag)]) (JSON 200 (items_json items)), w)))" for f
    by (intro typed_rules) (auto simp: typed_def Let_def items_json_def)
  then show ?thesis unfolding GetFlights by (auto simp: search_flights_def Let_def typed_answer split: option.splits)
qed (auto simp: register_handler_def login_handler_def refresh_handler_def logout_handler_def list_bookings_def create_quote_def
      create_booking_def get_booking_def save_passenger_def hold_handler_def release_booking_def list_seats_def request_refund_def
      start_payment_def get_flight_def flight_seat_map_def writeTokens_def items_json_def Let_def passengerResponse_def
    intro!: typed_rules split: option.splits)

subsection \<open>Errors write no booking data\<close>

definition reads_only :: "'a dbact \<Rightarrow> bool" where
  "reads_only f \<longleftrightarrow> (\<forall>E w. db (snd (f E w)) = db w)"

lemma reads_onlyI: "(\<And>c. keeps (\<lambda>d. d = c) f) \<Longrightarrow> reads_only f"
  by (simp add: reads_only_def keeps_def)

lemma reads_only_run: "reads_only f \<Longrightarrow> f E w = (r, w') \<Longrightarrow> db w' = db w"
  unfolding reads_only_def by (metis snd_conv)

lemma reads_only_ops:
  "reads_only (booking_List u after n)" "reads_only (Get u i)" "reads_only (booking_Seats u i)"
  "reads_only (flight_Search C q)" "reads_only (flight_Get C i)" "reads_only (flight_Fares C i)" "reads_only (flight_Seats C i after n)"
  unfolding booking_List_def Get_def booking_Seats_def flight_Search_def flight_Get_def flight_Fares_def flight_Seats_def Let_def
  by (auto intro!: reads_onlyI keeps_rules split: option.splits prod.splits)

definition atomic :: "'a dbact \<Rightarrow> bool" where
  "atomic f \<longleftrightarrow> (\<forall>E w e w'. ledger_ok (db w) \<and> f E w = (Inl e, w') \<longrightarrow> db w' = db w)"

lemma release_work_commits: "release_work user bid c rec E w = (Inr (Commit q), w') \<Longrightarrow> \<exists>a. q = Inr a"
  by (auto dest!: release_work_Inr)

lemma atomicI: "(\<And>E w e w'. ledger_ok (db w) \<Longrightarrow> f E w = (Inl e, w') \<Longrightarrow> db w' = db w) \<Longrightarrow> atomic f"
  unfolding atomic_def by blast

lemma atomic_ops:
  "atomic (quote_Create user items)" "atomic (Create user q key)" "atomic (SavePassenger user i key p)" "atomic (HoldSeats store params)"
  "atomic (Apply prov ev pay res)" "atomic (Start user i key)" "atomic (RequestRefund user i key)" "atomic (Release user i key c)"
proof -
  show "atomic (quote_Create user items)" by (rule atomicI) (rule quote_Create_failed)
  show "atomic (Create user q key)" by (rule atomicI) (rule Create_failed)
  show "atomic (SavePassenger user i key p)" by (rule atomicI) (rule SavePassenger_failed)
  show "atomic (HoldSeats store params)" by (rule atomicI) (rule HoldSeats_failed)
  show "atomic (Apply prov ev pay res)" by (rule atomicI) (rule Apply_failed)
  show "atomic (Start user i key)" unfolding Start_def by (rule atomicI) (erule guarded_idem_failed, erule start_work_commits)
  show "atomic (RequestRefund user i key)" unfolding RequestRefund_def by (rule atomicI) (erule guarded_idem_failed, erule refund_work_commits)
  show "atomic (Release user i key c)" unfolding Release_def by (rule atomicI) (erule guarded_idem_failed, erule release_work_commits)
qed

definition careful :: "reply \<Rightarrow> bool" where
  "careful k \<longleftrightarrow> (\<forall>E w x w'. ledger_ok (srv_data (db w)) \<and> k E w = (x, w') \<and> 400 \<le> rs_status x \<longrightarrow> srv_data (db w') = srv_data (db w))"

definition fine :: "reply \<Rightarrow> bool" where
  "fine k \<longleftrightarrow> (\<forall>E w. rs_status (fst (k E w)) < 400)"

lemma fine_answer [careful_rules]: "fine (answer (JSON 200 v))" "fine (answer (JSON 201 v))" "fine (answer (JSON 202 v))" "fine (answer no_content)"
  by (simp_all add: fine_def answer_def JSON_def no_content_def)

lemma careful_answer [careful_rules]: "careful (answer x)"
  by (simp add: careful_def answer_def)

lemma careful_keeps:
  assumes "\<And>E w r w1. f E w = (r, w1) \<Longrightarrow> srv_data (db w1) = srv_data (db w)" and "\<And>a. careful (k a)"
  shows "careful (attempt f g k)"
  unfolding careful_def
proof (intro allI impI, elim conjE)
  fix E w x w'
  assume ok: "ledger_ok (srv_data (db w))" "400 \<le> rs_status x" and run: "attempt f g k E w = (x, w')"
  obtain r w1 where f: "f E w = (r, w1)" by fastforce
  note w1 = assms(1) [OF f]
  show "srv_data (db w') = srv_data (db w)"
  proof (cases r)
    case (Inl e)
    with run f w1 show ?thesis by (simp add: attempt_def)
  next
    case (Inr a)
    with run f have "k a E w1 = (x, w')" by (simp add: attempt_def)
    with assms(2) [of a] ok w1 show ?thesis unfolding careful_def by metis
  qed
qed

lemma on_auth_data: "on_auth f E w = (r, w') \<Longrightarrow> srv_data (db w') = srv_data (db w)"
  by (auto simp: on_auth_def within_def split: prod.splits)

lemma on_buckets_data: "on_buckets f E w = (r, w') \<Longrightarrow> srv_data (db w') = srv_data (db w)"
  by (auto simp: on_buckets_def within_def split: prod.splits)

lemma careful_auth [careful_rules]: "(\<And>a. careful (k a)) \<Longrightarrow> careful (attempt (on_auth f) g k)"
  by (rule careful_keeps) (rule on_auth_data)

lemma careful_buckets [careful_rules]: "(\<And>a. careful (k a)) \<Longrightarrow> careful (attempt (on_buckets f) g k)"
  by (rule careful_keeps) (rule on_buckets_data)

lemma careful_reads: "reads_only f \<Longrightarrow> (\<And>a. careful (k a)) \<Longrightarrow> careful (attempt (on_data f) g k)"
  by (rule careful_keeps) (auto dest!: on_data_run reads_only_run)

lemma careful_writes:
  assumes "atomic f" and "\<And>a. fine (k a)"
  shows "careful (attempt (on_data f) g k)"
  unfolding careful_def
proof (intro allI impI, elim conjE)
  fix E w x w'
  assume ok: "ledger_ok (srv_data (db w))" "400 \<le> rs_status x" and run: "attempt (on_data f) g k E w = (x, w')"
  obtain r w1 where f: "on_data f E w = (r, w1)" by fastforce
  show "srv_data (db w') = srv_data (db w)"
  proof (cases r)
    case (Inl e)
    with run f have "w' = w1" by (simp add: attempt_def)
    from on_data_run [OF f] obtain v where v: "f E (data_world w) = (r, v)" "srv_data (db w1) = db v" by auto
    with assms(1) ok(1) Inl have "db v = srv_data (db w)" unfolding atomic_def by (metis db_worlds(1))
    with v(2) \<open>w' = w1\<close> show ?thesis by simp
  next
    case (Inr a)
    with run f have "k a E w1 = (x, w')" by (simp add: attempt_def)
    with assms(2) [of a] ok(2) show ?thesis unfolding fine_def by (metis fst_conv not_less)
  qed
qed

lemmas careful_data [careful_rules] = reads_only_ops [THEN careful_reads] atomic_ops [THEN careful_writes]

lemma careful_decoding [careful_rules]: "(\<And>v. careful (k v)) \<Longrightarrow> careful (decoding d k)"
  by (auto simp: careful_def decoding_def split: sum.splits)

lemma careful_if [careful_rules]: "(b \<Longrightarrow> careful k) \<Longrightarrow> (\<not> b \<Longrightarrow> careful k') \<Longrightarrow> careful (if b then k else k')"
  by simp

lemma careful_Require [careful_rules]: "(\<And>p. careful (k p)) \<Longrightarrow> careful (Require r k)"
  unfolding Require_def by (intro careful_rules)

lemma careful_limit [careful_rules]: "careful k \<Longrightarrow> careful (limit_requests A r key n k)"
  unfolding limit_requests_def Let_def by (intro careful_rules)

lemma careful_limited [careful_rules]: "careful k \<Longrightarrow> careful (limited A r k)" "careful k \<Longrightarrow> careful (accountLimit A r email k)"
  unfolding limited_def accountLimit_def by (intro careful_rules; assumption)+

lemma careful_mutation [careful_rules]: "(\<And>p. careful (k p)) \<Longrightarrow> careful (mutation A r k)"
  unfolding mutation_def by (intro careful_rules)

lemma careful_payment_checks [careful_rules]: "(\<And>p. careful (k p)) \<Longrightarrow> careful (payment_checks A r k)"
  unfolding payment_checks_def by (intro careful_rules)

lemma careful_applied: "careful (decoding d (\<lambda>dto. attempt (on_data (Apply prov (ev dto) (pay dto) (res dto))) g (\<lambda>_. answer no_content)))"
  by (intro careful_rules)

lemma careful_search:
  "careful (attempt (on_data (flight_Search C q)) g (\<lambda>fs E w. (h fs E, w)))"
  by (intro careful_rules) (simp add: careful_def)

lemma careful_serve: "careful (serve A route r)"
proof (cases route)
  case PostWebhook
  show ?thesis unfolding PostWebhook by (auto simp: careful_def payment_webhook_def split: if_splits dest!: careful_applied [unfolded careful_def, rule_format])
next
  case GetFlights
  then show ?thesis by (auto simp: search_flights_def Let_def split: option.splits intro: careful_answer careful_search)
qed (auto simp: register_handler_def login_handler_def refresh_handler_def logout_handler_def list_bookings_def create_quote_def
      create_booking_def get_booking_def save_passenger_def hold_handler_def release_booking_def list_seats_def request_refund_def
      start_payment_def get_flight_def flight_seat_map_def Let_def
    intro!: careful_rules split: option.splits)

end
