(* ===== verification/Serve.thy ===== *)
theory Serve
  imports Handlers
begin

text \<open>
  The whole HTTP server as \<^verbatim>\<open>cmd/api/main.go\<close> assembles it: the multiplexer with its patterns, the
  health checks, the pages of \<^verbatim>\<open>internal/webui\<close>, the middleware, and the request metrics of
  \<^verbatim>\<open>internal/observability\<close>.  URL paths are taken as clean (\<^verbatim>\<open>ServeMux\<close> redirects others); the
  embedded files and the scrape of the registry are parameters.
\<close>

subsection \<open>The multiplexer\<close>

datatype segment_pattern = Lit string | Wild string

type_synonym pattern = "string \<times> segment_pattern list"

datatype target = Api route | Healthz | Readyz

definition v1 :: "segment_pattern list \<Rightarrow> segment_pattern list" where
  "v1 ps = Lit ''v1'' # ps"

definition booking_at :: "segment_pattern list \<Rightarrow> segment_pattern list" where
  "booking_at ps = v1 (Lit ''bookings'' # Wild ''booking_id'' # ps)"

definition patterns :: "(pattern \<times> target) list" where
  "patterns =
     [((''POST'', v1 [Lit ''auth'', Lit ''register'']), Api PostRegister), ((''POST'', v1 [Lit ''auth'', Lit ''login'']), Api PostLogin),
      ((''POST'', v1 [Lit ''auth'', Lit ''refresh'']), Api PostRefresh), ((''POST'', v1 [Lit ''auth'', Lit ''logout'']), Api PostLogout),
      ((''POST'', v1 [Lit ''auth'', Lit ''logout-all'']), Api PostLogoutAll),
      ((''GET'', v1 [Lit ''flights'']), Api GetFlights), ((''GET'', v1 [Lit ''flight-instances'', Wild ''id'']), Api GetFlight),
      ((''GET'', v1 [Lit ''flight-instances'', Wild ''id'', Lit ''seats'']), Api GetFlightSeats),
      ((''GET'', v1 [Lit ''bookings'']), Api GetBookings), ((''POST'', v1 [Lit ''quotes'']), Api PostQuotes),
      ((''POST'', v1 [Lit ''bookings'']), Api PostBookings), ((''GET'', booking_at []), Api GetBooking),
      ((''POST'', booking_at [Lit ''passengers'']), Api PostPassenger),
      ((''PATCH'', booking_at [Lit ''passengers'', Wild ''passenger_id'']), Api PatchPassenger),
      ((''POST'', booking_at [Lit ''seat-holds'']), Api PostSeatHolds), ((''DELETE'', booking_at [Lit ''seat-holds'']), Api DeleteSeatHolds),
      ((''POST'', booking_at [Lit ''cancel'']), Api PostCancel), ((''GET'', booking_at [Lit ''seats'']), Api GetSeats),
      ((''POST'', booking_at [Lit ''refunds'']), Api PostRefunds), ((''POST'', booking_at [Lit ''payments'']), Api PostPayments),
      ((''POST'', v1 [Lit ''payment-webhooks'']), Api PostWebhook),
      ((''GET'', [Lit ''healthz'']), Healthz), ((''GET'', [Lit ''readyz'']), Readyz)]"

text \<open>A wildcard takes one segment that is not empty.\<close>

fun match_path :: "segment_pattern list \<Rightarrow> string list \<Rightarrow> (string \<times> string) list option" where
  "match_path [] [] = Some []"
| "match_path (Lit s # ps) (x # xs) = (if s = x then match_path ps xs else None)"
| "match_path (Wild n # ps) (x # xs) = (if x = [] then None else map_option (Cons (n, x)) (match_path ps xs))"
| "match_path _ _ = None"

text \<open>A pattern for \<^verbatim>\<open>GET\<close> also matches \<^verbatim>\<open>HEAD\<close>.\<close>

definition match_pattern :: "string \<Rightarrow> string list \<Rightarrow> pattern \<Rightarrow> (string \<times> string) list option" where
  "match_pattern method path p =
     (if fst p = method \<or> fst p = ''GET'' \<and> method = ''HEAD'' then match_path (snd p) path else None)"

definition path_segments :: "string \<Rightarrow> string list" where
  "path_segments url = split_on CHR ''/'' (trim_prefix ''/'' url)"

definition mux_find :: "request \<Rightarrow> ((pattern \<times> target) \<times> (string \<times> string) list) option" where
  "mux_find r = first_row [(pt, b). pt \<leftarrow> patterns, b \<leftarrow> (case match_pattern (rq_method r) (path_segments (rq_url r)) (fst pt) of None \<Rightarrow> [] | Some b \<Rightarrow> [b])]"

definition path_values :: "(string \<times> string) list \<Rightarrow> string \<Rightarrow> string" where
  "path_values bs n = (case map_of bs n of None \<Rightarrow> [] | Some v \<Rightarrow> v)"

definition writeJSON :: "nat \<Rightarrow> string \<Rightarrow> response" where
  "writeJSON status s = JSON status (JObj [(''status'', JStr s)])"

definition mux :: "api \<Rightarrow> request \<Rightarrow> reply" where
  "mux A r =
     (case mux_find r of
        None \<Rightarrow> answer (Error r 404 ''not_found'' ''Resource not found'')
      | Some ((p, target), bs) \<Rightarrow>
          (case target of
             Api route \<Rightarrow> serve A route (r\<lparr>rq_path := path_values bs\<rparr>)
           | Healthz \<Rightarrow> answer (writeJSON 200 ''ok'')
           | Readyz \<Rightarrow> attempt nop_stmt (\<lambda>_. writeJSON 503 ''unavailable'') (\<lambda>_. answer (writeJSON 200 ''ready''))))"

definition api_handler :: "api \<Rightarrow> handler" where
  "api_handler A r E w = (case mux A r E w of (x, w') \<Rightarrow> (Some x, w'))"

subsection \<open>The pages\<close>

text \<open>\<^verbatim>\<open>path.Ext(file) == ".png" && path.Base(file) == file\<close> for a relative name.\<close>

definition plain_png :: "string \<Rightarrow> bool" where
  "plain_png file \<longleftrightarrow> CHR ''/'' \<notin> set file \<and> file \<noteq> [] \<and> length file \<ge> 4 \<and> drop (length file - 4) file = ''.png''"

definition asset_of :: "string \<Rightarrow> (string \<times> string) option" where
  "asset_of url =
     (let brand = trim_prefix ''/assets/brand/'' url in
      if has_prefix ''/assets/brand/'' url \<and> plain_png brand then Some (''brand/'' @ brand, ''image/png'')
      else if url = ''/'' then Some (''index.html'', ''text/html; charset=utf-8'')
      else if url = ''/assets/app.js'' then Some (''app.js'', ''text/javascript; charset=utf-8'')
      else if url = ''/assets/style.css'' then Some (''style.css'', ''text/css; charset=utf-8'')
      else None)"

definition reading_method :: "string \<Rightarrow> bool" where
  "reading_method m \<longleftrightarrow> m = ''GET'' \<or> m = ''HEAD''"

definition quoted :: "string \<Rightarrow> string" where
  "quoted s = [CHR 0x27] @ s @ [CHR 0x27]"

definition page_headers :: "string \<Rightarrow> (string \<times> string) list" where
  "page_headers content =
     [(''Content-Type'', content), (''Cache-Control'', ''no-store''), (''X-Content-Type-Options'', ''nosniff''),
      (''X-Frame-Options'', ''DENY''), (''Referrer-Policy'', ''no-referrer''),
      (''Content-Security-Policy'', ''default-src '' @ quoted ''none'' @ ''; script-src '' @ quoted ''self'' @ ''; style-src '' @ quoted ''self'' @
         ''; connect-src '' @ quoted ''self'' @ ''; img-src '' @ quoted ''self'' @ '' data:; base-uri '' @ quoted ''none'' @
         ''; form-action '' @ quoted ''self'' @ ''; frame-ancestors '' @ quoted ''none'')]"

definition webui_Handler :: "(string \<Rightarrow> string option) \<Rightarrow> (request \<Rightarrow> reply) \<Rightarrow> request \<Rightarrow> reply" where
  "webui_Handler files next r =
     (case asset_of (rq_url r) of
        None \<Rightarrow> next r
      | Some (name, content) \<Rightarrow>
          if \<not> reading_method (rq_method r) then next r
          else (case files (''assets/'' @ name) of
                  None \<Rightarrow> answer \<lparr>rs_status = 404, rs_headers = [(''Content-Type'', ''text/plain; charset=utf-8''), (''X-Content-Type-Options'', ''nosniff'')],
                            rs_body = Some (JStr ''404 page not found'')\<rparr>
                | Some body \<Rightarrow> answer \<lparr>rs_status = 200, rs_headers = page_headers content,
                            rs_body = (if rq_method r = ''GET'' then Some (JStr body) else None)\<rparr>))"

subsection \<open>Metrics\<close>

text \<open>The labels observed so far, by the counter and by the histogram alike (the durations are left out),
  and the requests in flight.\<close>

record metrics =
  mt_series :: "(string \<times> string \<times> nat) list"
  mt_in_flight :: int

definition method_label :: "string \<Rightarrow> string" where
  "method_label m = (if m \<in> {''GET'', ''HEAD'', ''POST'', ''PUT'', ''PATCH'', ''DELETE'', ''OPTIONS''} then m else ''OTHER'')"

fun pattern_text :: "segment_pattern list \<Rightarrow> string" where
  "pattern_text [] = []"
| "pattern_text (Lit s # ps) = ''/'' @ s @ pattern_text ps"
| "pattern_text (Wild n # ps) = ''/{'' @ n @ ''}'' @ pattern_text ps"

definition route_label :: "request \<Rightarrow> string" where
  "route_label r =
     (if rq_url r \<in> {''/'', ''/assets/app.js'', ''/assets/style.css''} \<and> reading_method (rq_method r) then ''webui''
      else if has_prefix ''/assets/brand/'' (rq_url r) \<and> reading_method (rq_method r) then ''webui''
      else case mux_find r of
        Some ((p, _), _) \<Rightarrow> fst p @ '' '' @ pattern_text (snd p)
      | None \<Rightarrow> ''unmatched'')"

definition Middleware :: "(request \<Rightarrow> reply) \<Rightarrow> request \<Rightarrow> env \<Rightarrow> metrics \<Rightarrow> server world \<Rightarrow> response \<times> metrics \<times> server world" where
  "Middleware next r E m w =
     (let m1 = m\<lparr>mt_in_flight := mt_in_flight m + 1\<rparr> in
      case next r E w of (x, w') \<Rightarrow>
        (x, m1\<lparr>mt_series := mt_series m1 @ [(method_label (rq_method r), route_label r, rs_status x)],
               mt_in_flight := mt_in_flight m1 - 1\<rparr>, w'))"

definition withMetrics :: "response \<Rightarrow> (request \<Rightarrow> reply) \<Rightarrow> request \<Rightarrow> env \<Rightarrow> metrics \<Rightarrow> server world \<Rightarrow> response \<times> metrics \<times> server world" where
  "withMetrics scrape app r E m w =
     (if rq_url r = ''/metrics'' \<and> reading_method (rq_method r) then (scrape, m, w) else Middleware app r E m w)"

text \<open>The handler of the server: metrics around the pages around the middleware around the multiplexer.\<close>

definition server_handler ::
  "api \<Rightarrow> options \<Rightarrow> (string \<Rightarrow> string option) \<Rightarrow> response \<Rightarrow> bool \<Rightarrow> request \<Rightarrow> env \<Rightarrow> metrics \<Rightarrow> server world \<Rightarrow> response \<times> metrics \<times> server world" where
  "server_handler A opts files scrape slow =
     withMetrics scrape (webui_Handler files (New opts (api_handler A) slow))"

end
