(* ===== verification/Startup.thy ===== *)
theory Startup
  imports Serve "HOL-Library.Word"
begin

text \<open>
  What the two programs do before they serve: \<^verbatim>\<open>config.Load\<close> reads and checks the environment,
  \<^verbatim>\<open>NewPostgresPool\<close> sets the limits of the connection pool, \<^verbatim>\<open>NewLogger\<close> redacts secret
  attributes, and \<^verbatim>\<open>observability.Metrics\<close> counts in 64 bits.  The environment is a function; the
  grammars of \<^verbatim>\<open>net/url\<close>, \<^verbatim>\<open>netip.ParsePrefix\<close>, \<^verbatim>\<open>time.ParseDuration\<close> and of the
  connection strings of \<^verbatim>\<open>pgxpool\<close> are the parameters of \<open>config_lib\<close>.
\<close>

subsection \<open>Configuration\<close>

record url =
  url_scheme :: string
  url_host :: string
  url_user :: bool
  url_path :: string
  url_raw_query :: string
  url_fragment :: string
  url_query :: "string \<Rightarrow> string"

record config_lib =
  url_Parse :: "string \<Rightarrow> url option"
  pgx_host :: "string \<Rightarrow> string option"
  ParseDuration :: "string \<Rightarrow> int option"
  ParsePrefix :: "string \<Rightarrow> prefix option"

record config =
  HTTPAddr :: string
  DatabaseURL :: string
  DBMaxConns :: int
  DBMinConns :: int
  Environment :: string
  RequestTimeout :: int
  BodyLimit :: int
  AllowedOrigins :: "string list"
  TrustedProxies :: "prefix list"

type_synonym getenv = "string \<Rightarrow> string"

definition readString :: "getenv \<Rightarrow> string \<Rightarrow> string \<Rightarrow> string" where
  "readString env key fallback = (if env key = [] then fallback else env key)"

text \<open>\<^verbatim>\<open>strconv.ParseInt(raw, 10, 32)\<close> is \<open>ParseInt64\<close> with the bounds of 32 bits.\<close>

definition readInt32 :: "getenv \<Rightarrow> string \<Rightarrow> int \<Rightarrow> string + int" where
  "readInt32 env key fallback =
     (if env key = [] then Inr fallback
      else case ParseInt64 (env key) of
        None \<Rightarrow> Inl (key @ '' must be a positive integer'')
      | Some n \<Rightarrow> if n < - (2 ^ 31) \<or> 2 ^ 31 \<le> n \<or> n < 1 then Inl (key @ '' must be a positive integer'') else Inr n)"

definition origin_ok :: "config_lib \<Rightarrow> string \<Rightarrow> string \<Rightarrow> bool" where
  "origin_ok L environment raw =
     (case url_Parse L raw of None \<Rightarrow> False | Some u \<Rightarrow>
        \<not> (url_host u = [] \<or> url_user u \<or> url_path u \<noteq> [] \<or> url_raw_query u \<noteq> [] \<or> url_fragment u \<noteq> [] \<or>
            url_scheme u \<noteq> ''https'' \<and> (environment = ''production'' \<or> url_scheme u \<noteq> ''http'')))"

definition proxy_of :: "config_lib \<Rightarrow> string \<Rightarrow> prefix option" where
  "proxy_of L raw = (case ParsePrefix L raw of None \<Rightarrow> None | Some p \<Rightarrow> if px_bits p = 0 then None else Some p)"

text \<open>The entries of a comma-separated variable, trimmed, the empty ones skipped.\<close>

definition entries :: "string \<Rightarrow> string list" where
  "entries raw = filter (\<lambda>s. s \<noteq> []) (map TrimSpace (split_on CHR '','' raw))"

definition local_host :: "string \<Rightarrow> bool" where
  "local_host h \<longleftrightarrow> h \<in> {''localhost'', ''127.0.0.1'', ''::1'', ''postgres''}"

definition verified_url :: "config_lib \<Rightarrow> string \<Rightarrow> bool" where
  "verified_url L raw =
     (case url_Parse L raw of None \<Rightarrow> False | Some u \<Rightarrow>
        url_scheme u \<in> {''postgres'', ''postgresql''} \<and> url_query u ''sslmode'' = ''verify-full'' \<and> url_query u ''sslrootcert'' \<noteq> [])"

definition read_timeout :: "config_lib \<Rightarrow> string \<Rightarrow> string + int" where
  "read_timeout L raw =
     (if raw = [] then Inr (10 * second)
      else case ParseDuration L raw of
        None \<Rightarrow> Inl ''REQUEST_TIMEOUT must be between 1s and 30s''
      | Some d \<Rightarrow> if d < second \<or> d > 30 * second then Inl ''REQUEST_TIMEOUT must be between 1s and 30s'' else Inr d)"

definition read_body_limit :: "string \<Rightarrow> string + int" where
  "read_body_limit raw =
     (if raw = [] then Inr (64 * 1024)
      else case ParseInt64 raw of
        None \<Rightarrow> Inl ''REQUEST_BODY_LIMIT must be between 1024 and 1048576''
      | Some n \<Rightarrow> if n < 1024 \<or> n > 1024 * 1024 then Inl ''REQUEST_BODY_LIMIT must be between 1024 and 1048576'' else Inr n)"

definition bind_sum :: "string + 'a \<Rightarrow> ('a \<Rightarrow> string + 'b) \<Rightarrow> string + 'b" where
  "bind_sum x f = (case x of Inl e \<Rightarrow> Inl e | Inr a \<Rightarrow> f a)"

definition check :: "bool \<Rightarrow> string \<Rightarrow> string + 'b \<Rightarrow> string + 'b" where
  "check bad e k = (if bad then Inl e else k)"

definition Load :: "config_lib \<Rightarrow> getenv \<Rightarrow> string + config" where
  "Load L env =
     bind_sum (readInt32 env ''DB_MAX_CONNS'' 20) (\<lambda>most.
     bind_sum (readInt32 env ''DB_MIN_CONNS'' 2) (\<lambda>least.
     let environment = readString env ''APP_ENV'' ''development''; database = env ''DATABASE_URL'' in
     check (database = []) ''DATABASE_URL is required'' (
     check (least > most) ''DB_MIN_CONNS cannot exceed DB_MAX_CONNS'' (
     check (environment \<notin> {''development'', ''test'', ''production''}) ''APP_ENV must be development, test, or production'' (
     bind_sum (read_timeout L (env ''REQUEST_TIMEOUT'')) (\<lambda>timeout.
     bind_sum (read_body_limit (env ''REQUEST_BODY_LIMIT'')) (\<lambda>limit.
     let origins = entries (env ''CORS_ALLOWED_ORIGINS''); proxies = map (proxy_of L) (entries (env ''TRUSTED_PROXY_CIDRS'')) in
     check (list_ex (\<lambda>raw. \<not> origin_ok L environment raw) origins) ''invalid CORS_ALLOWED_ORIGINS'' (
     case those proxies of None \<Rightarrow> Inl ''invalid TRUSTED_PROXY_CIDRS'' | Some trusted \<Rightarrow>
     (case pgx_host L database of None \<Rightarrow> Inl ''invalid DATABASE_URL'' | Some host \<Rightarrow>
       check ((environment = ''production'' \<or> \<not> local_host host) \<and> \<not> verified_url L database)
         ''non-local DATABASE_URL requires sslmode=verify-full and sslrootcert'' (
       Inr \<lparr>HTTPAddr = readString env ''HTTP_ADDR'' '':8080'', DatabaseURL = database, DBMaxConns = most, DBMinConns = least,
         Environment = environment, RequestTimeout = timeout, BodyLimit = limit, AllowedOrigins = origins, TrustedProxies = trusted\<rparr>))))))))))"

text \<open>The options and the trusted proxies \<^verbatim>\<open>cmd/api\<close> builds its server with.\<close>

definition server_options :: "config \<Rightarrow> options" where
  "server_options c = \<lparr>op_body_limit = BodyLimit c, op_origins = AllowedOrigins c\<rparr>"

definition server_api :: "config \<Rightarrow> api \<Rightarrow> api" where
  "server_api c A = A\<lparr>api_limiter := True, api_trusted := TrustedProxies c, api_provider := False, api_secret := []\<rparr>"

subsection \<open>The connection pool\<close>

record pool_config =
  pool_MaxConns :: int
  pool_MinConns :: int
  pool_MaxConnLifetime :: int
  pool_MaxConnIdleTime :: int
  pool_HealthCheckPeriod :: int
  pool_RuntimeParams :: "(string \<times> string) list"

text \<open>The limits set over a parsed connection string.  Connecting and the first ping, which follow, are the
  driver's.\<close>

definition NewPostgresPool :: "config_lib \<Rightarrow> string \<Rightarrow> int \<Rightarrow> int \<Rightarrow> string + pool_config" where
  "NewPostgresPool L databaseURL maxConnections minConnections =
     (if pgx_host L databaseURL = None then Inl ''parse PostgreSQL configuration'' else Inr
     \<lparr>pool_MaxConns = maxConnections, pool_MinConns = minConnections,
      pool_MaxConnLifetime = 30 * minute, pool_MaxConnIdleTime = 5 * minute, pool_HealthCheckPeriod = 30 * second,
      pool_RuntimeParams = [(''application_name'', ''go-airline-booking-api''), (''statement_timeout'', ''5s''),
        (''lock_timeout'', ''1500ms''), (''idle_in_transaction_session_timeout'', ''5s'')]\<rparr>)"

subsection \<open>Logging and counters\<close>

definition secret_keys :: "string list" where
  "secret_keys = [''authorization'', ''cookie'', ''password'', ''password_hash'', ''token'', ''access_token'', ''refresh_token'',
     ''manage_token'', ''travel_document'', ''payment_data'', ''error'']"

text \<open>\<^verbatim>\<open>ReplaceAttr\<close> of \<^verbatim>\<open>NewLogger\<close>, but for the time, which it turns into UTC.\<close>

definition ReplaceAttr :: "string \<times> string \<Rightarrow> string \<times> string" where
  "ReplaceAttr a = (if fst a = ''time'' then a else if ToLower (fst a) \<in> set secret_keys then (fst a, ''[REDACTED]'') else a)"

record counters =
  Requests :: "64 word"
  ServerErrors :: "64 word"
  DurationNanoseconds :: "64 word"

definition ObserveRequest :: "nat \<Rightarrow> int \<Rightarrow> counters \<Rightarrow> counters" where
  "ObserveRequest status duration m =
     m\<lparr>Requests := Requests m + 1,
       ServerErrors := (if status \<ge> 500 then ServerErrors m + 1 else ServerErrors m),
       DurationNanoseconds := DurationNanoseconds m + word_of_int duration\<rparr>"

text \<open>\<^verbatim>\<open>lab.Active\<close>, in the order of the variable: the keys of the map, each once.\<close>

definition lab_Active :: "string \<Rightarrow> string list" where
  "lab_Active raw = remdups (lab_parse raw)"

subsection \<open>What a loaded configuration promises\<close>

lemma bind_sum_Inr: "bind_sum x f = Inr b \<longleftrightarrow> (\<exists>a. x = Inr a \<and> f a = Inr b)"
  by (auto simp: bind_sum_def split: sum.splits)

lemma option_case_Inr: "(case x of None \<Rightarrow> Inl e | Some a \<Rightarrow> f a) = Inr b \<longleftrightarrow> (\<exists>a. x = Some a \<and> f a = Inr b)"
  by (cases x) auto

lemma check_Inr: "check bad e k = Inr b \<longleftrightarrow> \<not> bad \<and> k = Inr b"
  by (simp add: check_def)

lemma readInt32_Inr: "readInt32 env key d = Inr n \<Longrightarrow> 1 \<le> d \<Longrightarrow> d < 2 ^ 31 \<Longrightarrow> 1 \<le> n \<and> n < 2 ^ 31"
  by (auto simp: readInt32_def split: if_splits option.splits)

lemma read_timeout_Inr: "read_timeout L raw = Inr d \<Longrightarrow> second \<le> d \<and> d \<le> 30 * second"
  by (auto simp: read_timeout_def second_def split: if_splits option.splits)

lemma read_body_limit_Inr: "read_body_limit raw = Inr n \<Longrightarrow> 1024 \<le> n \<and> n \<le> 1024 * 1024"
  by (auto simp: read_body_limit_def split: if_splits option.splits)

lemma those_proxies: "those (map (proxy_of L) raws) = Some ps \<Longrightarrow> p \<in> set ps \<Longrightarrow> \<exists>raw \<in> set raws. ParsePrefix L raw = Some p \<and> 0 < px_bits p"
  by (induction raws arbitrary: ps) (auto simp: proxy_of_def split: option.splits if_splits)

text \<open>C39. A configuration that loads is within its bounds: at least one connection and at most
  \<open>2 ^ 31 - 1\<close>, the minimum not above the maximum; a timeout of 1 to 30 seconds; a body limit of 1 KiB
  to 1 MiB, which is the limit the middleware enforces; only bare origins, all of them \<^verbatim>\<open>https\<close> in
  production; no proxy prefix of length 0, which would trust every client's forwarded address; and in
  production, or for a database that is not local, a connection string that demands a verified
  certificate.\<close>

theorem config_bounds:
  assumes "Load L env = Inr c"
  shows "(1 \<le> DBMinConns c \<and> DBMinConns c \<le> DBMaxConns c \<and> DBMaxConns c < 2 ^ 31) \<and>
    (second \<le> RequestTimeout c \<and> RequestTimeout c \<le> 30 * second) \<and>
    (1024 \<le> body_limit (server_options c) \<and> body_limit (server_options c) \<le> 1024 * 1024 \<and>
      int (body_limit (server_options c)) = BodyLimit c) \<and>
    (\<forall>origin \<in> set (op_origins (server_options c)). \<exists>u. url_Parse L origin = Some u \<and> url_host u \<noteq> [] \<and> \<not> url_user u \<and>
      url_path u = [] \<and> url_raw_query u = [] \<and> url_fragment u = [] \<and>
      (url_scheme u = ''https'' \<or> url_scheme u = ''http'' \<and> Environment c \<noteq> ''production'')) \<and>
    (\<forall>p \<in> set (api_trusted (server_api c A)). 0 < px_bits p) \<and>
    Environment c \<in> {''development'', ''test'', ''production''} \<and>
    (Environment c = ''production'' \<or> (\<forall>h. pgx_host L (DatabaseURL c) = Some h \<longrightarrow> \<not> local_host h) \<longrightarrow>
      (\<exists>u. url_Parse L (DatabaseURL c) = Some u \<and> url_scheme u \<in> {''postgres'', ''postgresql''} \<and>
        url_query u ''sslmode'' = ''verify-full'' \<and> url_query u ''sslrootcert'' \<noteq> []))"
proof -
  from assms obtain most least timeout limit trusted host where
      loaded: "readInt32 env ''DB_MAX_CONNS'' 20 = Inr most" "readInt32 env ''DB_MIN_CONNS'' 2 = Inr least" "least \<le> most"
        "read_timeout L (env ''REQUEST_TIMEOUT'') = Inr timeout" "read_body_limit (env ''REQUEST_BODY_LIMIT'') = Inr limit"
        "those (map (proxy_of L) (entries (env ''TRUSTED_PROXY_CIDRS''))) = Some trusted"
        "list_all (origin_ok L (readString env ''APP_ENV'' ''development'')) (entries (env ''CORS_ALLOWED_ORIGINS''))"
        "readString env ''APP_ENV'' ''development'' \<in> {''development'', ''test'', ''production''}"
        "pgx_host L (env ''DATABASE_URL'') = Some host"
        "(readString env ''APP_ENV'' ''development'' = ''production'' \<or> \<not> local_host host) \<longrightarrow> verified_url L (env ''DATABASE_URL'')"
    and c: "c = \<lparr>HTTPAddr = readString env ''HTTP_ADDR'' '':8080'', DatabaseURL = env ''DATABASE_URL'', DBMaxConns = most, DBMinConns = least,
         Environment = readString env ''APP_ENV'' ''development'', RequestTimeout = timeout, BodyLimit = limit,
         AllowedOrigins = entries (env ''CORS_ALLOWED_ORIGINS''), TrustedProxies = trusted\<rparr>"
    unfolding Load_def bind_sum_Inr check_Inr Let_def option_case_Inr
    by (elim exE conjE) (auto simp: check_Inr not_less list_ex_iff list_all_iff simp del: insert_iff)
  note num = readInt32_Inr [OF loaded(1)] readInt32_Inr [OF loaded(2)] read_timeout_Inr [OF loaded(4)] read_body_limit_Inr [OF loaded(5)]
  have "\<forall>origin \<in> set (op_origins (server_options c)). \<exists>u. url_Parse L origin = Some u \<and> url_host u \<noteq> [] \<and> \<not> url_user u \<and>
      url_path u = [] \<and> url_raw_query u = [] \<and> url_fragment u = [] \<and>
      (url_scheme u = ''https'' \<or> url_scheme u = ''http'' \<and> Environment c \<noteq> ''production'')"
    using loaded(7) by (auto simp: c server_options_def list_all_iff origin_ok_def split: option.splits)
  moreover have "\<exists>u. url_Parse L (DatabaseURL c) = Some u \<and> url_scheme u \<in> {''postgres'', ''postgresql''} \<and>
      url_query u ''sslmode'' = ''verify-full'' \<and> url_query u ''sslrootcert'' \<noteq> []"
    if "Environment c = ''production'' \<or> (\<forall>h. pgx_host L (DatabaseURL c) = Some h \<longrightarrow> \<not> local_host h)"
    using loaded(9,10) that by (auto simp: c verified_url_def split: option.splits)
  moreover have "1 \<le> DBMinConns c \<and> DBMinConns c \<le> DBMaxConns c \<and> DBMaxConns c < 2 ^ 31"
    "second \<le> RequestTimeout c \<and> RequestTimeout c \<le> 30 * second" "Environment c \<in> {''development'', ''test'', ''production''}"
    using num loaded(3,8) by (simp_all add: c)
  moreover have "1024 \<le> body_limit (server_options c) \<and> body_limit (server_options c) \<le> 1024 * 1024 \<and>
      int (body_limit (server_options c)) = BodyLimit c" using num by (simp add: c body_limit_def server_options_def) linarith
  moreover have "\<forall>p \<in> set (api_trusted (server_api c A)). 0 < px_bits p"
    using those_proxies [OF loaded(6)] by (auto simp: c server_api_def)
  ultimately show ?thesis by blast
qed

definition demo_config_lib :: config_lib where
  "demo_config_lib = \<lparr>url_Parse = (\<lambda>s. Some \<lparr>url_scheme = take 5 s, url_host = drop 8 s, url_user = False, url_path = [], url_raw_query = [],
     url_fragment = [], url_query = (\<lambda>_. [])\<rparr>), pgx_host = (\<lambda>s. Some s), ParseDuration = (\<lambda>_. None),
     ParsePrefix = (\<lambda>s. if s = ''p'' then Some \<lparr>px_addr = V4 0, px_bits = 8\<rparr> else None)\<rparr>"

definition demo_getenv :: getenv where
  "demo_getenv key = (if key = ''DATABASE_URL'' then ''localhost'' else if key = ''CORS_ALLOWED_ORIGINS'' then '' https://a.b,,''
     else if key = ''TRUSTED_PROXY_CIDRS'' then ''p'' else if key = ''REQUEST_BODY_LIMIT'' then ''2000'' else [])"

lemma demo_load_facts:
  "case Load demo_config_lib demo_getenv of Inr c \<Rightarrow> AllowedOrigins c = [''https://a.b''] \<and> TrustedProxies c \<noteq> [] \<and> BodyLimit c = 2000 | Inl _ \<Rightarrow> False"
  by code_simp

theorem config_bounds_witness:
  "\<exists>c. Load demo_config_lib demo_getenv = Inr c \<and> body_limit (server_options c) \<ge> 1024 \<and> (\<forall>p \<in> set (api_trusted (server_api c undefined)). 0 < px_bits p)"
proof -
  from demo_load_facts obtain c where c: "Load demo_config_lib demo_getenv = Inr c" by (auto split: sum.splits)
  with config_bounds [OF c, of undefined] show ?thesis by blast
qed

end
