(* ===== verification/EdgeProps.thy ===== *)
theory EdgeProps
  imports HttpRun Startup Demo
begin

text \<open>The properties of the edge of the server: the rate limiter as a fixed-window limiter, the client
  address behind proxies, and requests from other origins.\<close>

subsection \<open>Windows\<close>

text \<open>A log of a limiter for one key: the window of each call and its answer, in order; between the calls
  the rest of the system may do anything of \<open>other\<close>.\<close>

inductive limiter_log :: "('s \<Rightarrow> int \<Rightarrow> bool \<Rightarrow> 's \<Rightarrow> bool) \<Rightarrow> ('s \<Rightarrow> 's \<Rightarrow> bool) \<Rightarrow> 's \<Rightarrow> (int \<times> bool) list \<Rightarrow> 's \<Rightarrow> bool"
  for allow other s0 where
  log_start: "limiter_log allow other s0 [] s0"
| log_call: "limiter_log allow other s0 log s \<Longrightarrow> allow s v a s' \<Longrightarrow> limiter_log allow other s0 (log @ [(v, a)]) s'"
| log_other: "limiter_log allow other s0 log s \<Longrightarrow> other s s' \<Longrightarrow> limiter_log allow other s0 log s'"

definition answers_of :: "int \<Rightarrow> (int \<times> bool) list \<Rightarrow> bool list" where
  "answers_of v log = map snd (filter (\<lambda>x. fst x = v) log)"

text \<open>What a limiter promises of its count: it answers by the count so far, counts every call in the
  window of the call alone, up to one more than the quota, and nobody else changes the count.\<close>

locale window_limiter =
  fixes allow :: "'s \<Rightarrow> int \<Rightarrow> bool \<Rightarrow> 's \<Rightarrow> bool" and other :: "'s \<Rightarrow> 's \<Rightarrow> bool"
    and counted :: "'s \<Rightarrow> int \<Rightarrow> nat" and valid :: "'s \<Rightarrow> bool" and quota :: nat
  assumes answers: "valid s \<Longrightarrow> allow s v a s' \<Longrightarrow> a \<longleftrightarrow> counted s v < quota"
    and counts: "valid s \<Longrightarrow> allow s v a s' \<Longrightarrow> counted s' u = (if u = v then min (Suc (counted s v)) (Suc quota) else counted s u)"
    and allow_valid: "valid s \<Longrightarrow> allow s v a s' \<Longrightarrow> valid s'"
    and other_valid: "valid s \<Longrightarrow> other s s' \<Longrightarrow> valid s' \<and> counted s' = counted s"
begin

lemma log_counts:
  assumes "limiter_log allow other s0 log s" and "valid s0" and "counted s0 = (\<lambda>_. 0)"
  shows "valid s \<and> counted s v = min (length (answers_of v log)) (Suc quota) \<and>
    answers_of v log = map (\<lambda>i. i < quota) [0..<length (answers_of v log)]"
  using assms
proof (induction rule: limiter_log.induct)
  case log_start
  then show ?case by (simp add: answers_of_def)
next
  case (log_call log s u a s')
  let ?n = "length (answers_of v log)"
  from log_call have IH: "valid s" "counted s v = min ?n (Suc quota)" "answers_of v log = map (\<lambda>i. i < quota) [0..<?n]" by auto
  note step = counts [OF IH(1) log_call.hyps(2), of v] answers [OF IH(1) log_call.hyps(2)]
  show ?case
  proof (cases "u = v")
    case False
    then show ?thesis using IH step allow_valid [OF IH(1) log_call.hyps(2)] by (simp add: answers_of_def)
  next
    case True
    have new: "answers_of v (log @ [(u, a)]) = answers_of v log @ [a]" by (simp add: answers_of_def True)
    have "a \<longleftrightarrow> ?n < quota" using step(2) IH(2) True by auto
    moreover have "map (\<lambda>i. i < quota) [0..<Suc ?n] = map (\<lambda>i. i < quota) [0..<?n] @ [?n < quota]" by simp
    moreover have "counted s' v = min (Suc ?n) (Suc quota)" using step(1) IH(2) True by auto
    ultimately show ?thesis unfolding new using IH(3) allow_valid [OF IH(1) log_call.hyps(2)] by simp
  qed
next
  case (log_other log s s')
  then show ?case using other_valid by metis
qed

end

text \<open>The limiter over PostgreSQL: one caller with its key, quota and window, among callers with other
  keys and statements that do not touch the buckets.\<close>

definition allow_step :: "env \<Rightarrow> string \<Rightarrow> int \<Rightarrow> int \<Rightarrow> bucket list world \<Rightarrow> int \<Rightarrow> bool \<Rightarrow> bucket list world \<Rightarrow> bool" where
  "allow_step E key limit window w v a w' \<longleftrightarrow> v = window_start window (clock E (pc w)) \<and> Allow key limit window E w = (Inr a, w')"

definition other_step :: "env \<Rightarrow> string \<Rightarrow> int \<Rightarrow> int \<Rightarrow> bucket list world \<Rightarrow> bucket list world \<Rightarrow> bool" where
  "other_step E key limit window w w' \<longleftrightarrow> db w' = db w \<or> (\<exists>e. Allow key limit window E w = (Inl e, w')) \<or>
     (\<exists>key2 limit2 window2 r. sha256 E key2 \<noteq> sha256 E key \<and> Allow key2 limit2 window2 E w = (r, w'))"

definition counted_in :: "env \<Rightarrow> string \<Rightarrow> bucket list world \<Rightarrow> int \<Rightarrow> nat" where
  "counted_in E key w v = (case find_row (\<lambda>b. bk_key b = sha256 E key \<and> bk_window b = v) (db w) of None \<Rightarrow> 0 | Some b \<Rightarrow> nat (bk_requests b))"

definition buckets_ok :: "bucket list world \<Rightarrow> bool" where
  "buckets_ok w \<longleftrightarrow> (\<forall>b \<in> set (db w). 0 < bk_requests b)"

lemma find_update:
  "find_row P (update_where P f xs) = map_option f (find_row P xs)" if "\<And>x. P (f x) = P x"
  by (induction xs) (auto simp: that update_where_Cons find_row_Cons)

lemma find_update_other:
  "find_row Q (update_where P f xs) = find_row Q xs" if "\<And>x. P x \<Longrightarrow> \<not> Q x \<and> \<not> Q (f x)"
  by (induction xs) (use that in \<open>auto simp: update_where_Cons find_row_Cons\<close>)

lemma find_append_other: "\<not> Q x \<Longrightarrow> find_row Q (xs @ [x]) = find_row Q xs"
  by (induction xs) (auto simp: find_row_Cons)

lemma find_append_new: "find_row Q xs = None \<Longrightarrow> Q x \<Longrightarrow> find_row Q (xs @ [x]) = Some x"
  by (induction xs) (auto simp: find_row_Cons split: if_splits)

lemma count_request_ok:
  assumes "\<forall>b \<in> set bs. 0 < bk_requests b" and "count_request h win limit bs = Inr (n, bs')"
  shows "(\<forall>b \<in> set bs'. 0 < bk_requests b) \<and>
    find_row (\<lambda>b. bk_key b = h2 \<and> bk_window b = win2) bs' =
      (if h2 = h \<and> win2 = win then
         (case find_row (\<lambda>b. bk_key b = h \<and> bk_window b = win) bs of None \<Rightarrow> Some \<lparr>bk_key = h, bk_window = win, bk_requests = 1\<rparr>
          | Some b \<Rightarrow> Some (b\<lparr>bk_requests := min (bk_requests b + 1) (limit + 1)\<rparr>))
       else find_row (\<lambda>b. bk_key b = h2 \<and> bk_window b = win2) bs) \<and>
    n = (case find_row (\<lambda>b. bk_key b = h \<and> bk_window b = win) bs of None \<Rightarrow> 1 | Some b \<Rightarrow> min (bk_requests b + 1) (limit + 1)) \<and> 0 < n"
proof (cases "find_row (\<lambda>b. bk_key b = h \<and> bk_window b = win) bs")
  case None
  with assms(2) have "n = 1" "bs' = bs @ [\<lparr>bk_key = h, bk_window = win, bk_requests = 1\<rparr>]"
    by (auto simp: count_request_def Let_def split: if_splits)
  then show ?thesis using None assms(1) by (auto simp: find_append_other find_append_new)
next
  case (Some b)
  with assms(2) have n: "n = min (bk_requests b + 1) (limit + 1)" "0 < n"
    and bs': "bs' = update_where (\<lambda>b. bk_key b = h \<and> bk_window b = win) (\<lambda>b. b\<lparr>bk_requests := n\<rparr>) bs"
    by (auto simp: count_request_def Let_def guarded_Inr split: if_splits)
  have "\<forall>b \<in> set bs'. 0 < bk_requests b" using assms(1) n(2) by (auto simp: bs' set_update_where)
  moreover have "find_row (\<lambda>b. bk_key b = h2 \<and> bk_window b = win2) bs' = find_row (\<lambda>b. bk_key b = h2 \<and> bk_window b = win2) bs"
    if "\<not> (h2 = h \<and> win2 = win)" unfolding bs' by (rule find_update_other) (use that in auto)
  moreover have "find_row (\<lambda>b. bk_key b = h \<and> bk_window b = win) bs' = Some (b\<lparr>bk_requests := n\<rparr>)"
    unfolding bs' by (subst find_update) (simp_all add: Some)
  ultimately show ?thesis using n Some by simp
qed

lemma Allow_cases:
  assumes "Allow key limit window E w = (r, w')"
  obtains (failed) e where "r = Inl e" "db w' = db w"
  | (counted) n bs where "count_request (sha256 E key) (window_start window (clock E (pc w))) limit (db w) = Inr (n, bs)"
      "r = Inr (n \<le> limit)" "db w' = bs"
  using assms by (auto simp: Allow_def andthen_def stmt_def Let_def ret_def split: option.splits sum.splits prod.splits)

interpretation pg: window_limiter "allow_step E key limit window" "other_step E key limit window" "counted_in E key" buckets_ok "nat limit"
  for E key limit window
proof
  fix s v a s' u
  assume ok: "buckets_ok s" and step: "allow_step E key limit window s v a s'"
  let ?h = "sha256 E key"
  from step obtain n bs where r: "count_request ?h v limit (db s) = Inr (n, bs)" "a = (n \<le> limit)" "db s' = bs"
    unfolding allow_step_def by (auto elim: Allow_cases)
  have pos: "\<forall>b \<in> set (db s). 0 < bk_requests b" using ok by (simp add: buckets_ok_def)
  note c = count_request_ok [OF pos r(1)]
  have one: "bk_requests b > 0" if "find_row (\<lambda>b. bk_key b = ?h \<and> bk_window b = v) (db s) = Some b" for b
    using find_row_SomeD [OF that] pos by blast
  show "a \<longleftrightarrow> counted_in E key s v < nat limit"
    using c [of ?h v] r(2) one by (auto simp: counted_in_def split: option.splits)
  show "counted_in E key s' u = (if u = v then min (Suc (counted_in E key s v)) (Suc (nat limit)) else counted_in E key s u)"
    using c [of ?h u] r(3) one by (auto simp: counted_in_def split: option.splits)
  show "buckets_ok s'" using c [of ?h v] r(3) by (simp add: buckets_ok_def)
next
  fix s s'
  assume ok: "buckets_ok s" and step: "other_step E key limit window s s'"
  have pos: "\<forall>b \<in> set (db s). 0 < bk_requests b" using ok by (simp add: buckets_ok_def)
  have same: "buckets_ok s' \<and> counted_in E key s' = counted_in E key s" if "db s' = db s" using that ok by (simp add: buckets_ok_def counted_in_def fun_eq_iff)
  from step consider "db s' = db s" | e where "Allow key limit window E s = (Inl e, s')"
    | key2 limit2 window2 r where "sha256 E key2 \<noteq> sha256 E key" "Allow key2 limit2 window2 E s = (r, s')"
    unfolding other_step_def by blast
  then show "buckets_ok s' \<and> counted_in E key s' = counted_in E key s"
  proof cases
    case 3
    from 3(2) show ?thesis
    proof (cases rule: Allow_cases)
      case (counted n bs)
      from count_request_ok [OF pos counted(1), of "sha256 E key"] 3(1) counted(3) show ?thesis
        by (auto simp: buckets_ok_def counted_in_def fun_eq_iff)
    qed (use same in simp)
  next
    case 2
    then show ?thesis by (rule Allow_cases) (use same in auto)
  qed (use same in simp)
qed

text \<open>C15. The limiter grants exactly the quota: in every window, in which nothing of the key was counted
  before, the first \<open>limit\<close> answered calls of a key are allowed and all later ones refused, however the
  calls are interleaved with other keys, failing statements and other windows.\<close>

theorem rate_limit_exact:
  assumes "limiter_log (allow_step E key limit window) (other_step E key limit window) w log w'"
    and "\<forall>b \<in> set (db w). 0 < bk_requests b \<and> bk_key b \<noteq> sha256 E key"
  shows "answers_of v log = map (\<lambda>i. i < nat limit) [0..<length (answers_of v log)] \<and>
    length (filter id (answers_of v log)) \<le> nat limit"
proof -
  have ok: "buckets_ok w" using assms(2) by (simp add: buckets_ok_def)
  have "find_row (\<lambda>b. bk_key b = sha256 E key \<and> bk_window b = u) (db w) = None" for u
    using assms(2) by (auto simp: find_row_None_iff)
  then have none: "counted_in E key w = (\<lambda>_. 0)" by (simp add: counted_in_def fun_eq_iff)
  have log: "answers_of v log = map (\<lambda>i. i < nat limit) [0..<length (answers_of v log)]"
    using pg.log_counts [OF assms(1) ok none] by blast
  have "length (filter id (map (\<lambda>i. i < q) [0..<n])) = min n q" for q n :: nat
    by (induction n) auto
  then have "length (filter id (answers_of v log)) \<le> nat limit" by (subst log) simp
  with log show ?thesis by blast
qed

definition demo_long :: env where
  "demo_long = demo_env\<lparr>sha256 := (\<lambda>s. take 32 (s @ replicate 32 (CHR ''.'')))\<rparr>"

definition demo_allow :: "bucket list world \<Rightarrow> bucket list world" where
  "demo_allow w = snd (Allow ''k'' 1 60 demo_long w)"

lemma demo_allow_facts:
  "fst (Allow ''k'' 1 60 demo_long (demo_world [])) = Inr True \<and>
   fst (Allow ''k'' 1 60 demo_long (demo_allow (demo_world []))) = Inr False \<and>
   window_start 60 (clock demo_long 0) = 960 \<and> window_start 60 (clock demo_long 1) = 960 \<and> pc (demo_allow (demo_world [])) = 1"
  by code_simp

theorem rate_limit_exact_witness:
  "answers_of 960 [(960, True), (960, False)] = map (\<lambda>i. i < nat 1) [0..<2]"
proof -
  let ?log = "limiter_log (allow_step demo_long ''k'' 1 60) (other_step demo_long ''k'' 1 60) (demo_world [])"
  have 1: "?log [] (demo_world [])" by (rule log_start)
  have a: "allow_step demo_long ''k'' 1 60 (demo_world []) 960 True (demo_allow (demo_world []))"
    using demo_allow_facts by (auto simp: allow_step_def demo_allow_def demo_world_def prod_eq_iff)
  have b: "allow_step demo_long ''k'' 1 60 (demo_allow (demo_world [])) 960 False (demo_allow (demo_allow (demo_world [])))"
    using demo_allow_facts by (auto simp: allow_step_def demo_allow_def prod_eq_iff)
  have "?log ([] @ [(960, True)] @ [(960, False)]) (demo_allow (demo_allow (demo_world [])))"
    using log_call [OF log_call [OF 1 a] b] by simp
  from rate_limit_exact [OF this, of 960] show ?thesis by (simp add: demo_world_def answers_of_def numeral_2_eq_2)
qed

subsection \<open>The client address\<close>

lemma split_on_nonempty: "split_on c xs \<noteq> []"
  by (induction xs) (auto split: list.splits)

lemma split_on_append: "split_on c (xs @ c # ys) = split_on c xs @ split_on c ys"
  using split_on_nonempty by (induction xs) (auto split: list.splits)

lemma walk_untrusted: "\<not> trusted_by trusted current \<Longrightarrow> walk L trusted peer current chain = current"
  by (cases chain) auto

lemma walk_stops:
  assumes "\<not> trusted_by trusted (walk L trusted peer current chain)" and "trusted_by trusted peer"
  shows "walk L trusted peer current (chain @ rest) = walk L trusted peer current chain"
  using assms by (induction chain arbitrary: current) (auto simp: walk_untrusted split: option.splits)


definition demo_http :: http_lib where
  "demo_http = \<lparr>scan_json = (\<lambda>s. if s = ''{}'' then Doc (JObj []) [] else Malformed),
     media_type = (\<lambda>s. Some s), parse_addr = (\<lambda>s. if s = ''c'' then Some (V4 7) else if s = ''p'' then Some (V4 2) else None),
     parse_peer = (\<lambda>s. Some (V4 1)), addr_text = (\<lambda>a. case a of V4 x \<Rightarrow> if x = 7 then ''client'' else ''other'' | V6 x z \<Rightarrow> ''other''),
     parse_time = (\<lambda>_. None)\<rparr>"

definition demo_call :: "string \<Rightarrow> string \<Rightarrow> string \<Rightarrow> request" where
  "demo_call method url authorization = \<lparr>rq_id = [], rq_method = method, rq_authorization = authorization, rq_key = ''0123456789abcdef'',
     rq_content_type = ''application/json'', rq_origin = [], rq_tls = False, rq_host = ''h'', rq_remote = ''r'', rq_forwarded = [],
     rq_timestamp = [], rq_signature = [], rq_url = url, rq_path = (\<lambda>_. []), rq_query = (\<lambda>_. []), rq_body = ''{}'', rq_limit = None\<rparr>"

definition demo_options :: options where
  "demo_options = \<lparr>op_body_limit = 64, op_origins = [''https://app.test'']\<rparr>"

definition demo_trusted :: "prefix list" where
  "demo_trusted = [\<lparr>px_addr = V4 0, px_bits = 30\<rparr>]"

text \<open>The client 7 reached the proxy 2, and that the trusted peer 1; it claims to be \<open>p\<close>.\<close>

lemma demo_chain_facts:
  "\<not> trusted_by demo_trusted (walk demo_http demo_trusted (Unmap (V4 1)) (Unmap (V4 1)) (rev (split_on CHR '','' ''c,p''))) \<and>
   length (split_on CHR '','' (''p'' @ CHR '','' # ''c,p'')) \<le> 16 \<and>
   ClientIP demo_http demo_trusted ((demo_call [] [] [])\<lparr>rq_forwarded := ''c,p''\<rparr>) = ''client''"
  by code_simp


subsection \<open>Other origins\<close>

text \<open>The origins a browser may call the API from: the server's own and the configured ones.\<close>

definition origin_granted :: "options \<Rightarrow> request \<Rightarrow> bool" where
  "origin_granted opts r \<longleftrightarrow> rq_origin r = (if rq_tls r then ''https'' else ''http'') @ ''://'' @ rq_host r \<or> rq_origin r \<in> set (op_origins opts)"

text \<open>C37. A request that names another origin reaches no handler: its response does not depend on the
  handler, it is a refusal (403, or 503 without entropy or after the timeout) that grants the origin
  nothing, and the stores are what they were.  A preflight of any origin reaches no handler either.\<close>

theorem foreign_origin_stopped:
  assumes "rq_origin r \<noteq> []" and "\<not> origin_granted opts r \<or> rq_method r = ''OPTIONS''"
  shows "New opts next slow r E w = New opts next2 slow r E w \<and> db (snd (New opts next slow r E w)) = db w \<and>
    (\<not> origin_granted opts r \<longrightarrow> rs_status (fst (New opts next slow r E w)) \<in> {403, 503} \<and>
       ''Access-Control-Allow-Origin'' \<notin> fst ` set (rs_headers (fst (New opts next slow r E w))))"
proof (cases "draw_bytes 16 E w")
  case (Pair x w1)
  have w1: "db w1 = db w" using Pair by (auto simp: draw_bytes_def)
  note defs = New_def Pair inner_def Let_def origin_granted_def Error_def JSON_def with_headers_def security_headers_def timeout_response_def no_content_def
  show ?thesis
  proof (cases x)
    case (Inl e)
    then show ?thesis using w1 by (simp add: defs)
  next
    case (Inr raw)
    show ?thesis
    proof (cases "origin_granted opts r")
      case True
      with assms Inr w1 show ?thesis by (auto simp: defs)
    next
      case False
      with assms(1) Inr w1 show ?thesis by (auto simp: defs)
    qed
  qed
qed

lemma demo_foreign: "\<not> origin_granted demo_options ((demo_call ''POST'' ''/v1/quotes'' [])\<lparr>rq_origin := ''http://evil.test''\<rparr>)"
  by code_simp

theorem foreign_origin_stopped_witness:
  "rs_status (fst (New demo_options (\<lambda>r E w. (None, w)) False ((demo_call ''POST'' ''/v1/quotes'' [])\<lparr>rq_origin := ''http://evil.test''\<rparr>)
     demo_env (demo_world undefined))) \<in> {403, 503}"
  using foreign_origin_stopped [of "(demo_call ''POST'' ''/v1/quotes'' [])\<lparr>rq_origin := ''http://evil.test''\<rparr>" demo_options
      "\<lambda>r E w. (None, w)" False demo_env "demo_world undefined" "\<lambda>r E w. (None, w)"] demo_foreign
  by simp

end
