(* ===== verification/HttpProps.thy ===== *)
theory HttpProps
  imports EdgeProps AuthProps DemoLedger
begin

text \<open>The properties of the HTTP server: what every response looks like, who reaches the handlers, that
  errors write nothing, and the bounded metrics.\<close>

subsection \<open>A demo server\<close>

definition demo_api :: api where
  "demo_api = \<lparr>api_auth = demo_lib, api_http = demo_http, api_limiter = True, api_trusted = [\<lparr>px_addr = V4 0, px_bits = 30\<rparr>],
     api_hashing = 0, api_catalogue = \<lparr>airports = [], services = [], service_of = (\<lambda>_. 0), arrival_of = (\<lambda>_. 0), fare_code_of = (\<lambda>_. [])\<rparr>,
     api_store = NewStore, api_provider = False, api_secret = [], api_mac = (\<lambda>_ s. s)\<rparr>"

definition demo_server :: "database \<Rightarrow> server world" where
  "demo_server d = demo_world \<lparr>srv_auth = demo_accounts, srv_data = d, srv_buckets = []\<rparr>"

definition demo_serve :: "request \<Rightarrow> response \<times> server world" where
  "demo_serve r = New demo_options (api_handler demo_api) False r demo_auth (demo_server (demo_held B_HELD (2000 * second)))"

definition demo_cancel :: request where
  "demo_cancel = demo_call ''POST'' (''/v1/bookings/'' @ demo_text 22 @ ''/cancel'') (''Bearer '' @ demo_token (CHR ''Q''))"

text \<open>User 1 tries to cancel the booking of user 21.\<close>

lemma demo_cancel_facts: "rs_status (fst (demo_serve demo_cancel)) = 404"
  by code_simp

subsection \<open>Responses\<close>

definition not_ready :: "response \<Rightarrow> bool" where
  "not_ready x \<longleftrightarrow> rs_status x = 503 \<and> rs_body x = Some (JObj [(''status'', JStr ''unavailable'')])"

lemma not_ready_headers [simp]: "not_ready (with_headers hs x) = not_ready x"
  by (simp add: not_ready_def with_headers_def)

lemma mux_typed: "well_typed (fst (mux A r E w)) \<or> not_ready (fst (mux A r E w))"
proof (cases "mux_find r")
  case None
  then show ?thesis by (simp add: mux_def answer_def)
next
  case (Some q)
  obtain p target bs where q: "q = ((p, target), bs)" by (metis prod.collapse)
  show ?thesis
  proof (cases target)
    case (Api route)
    with typed_serve [of A route "r\<lparr>rq_path := path_values bs\<rparr>"] Some q show ?thesis by (simp add: mux_def typed_def)
  qed (use Some q in \<open>auto simp: mux_def answer_def attempt_def writeJSON_def not_ready_def JSON_def well_typed_def split: prod.splits sum.splits\<close>)
qed

lemma inner_typed:
  "well_typed (fst (inner opts (api_handler A) r E w)) \<or> not_ready (fst (inner opts (api_handler A) r E w))"
proof -
  have run: "well_typed (with_headers hs (fst (mux A r' E w))) \<or> not_ready (with_headers hs (fst (mux A r' E w)))" for hs r'
    using mux_typed [of A r' E w] by simp
  then show ?thesis
    by (auto simp: inner_def Let_def recovered_def api_handler_def split: prod.splits) (metis fst_conv)+
qed

lemma New_typed: "well_typed (fst (New opts (api_handler A) slow r E w)) \<or> not_ready (fst (New opts (api_handler A) slow r E w))"
proof -
  have "well_typed timeout_response"
    by (auto simp: well_typed_def timeout_response_def error_object_def)
  then show ?thesis using inner_typed [of opts A]
    by (auto simp: New_def Let_def split: prod.splits sum.splits) (metis fst_conv)+
qed



lemma careful_probe: "careful (attempt nop_stmt g (\<lambda>_. answer x))"
  by (rule careful_keeps) (auto simp: nop_stmt_def stmt_Inr stmt_def Let_def careful_answer split: option.splits)

lemma careful_mux: "careful (mux A r)"
  unfolding mux_def
  by (auto intro!: careful_answer careful_serve careful_probe split: option.splits prod.splits target.splits)



subsection \<open>Who reaches the handlers\<close>

definition protected :: "route \<Rightarrow> bool" where
  "protected route \<longleftrightarrow> route \<notin> {PostRegister, PostLogin, PostRefresh, GetFlights, GetFlight, GetFlightSeats, PostWebhook}"

definition bearer :: "request \<Rightarrow> string" where
  "bearer r = trim_prefix ''Bearer '' (rq_authorization r)"

definition live_token :: "env \<Rightarrow> string \<Rightarrow> ts \<Rightarrow> auth_db \<Rightarrow> bool" where
  "live_token E v t d \<longleftrightarrow> (\<exists>h x a. tokenHash E v = Some h \<and> live_access h t d x a)"

lemma protected_requires:
  assumes "protected route"
  shows "\<exists>k. serve A route r = Require r k"
  using assms
  by (cases route) (auto simp: protected_def logout_handler_def list_bookings_def create_quote_def mutation_def create_booking_def
      get_booking_def save_passenger_def hold_handler_def release_booking_def list_seats_def payment_checks_def request_refund_def
      start_payment_def)

lemma failure_unauthorized: "rs_status (failure r AuthErrUnauthorized) = 401"
  by (simp add: failure_def Error_def JSON_def)

lemma failure_fault: "rs_status (failure r (fault_error y)) = 500"
  by (cases y) (simp_all add: failure_def Error_def JSON_def)

lemma Authenticate_Inl:
  assumes "Authenticate v E w = (Inl e, w')"
  shows "e = AuthErrUnauthorized \<and> (fault E (pc w) = None \<or> tokenHash E v = None) \<or>
    tokenHash E v \<noteq> None \<and> (\<exists>y. fault E (pc w) = Some y \<and> e = fault_error y)"
  using assms by (auto simp: Authenticate_def andthen_def reading_def select_def stmt_def Let_def ret_def fail_def split: option.splits prod.splits sum.splits)

text \<open>C9. The protected routes need a live session: unless the request carries the access token of an
  unrevoked, unexpired session of an active account, the response is 401 (or 500 if the database
  failed) and the server, accounts, bookings and rate limits alike, is unchanged.\<close>

theorem protected_needs_token:
  assumes "protected route" and run: "serve A route r E w = (x, w')"
  shows "(has_prefix ''Bearer '' (rq_authorization r) \<and> live_token E (bearer r) (clock E (pc w)) (srv_auth (db w))) \<or>
    (db w' = db w \<and> rs_status x = (if fault E (pc w) \<noteq> None \<and> has_prefix ''Bearer '' (rq_authorization r) \<and> tokenHash E (bearer r) \<noteq> None then 500 else 401))"
proof -
  from protected_requires [OF assms(1)] obtain k where k: "serve A route r = Require r k" by blast
  show ?thesis
  proof (cases "has_prefix ''Bearer '' (rq_authorization r)")
    case False
    with run k have "x = Error r 401 ''unauthenticated'' ''Authentication required''" "w' = w" by (simp_all add: Require_def answer_def)
    with False show ?thesis by (simp add: Error_def JSON_def)
  next
    case True
    obtain q w1 where q: "on_auth (Authenticate (bearer r)) E w = (q, w1)" by fastforce
    from on_auth_run [OF q] obtain v where v: "Authenticate (bearer r) E (auth_world w) = (q, v)" "db w1 = (db w)\<lparr>srv_auth := db v\<rparr>" by blast
    show ?thesis
    proof (cases q)
      case (Inl e)
      with q run k True have x: "x = failure r e" "w' = w1" by (simp_all add: Require_def attempt_def bearer_def)
      from Authenticate_db [OF v(1)] v(2) have "db w' = db w" by (simp add: x(2))
      moreover from Authenticate_Inl [OF v(1) [unfolded Inl]]
      have "rs_status (failure r e) = (if fault E (pc w) \<noteq> None \<and> tokenHash E (bearer r) \<noteq> None then 500 else 401)"
        by (auto simp: failure_unauthorized failure_fault)
      ultimately show ?thesis using True x(1) by simp
    next
      case (Inr p)
      from v(1) [unfolded Inr] have "live_token E (bearer r) (clock E (pc w)) (srv_auth (db w))"
        by (rule Authenticate_Inr) (auto simp: live_token_def)
      with True show ?thesis by blast
    qed
  qed
qed

theorem protected_needs_token_witness:
  "rs_status (fst (serve demo_api GetBookings (demo_call ''GET'' ''/v1/bookings'' ''Basic x'') demo_auth (demo_server demo_db))) = 401"
proof -
  have p: "protected GetBookings" by (simp add: protected_def)
  have n: "\<not> has_prefix ''Bearer '' (rq_authorization (demo_call ''GET'' ''/v1/bookings'' ''Basic x''))"
    by (simp add: demo_call_def has_prefix_def)
  from protected_needs_token [OF p prod.collapse [symmetric], where A = demo_api and r = "demo_call ''GET'' ''/v1/bookings'' ''Basic x''" and E = demo_auth and w = "demo_server demo_db"] n
  show ?thesis by simp
qed

lemma Get_owned:
  assumes "Get user i E w = (Inr v, w')"
  shows "\<exists>b \<in> set (bookings (db w)). b_id b = uuid_of E i \<and> b_user b = Some (uuid_of E user) \<and> dt_summary v = summary_of E b \<and> validate_UUID E user"
  using assms
  by (auto simp: Get_def andthen_Inr reading_Inr run_simps owned_booking_def split: if_splits option.splits prod.splits dest!: find_row_SomeD)

text \<open>C10. A booking is shown only to its owner: a response of 200 to \<^verbatim>\<open>GET /v1/bookings/{booking_id}\<close> means that
  the token of the request is of an active account and that the booking of the path is of that account's
  user.\<close>

theorem booking_shown_to_owner:
  assumes codec: "\<And>a. a \<in> set (accounts (srv_auth (db w))) \<Longrightarrow> scan_uuid E (uuid_text E (ac_user a)) = Some (ac_user a)"
    and run: "get_booking r E w = (x, w')" and shown: "rs_status x = 200"
  shows "\<exists>h s a b. tokenHash E (bearer r) = Some h \<and> live_access h (clock E (pc w)) (srv_auth (db w)) s a \<and>
    b \<in> set (bookings (srv_data (db w))) \<and> b_id b = uuid_of E (rq_path r ''booking_id'') \<and> b_user b = Some (ac_user a)"
proof -
  have bad: "rs_status (failure r e) \<noteq> 200" "rs_status (domainError r e) \<noteq> 200" for e
    by (simp_all add: failure_def domainError_def Error_def JSON_def with_headers_def)
  from run shown bad obtain p w1 v w2 where p: "on_auth (Authenticate (bearer r)) E w = (Inr p, w1)"
    "on_data (Get (pr_user p) (rq_path r ''booking_id'')) E w1 = (Inr v, w2)"
    by (auto simp: get_booking_def Require_def attempt_def answer_def bearer_def Error_def JSON_def split: if_splits prod.splits sum.splits)
  from on_auth_run [OF p(1)] obtain y where y: "Authenticate (bearer r) E (auth_world w) = (Inr p, y)" "srv_data (db w1) = srv_data (db w)"
    using on_auth_data [OF p(1)] by blast
  from y(1) obtain h s a where h: "tokenHash E (bearer r) = Some h" "live_access h (clock E (pc w)) (srv_auth (db w)) s a"
    "pr_user p = uuid_text E (ac_user a)" by (rule Authenticate_Inr) auto
  from on_data_run [OF p(2)] obtain z where "Get (pr_user p) (rq_path r ''booking_id'') E (data_world w1) = (Inr v, z)" by blast
  from Get_owned [OF this] obtain b where b: "b \<in> set (bookings (srv_data (db w)))" "b_id b = uuid_of E (rq_path r ''booking_id'')"
    "b_user b = Some (uuid_of E (pr_user p))" "validate_UUID E (pr_user p)" using y(2) by auto
  have "uuid_of E (pr_user p) = ac_user a"
    using codec [of a] h(2) by (simp add: h(3) live_access_def uuid_of_def)
  with b(3) have "b_user b = Some (ac_user a)" by simp
  with h(1,2) b(1,2) show ?thesis by blast
qed

definition demo_get :: request where
  "demo_get = (demo_call ''GET'' [] (''Bearer '' @ demo_token (CHR ''Q'')))\<lparr>rq_path := \<lambda>_. demo_text 2\<rparr>"

lemma demo_get_facts: "rs_status (fst (get_booking demo_get demo_auth (demo_server demo_db))) = 200"
  by code_simp

theorem booking_shown_to_owner_witness:
  "\<exists>b a. a \<in> set (accounts demo_accounts) \<and> b \<in> set (bookings demo_db) \<and> b_id b = 2 \<and> b_user b = Some (ac_user a)"
proof -
  have d: "srv_auth (db (demo_server demo_db)) = demo_accounts" "srv_data (db (demo_server demo_db)) = demo_db"
    by (simp_all add: demo_server_def demo_world_def)
  have "list_all (\<lambda>a. scan_uuid demo_auth (uuid_text demo_auth (ac_user a)) = Some (ac_user a)) (accounts demo_accounts)" by code_simp
  then have codec: "scan_uuid demo_auth (uuid_text demo_auth (ac_user a)) = Some (ac_user a)" if "a \<in> set (accounts (srv_auth (db (demo_server demo_db))))" for a
    using that by (simp add: d list_all_iff)
  have two: "uuid_of demo_auth (rq_path demo_get ''booking_id'') = 2" by code_simp
  from booking_shown_to_owner [OF codec prod.collapse [symmetric] demo_get_facts]
  obtain h s a b where "live_access h (clock demo_auth (pc (demo_server demo_db))) demo_accounts s a" "b \<in> set (bookings demo_db)" "b_id b = 2"
    "b_user b = Some (ac_user a)" unfolding d two by blast
  then show ?thesis unfolding live_access_def by blast
qed

text \<open>Errors that \<open>domainError\<close> has no case for, among them those of a signed webhook with a malformed
  or unknown payment, are answered as internal errors.\<close>

lemma payment_errors_unmapped:
  "rs_status (domainError r PaymentErrInvalid) = 500" "rs_status (domainError r PaymentErrUnavailable) = 500"
  "rs_status (domainError r ErrInventoryConflict) = 500" "rs_status (domainError r ErrNoRows) = 500"
  by (simp_all add: domainError_def Temporary_def Error_def JSON_def)

subsection \<open>Metrics\<close>

definition known_methods :: "string list" where
  "known_methods = [''GET'', ''HEAD'', ''POST'', ''PUT'', ''PATCH'', ''DELETE'', ''OPTIONS'', ''OTHER'']"

definition known_routes :: "string list" where
  "known_routes = [''webui'', ''unmatched''] @ map (\<lambda>(p, _). fst p @ '' '' @ pattern_text (snd p)) patterns"

definition known_statuses :: "nat list" where
  "known_statuses = [200, 201, 202, 204, 400, 401, 403, 404, 409, 413, 415, 429, 500, 503]"

definition known_series :: "(string \<times> string \<times> nat) set" where
  "known_series = set known_methods \<times> set known_routes \<times> set known_statuses"

lemma known_series_small: "finite known_series \<and> card known_series \<le> 2800"
proof -
  have "card known_series \<le> length known_methods * (length known_routes * length known_statuses)"
    unfolding known_series_def card_cartesian_product by (intro mult_mono card_length) auto
  also have "... = 2800" by (simp add: known_methods_def known_routes_def known_statuses_def patterns_def)
  finally show ?thesis by (simp add: known_series_def)
qed

lemma method_label_known: "method_label m \<in> set known_methods"
  by (auto simp: method_label_def known_methods_def)

lemma first_row_in: "first_row xs = Some x \<Longrightarrow> x \<in> set xs"
  by (cases xs) (auto simp: first_row_def)

lemma mux_find_pattern: "mux_find r = Some (pt, bs) \<Longrightarrow> pt \<in> set patterns"
  unfolding mux_find_def by (drule first_row_in) auto

lemma route_label_known: "route_label r \<in> set known_routes"
  by (auto simp: route_label_def known_routes_def image_iff dest!: mux_find_pattern split: option.splits prod.splits intro!: bexI)

lemma status_known: "well_typed x \<or> not_ready x \<Longrightarrow> rs_status x \<in> set known_statuses"
  by (auto simp: well_typed_def not_ready_def known_statuses_def split: option.splits if_splits)

lemma page_status: "rs_status (fst (webui_Handler files (New opts (api_handler A) slow) r E w)) \<in> set known_statuses"
  using status_known [OF New_typed [of opts A slow r E w]]
  by (auto simp: webui_Handler_def answer_def known_statuses_def split: option.splits)



end
