(* ===== verification/Spec2Isabelle.thy ===== *)
theory Spec2Isabelle
  imports HoldProps LifecycleProps PaymentProps RefundProps BookingProps OutboxProps SystemProps AuthProps FlightProps HttpProps
begin

text \<open>
  A verification development of the airline booking service: the Go programs \<^verbatim>\<open>cmd/api\<close> and
  \<^verbatim>\<open>cmd/worker\<close>, which share one PostgreSQL database.

  \<^bold>\<open>The program.\<close>  A client registers and logs in (\<^verbatim>\<open>internal/auth\<close>), searches flights
  (\<^verbatim>\<open>internal/flight\<close>), fixes a price (\<^verbatim>\<open>internal/quote\<close>), turns the quote into a booking, names
  passengers and holds seats (\<^verbatim>\<open>internal/booking\<close>), pays, and may ask for its money back
  (\<^verbatim>\<open>internal/payment\<close>).  Every mutation a client may retry is recorded under its key
  (\<^verbatim>\<open>internal/idempotency\<close>).  State changes file events (\<^verbatim>\<open>internal/outbox\<close>), which the worker claims
  under leases and dispatches to the payment provider; the worker also expires holds.  All of it is
  reached through the handlers and the middleware of \<^verbatim>\<open>internal/httpapi\<close>, around which \<^verbatim>\<open>cmd/api\<close> puts the
  pages of \<^verbatim>\<open>internal/webui\<close> and the metrics of \<^verbatim>\<open>internal/observability\<close>.

  \<^bold>\<open>How the code is translated.\<close>  A function that touches the database is an \<open>act\<close> of \<open>Runtime\<close>: it reads
  an environment (clock, faults, generated ids, locked rows, third-party functions), threads the world
  (the tables, the statements issued, the random draws) and returns a Go error or a result.
  \<open>andthen\<close> is the check of \<^verbatim>\<open>err\<close> after every call, \<open>stmt\<close> a statement, which may fail at any point,
  and \<open>in_tx\<close> a transaction that restores the tables unless it commits.  A transaction is one step: the
  row locks and advisory locks of the source, which make it so, are statements without an effect, and
  \<^verbatim>\<open>SKIP LOCKED\<close> skips the rows the environment says are locked.  What no transaction spans is cut into
  steps: the batches of the outbox, and the calls to the provider in \<open>System\<close>.  Tables are lists of
  records, their CHECKs, unique indexes, foreign keys and the transition trigger are guards of the statements
  that write them (\<open>Schema\<close>).  \<^verbatim>\<open>int64\<close> arithmetic wraps where a total could overflow
  (\<open>Quote\<close>), addresses and counters are words, and loops are structural recursions: over the selections
  of a request, the events of a batch, the proxies of a chain, and the five attempts \<open>insert_attempts\<close> has
  for a locator, so that no fuel is needed anywhere.

  \<^bold>\<open>Theories, by component.\<close>
  \<^item> \<open>Prelude\<close> (tables and statements as list functions), \<open>Runtime\<close>, \<open>Validate\<close>
    (\<^verbatim>\<open>internal/validate\<close>, \<^verbatim>\<open>strings\<close>), \<open>Encoding\<close> (hex, base 32, base 64 and their round trips), \<open>Calendar\<close>
    (dates), \<open>Schema\<close> (\<^verbatim>\<open>migrations\<close>), \<open>Lab\<close> (\<^verbatim>\<open>internal/lab\<close>, \<^verbatim>\<open>inventory_reconcile.go\<close>), \<open>Paging\<close> (the locale
    \<open>keyset\<close>), \<open>Demo\<close> and \<open>DemoLedger\<close> (the concrete databases of the witnesses).
  \<^item> \<open>Idempotency\<close>: \<^verbatim>\<open>Begin\<close> and \<^verbatim>\<open>Save\<close>; the locales \<open>idempotent_mutation\<close> and \<open>idem_work\<close> prove once what a
    retry does, and every retryable operation interprets one.
  \<^item> \<open>HoldSeats\<close>: \<^verbatim>\<open>hold_seats.go\<close>, stage by stage; \<open>Inventory\<close> has the invariant between seats and
    assignments, \<open>HoldSafety\<close> and \<open>HoldSpec\<close> the specification \<open>held\<close> and its proof, \<open>HoldRun\<close> how a call
    ends, \<open>HoldProps\<close> the properties.
  \<^item> \<open>Lifecycle\<close>, \<open>LifecycleProps\<close>: \<^verbatim>\<open>lifecycle.go\<close>, release, cancellation and expiry.
  \<^item> \<open>Quote\<close>, \<open>QuoteRun\<close>: \<^verbatim>\<open>quote/store.go\<close>.  \<open>Bookings\<close>, \<open>BookingRun\<close>, \<open>BookingProps\<close>: \<^verbatim>\<open>create.go\<close>,
    \<^verbatim>\<open>list.go\<close> and the reads.  \<open>Commerce\<close>, \<open>CommerceRun\<close>: the invariant of prices, from quotes to payments.
  \<^item> \<open>Provider\<close>: \<^verbatim>\<open>payment/provider.go\<close>, the \<^verbatim>\<open>Provider\<close> interface as the locale \<open>payment_provider\<close> which
    \<open>FakeProvider\<close> interprets.  \<open>Payment\<close>, \<open>Refund\<close>: \<^verbatim>\<open>store.go\<close> and \<^verbatim>\<open>refund.go\<close>.  \<open>Ledger\<close> has the
    invariant of bookings, seats, payments and refunds; \<open>LedgerBooking\<close>, \<open>LedgerPayment\<close> and \<open>LedgerRefund\<close>
    prove that every operation keeps it, \<open>PaymentProps\<close> and \<open>RefundProps\<close> the properties.
  \<^item> \<open>Outbox\<close>, \<open>OutboxProps\<close>: \<^verbatim>\<open>outbox.go\<close> and the dispatcher and the round of \<^verbatim>\<open>cmd/worker\<close>.
  \<^item> \<open>Tally\<close>, \<open>System\<close>, \<open>SystemProps\<close>: all of the above as one transition system, in which requests,
    statements of workers and calls to the provider interleave, workers crash and are duplicated.
  \<^item> \<open>Auth\<close>, \<open>AuthRun\<close>, \<open>AuthProps\<close>: \<^verbatim>\<open>auth/store.go\<close> and \<^verbatim>\<open>password.go\<close>, over tables of their own.
  \<^item> \<open>Flight\<close>, \<open>FlightProps\<close>: \<^verbatim>\<open>flight/store.go\<close>, over a catalogue nothing in the program writes.
  \<^item> \<open>Http\<close> (\<^verbatim>\<open>http.go\<close>, \<^verbatim>\<open>rate.go\<close>, the wrappers of \<^verbatim>\<open>auth.go\<close>, the error mappings), \<open>Handlers\<close> (the 21
    routes), \<open>Serve\<close> (multiplexer, health checks, pages, metrics), \<open>Startup\<close> (configuration, pool, logging);
    \<open>HttpRun\<close> has the rules for replies, \<open>EdgeProps\<close> (with the locale \<open>window_limiter\<close> of the
    \<^verbatim>\<open>RateLimiter\<close> interface) and \<open>HttpProps\<close> the properties.

  \<^bold>\<open>What is shown.\<close>  Whole runs: no interleaving of requests, workers and provider calls, faults
  included, breaks the invariants of inventory, ledger and prices, so a booked seat is paid for exactly once
  and nothing is charged or refunded twice.  Seats: a hold never takes what another booking holds, ends
  within its bounds, and is the owner's; expiry takes only what has run out, and makes progress.  Money: totals
  are exact, a success confirms or sends the whole amount back, a repeated event or request does nothing twice.
  Delivery: the outbox refines a delivery machine per event, leases exclude, failures end as dead
  letters.  Accounts: tokens work once and until they end, a reused refresh token ends its session.
  Server: every response is well typed, an error response wrote nothing, protected routes need a live
  token, foreign origins reach no handler, the limiter grants its quota exactly, a client cannot forge its
  address, metrics and configuration stay within bounds.

  \<^bold>\<open>Parameters.\<close>  SHA-256, HMAC, Argon2id, the random source, UUID and JSON text, mail addresses, the
  grammars of \<^verbatim>\<open>net/netip\<close>, \<^verbatim>\<open>net/url\<close>, \<^verbatim>\<open>mime\<close> and of durations, and connection strings are functions of
  \<open>env\<close>, \<open>auth_lib\<close>, \<open>http_lib\<close> and \<open>config_lib\<close>; what a theorem needs of them (a codec that reads
  back its own text, sums of 32 bytes) is a hypothesis its witness discharges.  The clock is any function of the
  statement, unless a theorem says otherwise.

  \<^bold>\<open>Not modelled.\<close>  Listening, signals, shutdown and timers of the two programs; writing log lines; the
  Prometheus registry and pool statistics; connecting to the database; \<^verbatim>\<open>internal/demo\<close>
  and \<^verbatim>\<open>cmd/seed-demo\<close>, which fill development databases (and put confirmed bookings without a payment
  there, so the ledger is claimed for databases the program itself wrote); \<^verbatim>\<open>TicketIssuer\<close>, an interface
  without an implementation or a caller; \<^verbatim>\<open>internal/testsupport\<close>.  The columns and the 64-bit limit of the
  version counters that \<open>Schema\<close> leaves out are named there.
\<close>

end
